(* ===== verification/Prelude.thy ===== *)
theory Prelude
  imports Main "HOL-Library.Word" "HOL-Library.AList" "HOL-Library.Sublist"
    "HOL-Library.Char_ord" "HOL-Library.List_Lexorder"
begin

text \<open>
  Shared notions of the development: ordered association lists (the model of
  \<open>std::map\<close>), the string operations the sources use (path components, splitting,
  decimal printing), and the collections of facts that carry the component proofs.
\<close>

named_theorems ok_iff \<open>when a fallible operation of the model succeeds\<close>
named_theorems frame \<open>what an operation leaves unchanged\<close>

section \<open>Ordered maps\<close>

text \<open>
  \<open>std::map\<close> keeps its keys sorted and iterates in key order; \<open>emplace\<close> leaves an
  existing entry alone.
\<close>

definition sorted_map :: "('k::linorder \<times> 'v) list \<Rightarrow> bool" where
  "sorted_map m \<longleftrightarrow> sorted_wrt (<) (map fst m)"

fun map_emplace :: "'k::linorder \<Rightarrow> 'v \<Rightarrow> ('k \<times> 'v) list \<Rightarrow> ('k \<times> 'v) list" where
  "map_emplace k v [] = [(k, v)]"
| "map_emplace k v ((k', v') # m) =
     (if k < k' then (k, v) # (k', v') # m
      else if k = k' then (k', v') # m
      else (k', v') # map_emplace k v m)"

text \<open>\<open>it->second = v\<close> through an iterator to an existing key.\<close>

fun map_assign :: "'k \<Rightarrow> 'v \<Rightarrow> ('k \<times> 'v) list \<Rightarrow> ('k \<times> 'v) list" where
  "map_assign k v [] = []"
| "map_assign k v ((k', v') # m) = (if k = k' then (k', v) # m else (k', v') # map_assign k v m)"

lemma sorted_map_Nil [simp]: "sorted_map []"
  by (simp add: sorted_map_def)

lemma sorted_map_Cons [simp]:
  "sorted_map ((k, v) # m) \<longleftrightarrow> (\<forall>k' \<in> fst ` set m. k < k') \<and> sorted_map m"
  by (auto simp: sorted_map_def)

lemma sorted_map_distinct: "sorted_map m \<Longrightarrow> distinct (map fst m)"
  by (simp add: sorted_map_def strict_sorted_iff)

lemma fst_map_emplace [simp]: "fst ` set (map_emplace k v m) = insert k (fst ` set m)"
  by (induction k v m rule: map_emplace.induct) auto

lemma sorted_map_emplace [intro]: "sorted_map m \<Longrightarrow> sorted_map (map_emplace k v m)"
  by (induction k v m rule: map_emplace.induct) (auto simp del: split_paired_All)

lemma map_of_fst_None: "k \<notin> fst ` set m \<Longrightarrow> map_of m k = None"
  by (simp add: map_of_eq_None_iff)

lemma map_of_emplace:
  "sorted_map m \<Longrightarrow> map_of (map_emplace k v m) =
     (case map_of m k of None \<Rightarrow> (map_of m)(k \<mapsto> v) | Some _ \<Rightarrow> map_of m)"
proof (induction k v m rule: map_emplace.induct)
  case (2 k v k' v' m)
  consider "k < k'" | "k = k'" | "k' < k" by fastforce
  then show ?case
  proof cases
    case 1
    with "2.prems" have "map_of ((k', v') # m) k = None"
      by (fastforce intro: map_of_fst_None)
    with 1 show ?thesis by auto
  next
    case 3
    with 2 show ?thesis by (auto split: option.splits)
  qed auto
qed auto

lemma set_map_emplace_new:
  "map_of m k = None \<Longrightarrow> set (map_emplace k v m) = insert (k, v) (set m)"
  by (induction k v m rule: map_emplace.induct) (auto split: if_splits)

lemma map_fst_assign [simp]: "map fst (map_assign k v m) = map fst m"
  by (induction k v m rule: map_assign.induct) auto

lemma sorted_map_assign [simp]: "sorted_map (map_assign k v m) = sorted_map m"
  by (simp add: sorted_map_def)

lemma map_of_assign:
  "map_of (map_assign k v m) = (if k \<in> fst ` set m then (map_of m)(k \<mapsto> v) else map_of m)"
  by (induction k v m rule: map_assign.induct) auto

lemma sorted_map_delete [simp]: "sorted_map m \<Longrightarrow> sorted_map (AList.delete k m)"
  by (induction m) (auto simp: AList.delete_eq)

text \<open>The interface of a key-value container the clients rely on.\<close>

locale key_map =
  fixes invar :: "'m \<Rightarrow> bool"
    and find :: "'m \<Rightarrow> 'k \<Rightarrow> 'v option"
    and emplace :: "'k \<Rightarrow> 'v \<Rightarrow> 'm \<Rightarrow> 'm"
    and assign :: "'k \<Rightarrow> 'v \<Rightarrow> 'm \<Rightarrow> 'm"
    and erase :: "'k \<Rightarrow> 'm \<Rightarrow> 'm"
  assumes find_emplace: "invar m \<Longrightarrow> find (emplace k v m) =
      (case find m k of None \<Rightarrow> (find m)(k \<mapsto> v) | Some _ \<Rightarrow> find m)"
    and find_assign: "invar m \<Longrightarrow> find m k \<noteq> None \<Longrightarrow> find (assign k v m) = (find m)(k \<mapsto> v)"
    and find_erase: "invar m \<Longrightarrow> find (erase k m) = (find m)(k := None)"
    and invar_emplace: "invar m \<Longrightarrow> invar (emplace k v m)"
    and invar_assign: "invar m \<Longrightarrow> invar (assign k v m)"
    and invar_erase: "invar m \<Longrightarrow> invar (erase k m)"
begin

lemma emplace_idem: "invar m \<Longrightarrow> find (emplace k v (emplace k v' m)) = find (emplace k v' m)"
  by (auto simp: find_emplace invar_emplace split: option.splits)

lemma emplace_assign:
  "invar m \<Longrightarrow> find (assign k v (emplace k v' m)) = (find m)(k \<mapsto> v)"
  by (subst find_assign) (auto simp: find_emplace invar_emplace split: option.splits)

lemma erase_emplace:
  "invar m \<Longrightarrow> find m k = None \<Longrightarrow> find (erase k (emplace k v m)) = find m"
  by (auto simp: find_emplace find_erase invar_emplace)

end

interpretation omap: key_map sorted_map map_of map_emplace map_assign AList.delete
  by unfold_locales
    (auto simp: map_of_emplace map_of_assign AList.delete_conv map_of_eq_None_iff
      simp flip: map_of_eq_None_iff)


section \<open>Strings\<close>

text \<open>
  The sources build paths as \<open>dir + "/" + name\<close> and take them apart with
  \<open>parent_path\<close> and \<open>filename\<close>. The root directory is the empty path here.
\<close>

definition dirname :: "string \<Rightarrow> string" where
  "dirname p = rev (drop 1 (dropWhile (\<lambda>c. c \<noteq> CHR ''/'') (rev p)))"

definition basename :: "string \<Rightarrow> string" where
  "basename p = rev (takeWhile (\<lambda>c. c \<noteq> CHR ''/'') (rev p))"

abbreviation slash :: "string \<Rightarrow> string \<Rightarrow> string" where
  "slash d n \<equiv> d @ ''/'' @ n"

lemma dirname_slash [simp]: "CHR ''/'' \<notin> set n \<Longrightarrow> dirname (d @ CHR ''/'' # n) = d"
  by (auto simp: dirname_def dropWhile_append)

lemma basename_slash [simp]: "CHR ''/'' \<notin> set n \<Longrightarrow> basename (d @ CHR ''/'' # n) = n"
proof -
  assume "CHR ''/'' \<notin> set n"
  then have "takeWhile (\<lambda>c. c \<noteq> CHR ''/'') (rev n @ CHR ''/'' # rev d) = rev n"
    by (subst takeWhile_append2) auto
  then show ?thesis by (simp add: basename_def)
qed

text \<open>\<open>android::base::StartsWith\<close>, \<open>EndsWith\<close> and \<open>Split\<close> on one delimiter.\<close>

definition StartsWith :: "string \<Rightarrow> string \<Rightarrow> bool" where
  "StartsWith s p = prefix p s"

definition EndsWith :: "string \<Rightarrow> string \<Rightarrow> bool" where
  "EndsWith s p = suffix p s"

fun Split :: "string \<Rightarrow> char \<Rightarrow> string list" where
  "Split [] d = [[]]"
| "Split (c # s) d =
     (if c = d then [] # Split s d
      else case Split s d of [] \<Rightarrow> [[c]] | t # ts \<Rightarrow> (c # t) # ts)"

lemma Split_not_Nil [simp]: "Split s d \<noteq> []"
  by (induction s) (auto split: list.splits)

lemma Split_plain [simp]: "d \<notin> set s \<Longrightarrow> Split s d = [s]"
  by (induction s) auto

lemma Split_append: "d \<notin> set s \<Longrightarrow> Split (s @ d # t) d = s # Split t d"
  by (induction s) auto

text \<open>Decimal printing, \<open>std::to_string\<close>.\<close>

fun nat_to_string :: "nat \<Rightarrow> string" where
  "nat_to_string n =
     (if n < 10 then [char_of (48 + n)]
      else nat_to_string (n div 10) @ [char_of (48 + n mod 10)])"

declare nat_to_string.simps [simp del]

definition to_string :: "int \<Rightarrow> string" where
  "to_string i = (if i < 0 then CHR ''-'' # nat_to_string (nat (- i)) else nat_to_string (nat i))"

definition decimal_value :: "string \<Rightarrow> nat" where
  "decimal_value s = foldl (\<lambda>a c. 10 * a + (of_char c - 48)) 0 s"

lemma decimal_value_nat_to_string [simp]: "decimal_value (nat_to_string n) = n"
proof (induction n rule: nat_to_string.induct)
  case (1 n)
  show ?case
  proof (cases "n < 10")
    case True
    then show ?thesis by (subst nat_to_string.simps) (simp add: decimal_value_def)
  next
    case False
    with 1 have "decimal_value (nat_to_string (n div 10)) = n div 10" by simp
    with False show ?thesis
      by (subst nat_to_string.simps) (simp add: decimal_value_def)
  qed
qed

lemma nat_to_string_digits: "c \<in> set (nat_to_string n) \<Longrightarrow> (48::nat) \<le> of_char c \<and> of_char c \<le> (57::nat)"
proof (induction n rule: nat_to_string.induct)
  case (1 n)
  then show ?case
    by (subst (asm) nat_to_string.simps) (auto split: if_splits)
qed

lemma to_string_chars: "c \<in> set (to_string i) \<Longrightarrow> c = CHR ''-'' \<or> (48::nat) \<le> of_char c \<and> of_char c \<le> (57::nat)"
  by (auto simp: to_string_def dest: nat_to_string_digits split: if_splits)

lemma to_string_no_slash [simp]: "CHR ''/'' \<notin> set (to_string i)"
  by (auto dest: to_string_chars)

lemma to_string_no_at [simp]: "CHR ''@'' \<notin> set (to_string i)"
  by (auto dest: to_string_chars)

lemma nat_to_string_inject [simp]: "nat_to_string m = nat_to_string n \<longleftrightarrow> m = n"
  by (metis decimal_value_nat_to_string)

lemma nat_to_string_no_minus: "nat_to_string n \<noteq> CHR ''-'' # s"
  using nat_to_string_digits [of "CHR ''-''" n] by auto

lemma to_string_inject [simp]: "to_string i = to_string j \<longleftrightarrow> i = j"
proof -
  have "CHR ''-'' # s \<noteq> nat_to_string n" for s n
    using nat_to_string_no_minus [of n s] by metis
  then show ?thesis by (auto simp: to_string_def nat_to_string_no_minus)
qed

end
