(* ===== verification/Apex_Database.thy ===== *)
theory Apex_Database
  imports Prelude "HOL-Library.Multiset"
begin

text \<open>
  \<open>MountedApexDatabase\<close> of \<open>apexd/apex_database.h\<close>: for each package the mounted
  APEX images, each with a flag that says whether it is the latest. The two \<open>std::map\<close>s
  are ordered association lists. A failed \<open>CHECK\<close> and \<open>LOG(FATAL)\<close> abort the
  process; here they are \<open>None\<close>.
\<close>

section \<open>The data\<close>

datatype MountedApexData =
  MountedApexData (loop_name: string) (full_path: string) (mount_point: string)
    (device_name: string)

text \<open>
  \<open>operator<\<close> compares the loop name, the path, the mount point and the device name,
  in this order.
\<close>

definition data_less :: "MountedApexData \<Rightarrow> MountedApexData \<Rightarrow> bool" where
  "data_less lhs rhs =
     (if loop_name lhs < loop_name rhs then True
      else if loop_name lhs > loop_name rhs then False
      else if full_path lhs < full_path rhs then True
      else if full_path lhs > full_path rhs then False
      else if mount_point lhs < mount_point rhs then True
      else if mount_point lhs > mount_point rhs then False
      else device_name lhs < device_name rhs)"

instantiation MountedApexData :: linorder
begin

definition less_MountedApexData :: "MountedApexData \<Rightarrow> MountedApexData \<Rightarrow> bool" where
  "less_MountedApexData = data_less"

definition less_eq_MountedApexData :: "MountedApexData \<Rightarrow> MountedApexData \<Rightarrow> bool" where
  "less_eq_MountedApexData x y \<longleftrightarrow> x < y \<or> x = y"

instance
proof
  fix x y z :: MountedApexData
  show "x < y \<longleftrightarrow> x \<le> y \<and> \<not> y \<le> x"
    by (cases x; cases y) (auto simp: less_eq_MountedApexData_def less_MountedApexData_def data_less_def)
  show "x \<le> x" by (simp add: less_eq_MountedApexData_def)
  show "x \<le> y \<Longrightarrow> y \<le> z \<Longrightarrow> x \<le> z"
    by (cases x; cases y; cases z)
      (auto simp: less_eq_MountedApexData_def less_MountedApexData_def data_less_def split: if_splits)
  show "x \<le> y \<Longrightarrow> y \<le> x \<Longrightarrow> x = y"
    by (cases x; cases y)
      (auto simp: less_eq_MountedApexData_def less_MountedApexData_def data_less_def split: if_splits)
  show "x \<le> y \<or> y \<le> x"
    by (cases x; cases y) (auto simp: less_eq_MountedApexData_def less_MountedApexData_def data_less_def)
qed

end

type_synonym pkg_map = "(MountedApexData \<times> bool) list"
type_synonym apex_db = "(string \<times> pkg_map) list"

text \<open>The pairs \<open>ForallMountedApexes\<close> hands to its callback, in iteration order.\<close>

definition ForallMountedApexes :: "apex_db \<Rightarrow> string \<Rightarrow> pkg_map" where
  "ForallMountedApexes db package =
     (case map_of db package of None \<Rightarrow> [] | Some m \<Rightarrow> m)"

definition ForallMountedApexesAll :: "apex_db \<Rightarrow> (string \<times> MountedApexData \<times> bool) list" where
  "ForallMountedApexesAll db = concat (map (\<lambda>(package, m). map (\<lambda>(d, l). (package, d, l)) m) db)"

section \<open>The checks\<close>

definition CheckAtMostOneLatest :: "apex_db \<Rightarrow> bool" where
  "CheckAtMostOneLatest db \<longleftrightarrow> (\<forall>(package, m) \<in> set db. length (filter snd m) \<le> 1)"

text \<open>
  The two \<open>unordered_set\<close>s are threaded through the loop as lists; an insertion that
  finds its element already there is the failed \<open>CHECK\<close>.
\<close>

fun check_unique :: "string list \<Rightarrow> string list \<Rightarrow> MountedApexData list \<Rightarrow> bool" where
  "check_unique loop_devices dm_devices [] = True"
| "check_unique loop_devices dm_devices (d # ds) =
     (if loop_name d \<noteq> '''' \<and> loop_name d \<in> set loop_devices then False
      else if device_name d \<noteq> '''' \<and> device_name d \<in> set dm_devices then False
      else check_unique
        (if loop_name d \<noteq> '''' then loop_name d # loop_devices else loop_devices)
        (if device_name d \<noteq> '''' then device_name d # dm_devices else dm_devices) ds)"

definition CheckUniqueLoopDm :: "apex_db \<Rightarrow> bool" where
  "CheckUniqueLoopDm db = check_unique [] [] (map (\<lambda>(_, d, _). d) (ForallMountedApexesAll db))"

section \<open>The operations\<close>

definition AddMountedApex :: "string \<Rightarrow> bool \<Rightarrow> MountedApexData \<Rightarrow> apex_db \<Rightarrow> apex_db option" where
  "AddMountedApex package latest data db =
     (let db1 = map_emplace package [] db;
          m = ForallMountedApexes db1 package
      in if map_of m data \<noteq> None then None
         else let db2 = map_assign package (map_emplace data latest m) db1
              in if \<not> CheckAtMostOneLatest db2 then None
                 else if \<not> CheckUniqueLoopDm db2 then None
                 else Some db2)"

fun remove_path :: "string \<Rightarrow> pkg_map \<Rightarrow> pkg_map" where
  "remove_path path [] = []"
| "remove_path path ((d, l) # m) =
     (if full_path d = path then m else (d, l) # remove_path path m)"

definition RemoveMountedApex :: "string \<Rightarrow> string \<Rightarrow> apex_db \<Rightarrow> apex_db" where
  "RemoveMountedApex package path db =
     (case map_of db package of None \<Rightarrow> db
      | Some m \<Rightarrow> map_assign package (remove_path path m) db)"

fun set_latest_path :: "string \<Rightarrow> pkg_map \<Rightarrow> pkg_map option" where
  "set_latest_path path [] = None"
| "set_latest_path path ((d, l) # m) =
     (if full_path d = path then Some ((d, True) # map (\<lambda>(d', _). (d', False)) m)
      else map_option (\<lambda>m'. (d, False) # m') (set_latest_path path m))"

definition SetLatest :: "string \<Rightarrow> string \<Rightarrow> apex_db \<Rightarrow> apex_db option" where
  "SetLatest package path db =
     (case map_of db package of None \<Rightarrow> None
      | Some m \<Rightarrow> map_option (\<lambda>m'. map_assign package m' db) (set_latest_path path m))"

definition UnsetLatestForall :: "string \<Rightarrow> apex_db \<Rightarrow> apex_db" where
  "UnsetLatestForall package db =
     (case map_of db package of None \<Rightarrow> db
      | Some m \<Rightarrow> map_assign package (map (\<lambda>(d, _). (d, False)) m) db)"

section \<open>Invariant and abstraction\<close>

definition all_data :: "apex_db \<Rightarrow> MountedApexData list" where
  "all_data db = concat (map (map fst \<circ> snd) db)"

definition loop_devices :: "apex_db \<Rightarrow> string list" where
  "loop_devices db = filter (\<lambda>n. n \<noteq> '''') (map loop_name (all_data db))"

definition dm_devices :: "apex_db \<Rightarrow> string list" where
  "dm_devices db = filter (\<lambda>n. n \<noteq> '''') (map device_name (all_data db))"

definition db_inv :: "apex_db \<Rightarrow> bool" where
  "db_inv db \<longleftrightarrow> sorted_map db \<and> (\<forall>(package, m) \<in> set db. sorted_map m) \<and>
     CheckAtMostOneLatest db \<and> CheckUniqueLoopDm db"

text \<open>What the database says of a package and an image: absent, or its latest flag.\<close>

definition mounted :: "apex_db \<Rightarrow> string \<Rightarrow> MountedApexData \<Rightarrow> bool option" where
  "mounted db package = map_of (ForallMountedApexes db package)"

lemma map_snd_ForallAll: "map (\<lambda>(_, d, _). d) (ForallMountedApexesAll db) = all_data db"
  by (auto simp: ForallMountedApexesAll_def all_data_def map_concat intro!: arg_cong [where f = concat])

lemma check_unique_iff:
  "check_unique ls ds xs \<longleftrightarrow>
     distinct (filter (\<lambda>n. n \<noteq> '''') (map loop_name xs)) \<and>
     (\<forall>d \<in> set xs. loop_name d \<noteq> '''' \<longrightarrow> loop_name d \<notin> set ls) \<and>
     distinct (filter (\<lambda>n. n \<noteq> '''') (map device_name xs)) \<and>
     (\<forall>d \<in> set xs. device_name d \<noteq> '''' \<longrightarrow> device_name d \<notin> set ds)"
proof (induction xs arbitrary: ls ds)
  case (Cons x xs)
  show ?case
    by (simp add: Cons.IH) (auto simp: image_iff)
qed simp

lemma CheckUniqueLoopDm_iff:
  "CheckUniqueLoopDm db \<longleftrightarrow> distinct (loop_devices db) \<and> distinct (dm_devices db)"
  by (simp add: CheckUniqueLoopDm_def map_snd_ForallAll check_unique_iff loop_devices_def
      dm_devices_def)

lemma one_latest_iff:
  "distinct (map fst m) \<Longrightarrow> length (filter snd m) \<le> 1 \<longleftrightarrow>
     (\<forall>d d'. map_of m d = Some True \<longrightarrow> map_of m d' = Some True \<longrightarrow> d = d')"
proof (induction m)
  case (Cons x m)
  obtain d l where x: "x = (d, l)" by (cases x)
  have none: "filter snd m = [] \<longleftrightarrow> (\<forall>d. map_of m d \<noteq> Some True)"
    using Cons.prems by (auto simp: filter_empty_conv)
  from Cons.prems x have d: "map_of m d = None" by (simp add: map_of_eq_None_iff)
  show ?case
  proof (cases l)
    case True
    have eq: "map_of (x # m) e = Some True \<longleftrightarrow> e = d \<or> map_of m e = Some True" for e
      using x d True by auto
    have "length (filter snd (x # m)) \<le> 1 \<longleftrightarrow> (\<forall>e. map_of m e \<noteq> Some True)"
      using x True none by simp
    with eq d show ?thesis by (metis option.distinct(1))
  next
    case False
    have "map_of (x # m) e = Some True \<longleftrightarrow> map_of m e = Some True" for e
      using x d False by auto
    moreover have "filter snd (x # m) = filter snd m" "distinct (map fst m)"
      using x False Cons.prems by simp_all
    ultimately show ?thesis using Cons.IH by (simp only:)
  qed
qed simp

lemma mounted_unique_latest:
  assumes "db_inv db" "mounted db package d = Some True" "mounted db package d' = Some True"
  shows "d = d'"
proof -
  from assms(2) obtain m where m: "map_of db package = Some m" "mounted db package = map_of m"
    by (auto simp: mounted_def ForallMountedApexes_def split: option.splits)
  then have "(package, m) \<in> set db" by (simp add: map_of_SomeD)
  with assms(1) have "distinct (map fst m)" "length (filter snd m) \<le> 1"
    by (auto simp: db_inv_def CheckAtMostOneLatest_def sorted_map_distinct)
  with assms m show ?thesis by (simp only: one_latest_iff)
qed

lemma ForallMountedApexes_emplace [simp]:
  "sorted_map db \<Longrightarrow> ForallMountedApexes (map_emplace package [] db) = ForallMountedApexes db"
  by (auto simp: ForallMountedApexes_def map_of_emplace fun_eq_iff split: option.splits)

lemma ForallMountedApexes_assign:
  "package \<in> fst ` set db \<Longrightarrow>
     ForallMountedApexes (map_assign package m db) = (ForallMountedApexes db)(package := m)"
  by (auto simp: ForallMountedApexes_def map_of_assign fun_eq_iff)

lemma ForallMountedApexes_Nil [simp]: "ForallMountedApexes [] = (\<lambda>_. [])"
  by (simp add: ForallMountedApexes_def fun_eq_iff)

lemma ball_db_iff:
  assumes "sorted_map db" and "P []"
  shows "(\<forall>(package, m) \<in> set db. P m) \<longleftrightarrow> (\<forall>package. P (ForallMountedApexes db package))"
proof -
  from assms(1) have d: "distinct (map fst db)" by (rule sorted_map_distinct)
  have mem: "(package, m) \<in> set db \<longleftrightarrow> map_of db package = Some m" for package m
    using d by simp
  show ?thesis
    by (auto simp: mem ForallMountedApexes_def assms(2) split: option.splits)
qed

lemma db_inv_alt:
  "db_inv db \<longleftrightarrow> sorted_map db \<and> (\<forall>p. sorted_map (ForallMountedApexes db p)) \<and>
     (\<forall>p. length (filter snd (ForallMountedApexes db p)) \<le> 1) \<and>
     distinct (loop_devices db) \<and> distinct (dm_devices db)"
  using ball_db_iff [of db sorted_map] ball_db_iff [of db "\<lambda>m. length (filter snd m) \<le> 1"]
  by (auto simp: db_inv_def CheckAtMostOneLatest_def CheckUniqueLoopDm_iff)

lemma db_inv_Nil [simp]: "db_inv []"
  by (simp add: db_inv_alt loop_devices_def dm_devices_def all_data_def)

lemma mset_all_data_assign:
  "sorted_map db \<Longrightarrow> package \<in> fst ` set db \<Longrightarrow>
     mset (all_data (map_assign package m db)) + mset (map fst (ForallMountedApexes db package)) =
     mset (all_data db) + mset (map fst m)"
proof (induction package m db rule: map_assign.induct)
  case (2 k v k' v' db)
  show ?case
  proof (cases "k = k'")
    case True
    then show ?thesis by (simp add: all_data_def ForallMountedApexes_def)
  next
    case False
    with 2 show ?thesis by (auto simp: all_data_def ForallMountedApexes_def)
  qed
qed simp

lemma all_data_emplace [simp]: "all_data (map_emplace package [] db) = all_data db"
  by (induction package "[] :: pkg_map" db rule: map_emplace.induct) (auto simp: all_data_def)

lemma loop_devices_mset:
  "mset (loop_devices db) = image_mset loop_name (filter_mset (\<lambda>d. loop_name d \<noteq> '''') (mset (all_data db)))"
  by (simp add: loop_devices_def filter_map comp_def)

lemma dm_devices_mset:
  "mset (dm_devices db) = image_mset device_name (filter_mset (\<lambda>d. device_name d \<noteq> '''') (mset (all_data db)))"
  by (simp add: dm_devices_def filter_map comp_def)

lemma loop_devices_cong: "mset (all_data db) = mset (all_data db') \<Longrightarrow>
    distinct (loop_devices db) = distinct (loop_devices db')"
  by (rule mset_eq_imp_distinct_iff) (simp add: loop_devices_mset)

lemma dm_devices_cong: "mset (all_data db) = mset (all_data db') \<Longrightarrow>
    distinct (dm_devices db) = distinct (dm_devices db')"
  by (rule mset_eq_imp_distinct_iff) (simp add: dm_devices_mset)

text \<open>Fewer images keep their devices distinct.\<close>

lemma distinct_subset_mset: "mset xs \<subseteq># mset ys \<Longrightarrow> distinct ys \<Longrightarrow> distinct xs"
proof -
  assume sub: "mset xs \<subseteq># mset ys" and d: "distinct ys"
  have "count (mset xs) a = (if a \<in> set xs then 1 else 0)" for a
  proof (cases "a \<in> set xs")
    case True
    then have "0 < count (mset xs) a" by simp
    moreover have "count (mset xs) a \<le> count (mset ys) a"
      using sub by (rule mset_subset_eq_count)
    moreover have "count (mset ys) a \<le> 1"
      using d by (simp add: distinct_count_atmost_1)
    ultimately have "count (mset xs) a = 1" by linarith
    with True show ?thesis by simp
  qed simp
  then show ?thesis by (simp add: distinct_count_atmost_1)
qed

lemma mset_all_data_sub:
  assumes "mset (all_data db') \<subseteq># mset (all_data db)"
  shows "mset (loop_devices db') \<subseteq># mset (loop_devices db)"
    and "mset (dm_devices db') \<subseteq># mset (dm_devices db)"
  using assms
  by (simp_all add: loop_devices_mset dm_devices_mset image_mset_subseteq_mono
      multiset_filter_mono)

section \<open>What each operation does\<close>

lemma map_of_db_mem: "map_of db package = Some m \<Longrightarrow>
    package \<in> fst ` set db \<and> ForallMountedApexes db package = m"
  by (auto simp: ForallMountedApexes_def dest: map_of_SomeD intro: rev_image_eqI)

text \<open>Replacing the entries of one package by a smaller or relabelled set keeps the invariant.\<close>

lemma db_inv_assign:
  assumes inv: "db_inv db" and p: "map_of db package = Some m"
    and m': "sorted_map m'" "length (filter snd m') \<le> 1"
    and sub: "mset (map fst m') \<subseteq># mset (map fst m)"
  shows "db_inv (map_assign package m' db)"
proof -
  have s: "sorted_map db" using inv by (simp add: db_inv_def)
  from map_of_db_mem [OF p] have mem: "package \<in> fst ` set db" "ForallMountedApexes db package = m"
    by auto
  have "mset (all_data (map_assign package m' db)) \<subseteq># mset (all_data db)"
  proof -
    have "mset (all_data (map_assign package m' db)) + mset (map fst m) \<subseteq>#
        mset (all_data db) + mset (map fst m)"
      using mset_all_data_assign [OF s mem(1), of m'] mem(2) sub
      by (simp add: subset_mset.add_left_mono)
    then show ?thesis by simp
  qed
  then show ?thesis
    using inv m' mset_all_data_sub [of "map_assign package m' db" db]
    by (auto simp: db_inv_alt ForallMountedApexes_assign [OF mem(1)] intro: distinct_subset_mset)
qed

lemma mounted_assign:
  "package \<in> fst ` set db \<Longrightarrow>
     mounted (map_assign package m db) = (mounted db)(package := map_of m)"
  by (auto simp: mounted_def ForallMountedApexes_assign fun_eq_iff)

lemma AddMountedApex_SomeD:
  assumes "AddMountedApex package latest data db = Some db'" and "db_inv db"
  shows "db_inv db'" "mounted db package data = None"
    "mounted db' = (mounted db)(package := (mounted db package)(data \<mapsto> latest))"
    "mset (all_data db') = add_mset data (mset (all_data db))"
proof -
  define db1 where "db1 = map_emplace package [] db"
  define m where "m = ForallMountedApexes db package"
  have s: "sorted_map db" "sorted_map db1" "sorted_map m"
    using assms(2) by (auto simp: db_inv_alt db1_def m_def)
  have mem: "package \<in> fst ` set db1" and fma: "ForallMountedApexes db1 = ForallMountedApexes db"
    using s by (simp_all add: db1_def)
  from assms(1) have new: "map_of m data = None"
    and db': "db' = map_assign package (map_emplace data latest m) db1"
    and chk: "CheckAtMostOneLatest db'" "CheckUniqueLoopDm db'"
    using fma by (auto simp: AddMountedApex_def Let_def m_def db1_def split: if_splits)
  have fma': "ForallMountedApexes db' = (ForallMountedApexes db)(package := map_emplace data latest m)"
    using mem fma by (simp add: db' ForallMountedApexes_assign)
  have sd: "sorted_map db'" using s by (simp add: db')
  have "\<forall>p. length (filter snd (ForallMountedApexes db' p)) \<le> 1"
    using chk(1) ball_db_iff [OF sd, of "\<lambda>m. length (filter snd m) \<le> 1"]
    by (simp add: CheckAtMostOneLatest_def)
  moreover have "\<forall>p. sorted_map (ForallMountedApexes db' p)"
    using assms(2) s by (auto simp: fma' db_inv_alt)
  ultimately show "db_inv db'"
    using chk(2) sd by (simp add: db_inv_alt CheckUniqueLoopDm_iff)
  show "mounted db package data = None"
    using new by (simp add: mounted_def m_def)
  show "mounted db' = (mounted db)(package := (mounted db package)(data \<mapsto> latest))"
    using new s by (auto simp: mounted_def fma' map_of_emplace m_def fun_eq_iff)
  have "mset (map fst (map_emplace data latest m)) = add_mset data (mset (map fst m))"
    using new by (induction data latest m rule: map_emplace.induct) (auto split: if_splits)
  then show "mset (all_data db') = add_mset data (mset (all_data db))"
    using mset_all_data_assign [OF s(2) mem, of "map_emplace data latest m"]
    by (simp add: db' db1_def [symmetric] fma m_def [symmetric])
      (simp add: db1_def)
qed

text \<open>The entry a path selects: the first one in map order.\<close>

definition path_entry :: "string \<Rightarrow> pkg_map \<Rightarrow> MountedApexData option" where
  "path_entry path m = map_option fst (find (\<lambda>(d, _). full_path d = path) m)"

lemma path_entry_simps [simp]:
  "path_entry path [] = None"
  "path_entry path ((d, l) # m) = (if full_path d = path then Some d else path_entry path m)"
  by (simp_all add: path_entry_def)

lemma path_entry_SomeD:
  "path_entry path m = Some d \<Longrightarrow> full_path d = path \<and> d \<in> fst ` set m"
  by (induction m) (auto split: if_splits)

lemma path_entry_None_iff: "path_entry path m = None \<longleftrightarrow> (\<forall>(d, _) \<in> set m. full_path d \<noteq> path)"
  by (auto simp: path_entry_def find_None_iff)

lemma delete_absent: "k \<notin> fst ` set m \<Longrightarrow> AList.delete k m = m"
  by (induction m) auto

lemma remove_path_eq:
  "distinct (map fst m) \<Longrightarrow> remove_path path m =
     (case path_entry path m of None \<Rightarrow> m | Some d \<Rightarrow> AList.delete d m)"
proof (induction path m rule: remove_path.induct)
  case (2 path d l m)
  then have "AList.delete d m = m" by (simp add: delete_absent)
  moreover have "d \<noteq> e" if "path_entry path m = Some e" for e
    using "2.prems" path_entry_SomeD [OF that] by auto
  ultimately show ?case using 2 by (auto split: option.splits)
qed simp

lemma set_latest_path_eq:
  "distinct (map fst m) \<Longrightarrow> set_latest_path path m =
     map_option (\<lambda>d. map (\<lambda>(e, _). (e, e = d)) m) (path_entry path m)"
proof (induction path m rule: set_latest_path.induct)
  case (2 path d l m)
  have "map (\<lambda>(e, _). (e, False)) m = map (\<lambda>(e, _). (e, e = d)) m"
    using "2.prems" by (auto simp: image_iff)
  moreover have "d \<noteq> e" if "path_entry path m = Some e" for e
    using "2.prems" path_entry_SomeD [OF that] by auto
  ultimately show ?case using 2 by (cases "path_entry path m") auto
qed simp

lemma map_of_relabel: "map_of (map (\<lambda>(e, _). (e, f e)) m) e = map_option (\<lambda>_. f e) (map_of m e)"
  by (induction m) auto

lemma fst_relabel [simp]: "map fst (map (\<lambda>(e, _). (e, f e)) m) = map fst m"
  by (simp add: comp_def case_prod_beta)

lemma sorted_map_relabel [simp]: "sorted_map (map (\<lambda>(e, _). (e, f e)) m) = sorted_map m"
  by (simp only: sorted_map_def fst_relabel)

lemma filter_one: "distinct (map fst m) \<Longrightarrow> length (filter snd (map (\<lambda>(e, _). (e, e = d)) m)) \<le> 1"
  by (subst one_latest_iff) (auto simp: map_of_relabel fst_relabel simp del: map_map)

lemma db_inv_pkg:
  "db_inv db \<Longrightarrow> sorted_map (ForallMountedApexes db package) \<and>
     distinct (map fst (ForallMountedApexes db package)) \<and>
     length (filter snd (ForallMountedApexes db package)) \<le> 1"
  by (auto simp: db_inv_alt sorted_map_distinct)

lemma length_filter_delete: "length (filter P (AList.delete k m)) \<le> length (filter P m)"
  by (induction m) (auto simp: AList.delete_eq)

lemma mset_fst_delete: "mset (map fst (AList.delete k m)) \<subseteq># mset (map fst m)"
  by (simp add: AList.delete_eq mset_filter image_mset_subseteq_mono)

lemma RemoveMountedApex_spec:
  assumes inv: "db_inv db"
  shows "db_inv (RemoveMountedApex package path db)"
    and "mounted (RemoveMountedApex package path db) =
      (case path_entry path (ForallMountedApexes db package) of None \<Rightarrow> mounted db
       | Some d \<Rightarrow> (mounted db)(package := (mounted db package)(d := None)))"
proof -
  show "db_inv (RemoveMountedApex package path db)"
  proof (cases "map_of db package")
    case (Some m)
    with db_inv_pkg [OF inv, of package] have m: "sorted_map m" "distinct (map fst m)"
      "length (filter snd m) \<le> 1"
      by (auto simp: ForallMountedApexes_def)
    have "db_inv (map_assign package (remove_path path m) db)"
    proof (rule db_inv_assign [OF inv Some])
      show "length (filter snd (remove_path path m)) \<le> 1"
        using m length_filter_delete [of snd _ m]
        by (auto simp: remove_path_eq split: option.splits intro: order_trans)
    qed (use m mset_fst_delete in \<open>auto simp: remove_path_eq split: option.splits\<close>)
    with Some show ?thesis by (simp add: RemoveMountedApex_def)
  qed (simp add: RemoveMountedApex_def inv)
  show "mounted (RemoveMountedApex package path db) =
      (case path_entry path (ForallMountedApexes db package) of None \<Rightarrow> mounted db
       | Some d \<Rightarrow> (mounted db)(package := (mounted db package)(d := None)))"
  proof (cases "map_of db package")
    case (Some m)
    with db_inv_pkg [OF inv, of package] have "distinct (map fst m)"
      by (auto simp: ForallMountedApexes_def)
    with Some map_of_db_mem [OF Some] show ?thesis
      by (auto simp: RemoveMountedApex_def mounted_assign remove_path_eq AList.delete_conv
          mounted_def fun_eq_iff split: option.splits)
  qed (simp add: RemoveMountedApex_def ForallMountedApexes_def)
qed

lemma SetLatest_None_iff:
  assumes inv: "db_inv db"
  shows "SetLatest package path db = None \<longleftrightarrow>
    path_entry path (ForallMountedApexes db package) = None"
  using db_inv_pkg [OF inv, of package]
  by (auto simp: SetLatest_def ForallMountedApexes_def set_latest_path_eq split: option.splits)

lemma SetLatest_SomeD:
  assumes "SetLatest package path db = Some db'" and inv: "db_inv db"
  obtains d where "path_entry path (ForallMountedApexes db package) = Some d"
    and "mounted db' = (mounted db)(package := \<lambda>e. map_option (\<lambda>_. e = d) (mounted db package e))"
    and "db_inv db'" and "mset (all_data db') = mset (all_data db)"
proof -
  from assms(1) obtain m where m: "map_of db package = Some m"
    by (auto simp: SetLatest_def split: option.splits)
  note mem = map_of_db_mem [OF m]
  from db_inv_pkg [OF inv, of package] mem have d: "distinct (map fst m)" "sorted_map m" by auto
  with assms(1) m obtain d where e: "path_entry path m = Some d"
    and db': "db' = map_assign package (map (\<lambda>(e, _). (e, e = d)) m) db"
    by (auto simp: SetLatest_def set_latest_path_eq)
  have "db_inv db'"
    unfolding db' by (rule db_inv_assign [OF inv m])
      (use d filter_one in \<open>auto simp del: map_map simp flip: mset_map simp: fst_relabel\<close>)
  moreover have "mounted db' = (mounted db)(package := \<lambda>e. map_option (\<lambda>_. e = d) (mounted db package e))"
    using mem by (auto simp: db' mounted_assign map_of_relabel mounted_def fun_eq_iff)
  moreover have "mset (all_data db') = mset (all_data db)"
    using mset_all_data_assign [of db package "map (\<lambda>(e, _). (e, e = d)) m"] mem inv
    by (simp add: db' db_inv_def fst_relabel del: map_map mset_map)
  ultimately show ?thesis using that e mem by metis
qed

lemma UnsetLatestForall_spec:
  assumes inv: "db_inv db"
  shows "db_inv (UnsetLatestForall package db)"
    and "mounted (UnsetLatestForall package db) =
      (mounted db)(package := \<lambda>e. map_option (\<lambda>_. False) (mounted db package e))"
proof -
  show "db_inv (UnsetLatestForall package db)"
  proof (cases "map_of db package")
    case (Some m)
    then show ?thesis
      using db_inv_pkg [OF inv, of package] map_of_db_mem [OF Some]
      by (auto simp: UnsetLatestForall_def fst_relabel simp del: map_map simp flip: mset_map
          intro!: db_inv_assign [OF inv Some])
        (simp add: filter_map comp_def case_prod_beta)
  qed (simp add: UnsetLatestForall_def inv)
  show "mounted (UnsetLatestForall package db) =
      (mounted db)(package := \<lambda>e. map_option (\<lambda>_. False) (mounted db package e))"
  proof (cases "map_of db package")
    case (Some m)
    then show ?thesis using map_of_db_mem [OF Some]
      by (auto simp: UnsetLatestForall_def mounted_assign map_of_relabel mounted_def fun_eq_iff)
  qed (auto simp: UnsetLatestForall_def mounted_def ForallMountedApexes_def fun_eq_iff)
qed

text \<open>When an image can be added: it is new, and so are its loop and device-mapper devices.\<close>

lemma mset_distinct_new: "distinct xs \<Longrightarrow> mset xs = add_mset x (mset ys) \<Longrightarrow> x \<notin> set ys"
  by (metis distinct.simps(2) mset.simps(2) mset_eq_imp_distinct_iff)

lemma AddMountedApex_possible:
  assumes inv: "db_inv db"
    and new: "mounted db package data = None"
    and loop: "loop_name data \<noteq> '''' \<Longrightarrow> loop_name data \<notin> set (loop_devices db)"
    and dm: "device_name data \<noteq> '''' \<Longrightarrow> device_name data \<notin> set (dm_devices db)"
    and only: "\<And>e. latest \<Longrightarrow> mounted db package e \<noteq> Some True"
  shows "AddMountedApex package latest data db \<noteq> None"
proof -
  define db1 where "db1 = map_emplace package [] db"
  define m where "m = ForallMountedApexes db package"
  define db2 where "db2 = map_assign package (map_emplace data latest m) db1"
  have s: "sorted_map db" "sorted_map db1" "sorted_map m" "sorted_map db2"
    using inv by (auto simp: db_inv_alt db1_def m_def db2_def)
  have mem: "package \<in> fst ` set db1" and fma: "ForallMountedApexes db1 = ForallMountedApexes db"
    using s by (simp_all add: db1_def)
  have none: "map_of m data = None" using new by (simp add: mounted_def m_def)
  have fma2: "ForallMountedApexes db2 = (ForallMountedApexes db)(package := map_emplace data latest m)"
    using mem fma by (simp add: db2_def ForallMountedApexes_assign)
  have "mset (map_emplace data latest m) = add_mset (data, latest) (mset m)"
    using none by (induction data latest m rule: map_emplace.induct) (auto split: if_splits)
  then have mf: "mset (map fst (map_emplace data latest m)) = add_mset data (mset (map fst m))"
    and ml: "mset (filter snd (map_emplace data latest m)) =
      (if latest then add_mset (data, True) (mset (filter snd m)) else mset (filter snd m))"
    by simp_all
  have "length (filter snd (map_emplace data latest m)) = length (filter snd m) + (if latest then 1 else 0)"
    using arg_cong [OF ml, of size] by (cases latest) (simp_all del: mset_filter)
  moreover have "filter snd m = []" if latest
  proof -
    have "map_of m x \<noteq> Some True" for x using only [OF that, of x] by (simp add: mounted_def m_def)
    then have "(x, True) \<notin> set m" for x using sorted_map_distinct [OF s(3)] by (metis map_of_is_SomeI)
    then show ?thesis by (auto simp: filter_empty_conv)
  qed
  ultimately have flt: "length (filter snd (map_emplace data latest m)) \<le> 1"
    using db_inv_pkg [OF inv, of package] by (auto simp: m_def)
  from mf have all: "mset (all_data db2) = add_mset data (mset (all_data db))"
    using mset_all_data_assign [OF s(2) mem, of "map_emplace data latest m"]
    by (simp add: db2_def fma m_def [symmetric]) (simp add: db1_def)
  have le: "length (filter snd (ForallMountedApexes db2 p)) \<le> 1" for p
    using flt db_inv_pkg [OF inv, of p] by (simp add: fma2)
  have one: "CheckAtMostOneLatest db2"
    unfolding CheckAtMostOneLatest_def
    by (subst ball_db_iff [OF s(4)]) (use le in auto)
  have "distinct (loop_devices db2)"
  proof (rule distinct_subset_mset)
    show "mset (loop_devices db2) \<subseteq># mset (if loop_name data = '''' then loop_devices db
        else loop_name data # loop_devices db)"
      by (simp add: loop_devices_mset all)
  qed (use inv loop in \<open>auto simp: db_inv_alt\<close>)
  moreover have "distinct (dm_devices db2)"
  proof (rule distinct_subset_mset)
    show "mset (dm_devices db2) \<subseteq># mset (if device_name data = '''' then dm_devices db
        else device_name data # dm_devices db)"
      by (simp add: dm_devices_mset all)
  qed (use inv dm in \<open>auto simp: db_inv_alt\<close>)
  ultimately have "CheckUniqueLoopDm db2" by (simp add: CheckUniqueLoopDm_iff)
  with one none show ?thesis
    by (auto simp: AddMountedApex_def Let_def fma m_def [symmetric] db1_def [symmetric]
        db2_def [symmetric])
qed

section \<open>The interface the daemon relies on\<close>

text \<open>
  The clients of the database (mounting, activation, population from \<open>/proc/mounts\<close>)
  see it through this interface: which images of which package are recorded, and which
  of them is the latest.
\<close>

locale mounted_images =
  fixes inv :: "'db \<Rightarrow> bool"
    and view :: "'db \<Rightarrow> string \<Rightarrow> MountedApexData \<Rightarrow> bool option"
    and add :: "string \<Rightarrow> bool \<Rightarrow> MountedApexData \<Rightarrow> 'db \<Rightarrow> 'db option"
    and latest :: "string \<Rightarrow> string \<Rightarrow> 'db \<Rightarrow> 'db option"
    and remove :: "string \<Rightarrow> string \<Rightarrow> 'db \<Rightarrow> 'db"
  assumes add_law: "inv db \<Longrightarrow> add p l d db = Some db' \<Longrightarrow>
      inv db' \<and> view db p d = None \<and> view db' = (view db)(p := (view db p)(d \<mapsto> l))"
    and latest_law: "inv db \<Longrightarrow> latest p path db = Some db' \<Longrightarrow>
      inv db' \<and> (\<exists>d. full_path d = path \<and> view db p d \<noteq> None \<and>
        view db' = (view db)(p := \<lambda>e. map_option (\<lambda>_. e = d) (view db p e)))"
    and latest_None: "inv db \<Longrightarrow> latest p path db = None \<Longrightarrow> view db p d \<noteq> None \<Longrightarrow>
      full_path d \<noteq> path"
    and remove_law: "inv db \<Longrightarrow> inv (remove p path db) \<and>
      ((\<forall>d. view db p d \<noteq> None \<longrightarrow> full_path d \<noteq> path) \<and> view (remove p path db) = view db \<or>
       (\<exists>d. full_path d = path \<and> view db p d \<noteq> None \<and>
          view (remove p path db) = (view db)(p := (view db p)(d := None))))"
    and at_most_one: "inv db \<Longrightarrow> view db p d = Some True \<Longrightarrow> view db p e = Some True \<Longrightarrow> d = e"
begin

lemma latest_is_latest:
  assumes "inv db" "latest p path db = Some db'"
  shows "\<exists>d. full_path d = path \<and> view db' p d = Some True \<and>
    (\<forall>e. view db' p e = Some True \<longrightarrow> e = d)"
  using latest_law [OF assms] by auto

lemma latest_other: "inv db \<Longrightarrow> latest p path db = Some db' \<Longrightarrow> q \<noteq> p \<Longrightarrow> view db' q = view db q"
  by (drule (1) latest_law) auto

lemma latest_dom: "inv db \<Longrightarrow> latest p path db = Some db' \<Longrightarrow>
    (view db' q e \<noteq> None) = (view db q e \<noteq> None)"
  by (drule (1) latest_law) (auto split: if_splits)

text \<open>A freshly added image can be made the latest.\<close>

lemma add_then_latest:
  assumes "inv db" "add p l d db = Some db1"
  shows "latest p (full_path d) db1 \<noteq> None"
  using add_law [OF assms] latest_None [of db1 p "full_path d" d] by auto

text \<open>Removing by path undoes the addition of the only image with that path.\<close>

lemma remove_after_add:
  assumes "inv db" "add p l d db = Some db1"
    and "\<forall>e. view db p e \<noteq> None \<longrightarrow> full_path e \<noteq> full_path d"
  shows "view (remove p (full_path d) db1) = view db"
proof -
  from add_law [OF assms(1,2)] have inv1: "inv db1" and none: "view db p d = None"
    and v: "view db1 = (view db)(p := (view db p)(d \<mapsto> l))" by auto
  have "\<exists>da. view db1 p da \<noteq> None \<and> full_path da = full_path d"
    by (rule exI [of _ d]) (simp add: v)
  with remove_law [OF inv1, of p "full_path d"] obtain e where
    "full_path e = full_path d" "view db1 p e \<noteq> None"
    "view (remove p (full_path d) db1) = (view db1)(p := (view db1 p)(e := None))"
    by blast
  with v assms(3) none show ?thesis
    by (auto simp: fun_eq_iff split: if_splits)
qed

end

lemma path_entry_view:
  "db_inv db \<Longrightarrow> path_entry path (ForallMountedApexes db p) = Some d \<Longrightarrow>
     full_path d = path \<and> mounted db p d \<noteq> None"
  by (auto simp: mounted_def map_of_eq_None_iff dest!: path_entry_SomeD intro: rev_image_eqI)

lemma path_entry_no_view:
  "path_entry path (ForallMountedApexes db p) = None \<Longrightarrow> mounted db p d \<noteq> None \<Longrightarrow>
     full_path d \<noteq> path"
  by (force simp: mounted_def path_entry_None_iff dest: map_of_SomeD)

interpretation mdb: mounted_images db_inv mounted AddMountedApex SetLatest RemoveMountedApex
proof unfold_locales
  fix db p l d db'
  assume "db_inv db" "AddMountedApex p l d db = Some db'"
  then show "db_inv db' \<and> mounted db p d = None \<and>
      mounted db' = (mounted db)(p := (mounted db p)(d \<mapsto> l))"
    using AddMountedApex_SomeD by blast
next
  fix db p path db'
  assume "db_inv db" "SetLatest p path db = Some db'"
  then show "db_inv db' \<and> (\<exists>d. full_path d = path \<and> mounted db p d \<noteq> None \<and>
      mounted db' = (mounted db)(p := \<lambda>e. map_option (\<lambda>_. e = d) (mounted db p e)))"
    by (elim SetLatest_SomeD) (use path_entry_view in blast)+
next
  fix db p path d
  assume "db_inv db" "SetLatest p path db = None" "mounted db p d \<noteq> None"
  then show "full_path d \<noteq> path" by (simp add: SetLatest_None_iff path_entry_no_view)
next
  fix db p path
  assume inv: "db_inv db"
  show "db_inv (RemoveMountedApex p path db) \<and>
      ((\<forall>d. mounted db p d \<noteq> None \<longrightarrow> full_path d \<noteq> path) \<and>
         mounted (RemoveMountedApex p path db) = mounted db \<or>
       (\<exists>d. full_path d = path \<and> mounted db p d \<noteq> None \<and>
          mounted (RemoveMountedApex p path db) = (mounted db)(p := (mounted db p)(d := None))))"
    using RemoveMountedApex_spec [OF inv, of p path] path_entry_view [OF inv, of path p]
      path_entry_no_view [of path db p]
    by (cases "path_entry path (ForallMountedApexes db p)") auto
qed (rule mounted_unique_latest)

section \<open>Sequences of operations\<close>

datatype db_op = OpAdd string bool MountedApexData | OpRemove string string
  | OpLatest string string | OpUnset string

fun db_step :: "db_op \<Rightarrow> apex_db \<Rightarrow> apex_db option" where
  "db_step (OpAdd package latest data) db = AddMountedApex package latest data db"
| "db_step (OpRemove package path) db = Some (RemoveMountedApex package path db)"
| "db_step (OpLatest package path) db = SetLatest package path db"
| "db_step (OpUnset package) db = Some (UnsetLatestForall package db)"

inductive db_reachable :: "apex_db \<Rightarrow> bool" where
  db_empty: "db_reachable []"
| db_more: "db_reachable db \<Longrightarrow> db_step op db = Some db' \<Longrightarrow> db_reachable db'"

lemma db_step_inv: "db_inv db \<Longrightarrow> db_step op db = Some db' \<Longrightarrow> db_inv db'"
proof (cases op)
  case (OpAdd p l d)
  then show "db_inv db \<Longrightarrow> db_step op db = Some db' \<Longrightarrow> db_inv db'"
    using mdb.add_law [of db p l d db'] by simp
next
  case (OpLatest p path)
  then show "db_inv db \<Longrightarrow> db_step op db = Some db' \<Longrightarrow> db_inv db'"
    using mdb.latest_law [of db p path db'] by simp
next
  case (OpRemove p path)
  then show "db_inv db \<Longrightarrow> db_step op db = Some db' \<Longrightarrow> db_inv db'"
    using RemoveMountedApex_spec(1) [of db p path] by simp
next
  case (OpUnset p)
  then show "db_inv db \<Longrightarrow> db_step op db = Some db' \<Longrightarrow> db_inv db'"
    using UnsetLatestForall_spec(1) [of db p] by simp
qed

lemma db_reachable_inv: "db_reachable db \<Longrightarrow> db_inv db"
  by (induction rule: db_reachable.induct) (simp, erule (1) db_step_inv)

section \<open>Properties\<close>

text \<open>C17. Adding an image aborts the process exactly when the image is already there, one of its
  devices is in use, or it is to be the latest of a package that has a latest image.
  Otherwise exactly this image is added, with its flag, and the invariant is kept.
\<close>

theorem AddMountedApex_correct:
  assumes inv: "db_inv db"
  shows "(AddMountedApex package latest data db = None \<longleftrightarrow>
      mounted db package data \<noteq> None \<or>
      loop_name data \<noteq> '''' \<and> loop_name data \<in> set (loop_devices db) \<or>
      device_name data \<noteq> '''' \<and> device_name data \<in> set (dm_devices db) \<or>
      latest \<and> (\<exists>e. mounted db package e = Some True)) \<and>
    (\<forall>db'. AddMountedApex package latest data db = Some db' \<longrightarrow>
      db_inv db' \<and> mounted db' = (mounted db)(package := (mounted db package)(data \<mapsto> latest)) \<and>
      mset (all_data db') = add_mset data (mset (all_data db)))"
proof -
  have "mounted db package data = None \<and>
      (loop_name data \<noteq> '''' \<longrightarrow> loop_name data \<notin> set (loop_devices db)) \<and>
      (device_name data \<noteq> '''' \<longrightarrow> device_name data \<notin> set (dm_devices db)) \<and>
      (latest \<longrightarrow> mounted db package e \<noteq> Some True)"
    if add: "AddMountedApex package latest data db = Some db'" for db' e
  proof -
    note a = AddMountedApex_SomeD [OF add inv]
    have "distinct (loop_devices db')" "distinct (dm_devices db')" using a(1) by (simp_all add: db_inv_alt)
    moreover have "mset (loop_devices db') = (if loop_name data = '''' then mset (loop_devices db)
        else add_mset (loop_name data) (mset (loop_devices db)))"
      "mset (dm_devices db') = (if device_name data = '''' then mset (dm_devices db)
        else add_mset (device_name data) (mset (dm_devices db)))"
      by (simp_all add: loop_devices_mset dm_devices_mset a(4))
    moreover have "mounted db package e \<noteq> Some True" if latest
    proof
      assume e: "mounted db package e = Some True"
      then have "e \<noteq> data" using a(2) by auto
      moreover have "mounted db' package data = Some True" "mounted db' package e = Some True"
        using a(2,3) e that by auto
      ultimately show False using mounted_unique_latest [OF a(1)] by blast
    qed
    ultimately show ?thesis using a(2) mset_distinct_new [of "loop_devices db'" "loop_name data" "loop_devices db"]
      mset_distinct_new [of "dm_devices db'" "device_name data" "dm_devices db"] by auto
  qed
  moreover have "AddMountedApex package latest data db \<noteq> None"
    if "mounted db package data = None" "loop_name data \<noteq> '''' \<longrightarrow> loop_name data \<notin> set (loop_devices db)"
      "device_name data \<noteq> '''' \<longrightarrow> device_name data \<notin> set (dm_devices db)"
      "latest \<longrightarrow> (\<forall>e. mounted db package e \<noteq> Some True)"
    using that by (intro AddMountedApex_possible [OF inv]) auto
  ultimately show ?thesis using AddMountedApex_SomeD [OF _ inv] by (metis not_None_eq)
qed

theorem AddMountedApex_correct_witness:
  "\<exists>db'. AddMountedApex ''a'' False (MountedApexData ''l1'' ''p'' ''m'' ''d'') [] = Some db' \<and>
     mounted db' ''a'' (MountedApexData ''l1'' ''p'' ''m'' ''d'') = Some False"
  using AddMountedApex_correct [OF db_inv_Nil, of "''a''" False "MountedApexData ''l1'' ''p'' ''m'' ''d''"]
  by (cases "AddMountedApex ''a'' False (MountedApexData ''l1'' ''p'' ''m'' ''d'') []")
    (auto simp: mounted_def [of "[]"] loop_devices_def dm_devices_def all_data_def [of "[]"])

text \<open>C16. Making a path the latest of its package succeeds exactly when some image of the
  package has that path; then one such image is the latest of the package, no other is,
  and nothing is mounted or unmounted.
\<close>

theorem SetLatest_correct:
  assumes "db_inv db"
  shows "case SetLatest package path db of
      None \<Rightarrow> \<forall>d. mounted db package d \<noteq> None \<longrightarrow> full_path d \<noteq> path
    | Some db' \<Rightarrow> db_inv db' \<and> (\<exists>!d. mounted db' package d = Some True) \<and>
        (\<forall>d. mounted db' package d = Some True \<longrightarrow> full_path d = path) \<and>
        (\<forall>q d. (mounted db' q d = None) = (mounted db q d = None)) \<and>
        (\<forall>q. q \<noteq> package \<longrightarrow> mounted db' q = mounted db q)"
proof (cases "SetLatest package path db")
  case None
  then show ?thesis using mdb.latest_None [OF assms None] by simp
next
  case (Some db')
  from mdb.latest_is_latest [OF assms Some] obtain d where
    "full_path d = path" "mounted db' package d = Some True"
    "\<forall>e. mounted db' package e = Some True \<longrightarrow> e = d" by blast
  moreover have "\<forall>q d. (mounted db' q d = None) = (mounted db q d = None)"
    using mdb.latest_dom [OF assms Some] by blast
  moreover have "db_inv db'" using mdb.latest_law [OF assms Some] by simp
  moreover have "\<forall>q. q \<noteq> package \<longrightarrow> mounted db' q = mounted db q"
    using mdb.latest_other [OF assms Some] by blast
  ultimately show ?thesis
    unfolding Some option.case by blast
qed

theorem SetLatest_correct_witness:
  "\<exists>db'. SetLatest ''a'' ''p'' [(''a'', [(MountedApexData ''l'' ''p'' ''m'' ''d'', False)])] = Some db' \<and>
     (\<exists>!d. mounted db' ''a'' d = Some True)"
proof -
  have "db_inv [(''a'', [(MountedApexData ''l'' ''p'' ''m'' ''d'', False)])]"
    by (simp add: db_inv_def CheckAtMostOneLatest_def CheckUniqueLoopDm_def ForallMountedApexesAll_def)
  from SetLatest_correct [OF this, of "''a''" "''p''"] show ?thesis
    by (simp add: SetLatest_def)
qed

text \<open>C18. After any sequence of operations on an empty database, a package has at most one
  latest image, and no loop device and no device-mapper device is recorded twice.
\<close>

theorem latest_after_any_operations:
  assumes "db_reachable db"
  shows "(mounted db package d = Some True \<and> mounted db package e = Some True \<longrightarrow> d = e) \<and>
    distinct (loop_devices db) \<and> distinct (dm_devices db)"
  using db_reachable_inv [OF assms] mounted_unique_latest [OF db_reachable_inv [OF assms]]
  unfolding db_inv_alt by blast

theorem latest_after_any_operations_witness:
  "\<exists>db. db_reachable db \<and> db \<noteq> [] \<and> distinct (loop_devices db)"
proof -
  have "db_step (OpAdd ''a'' True (MountedApexData ''l'' ''p'' ''m'' ''d'')) [] =
      Some [(''a'', [(MountedApexData ''l'' ''p'' ''m'' ''d'', True)])]"
    by (simp add: AddMountedApex_def ForallMountedApexes_def CheckAtMostOneLatest_def
        CheckUniqueLoopDm_def ForallMountedApexesAll_def)
  from db_more [OF db_empty this] have r:
    "db_reachable [(''a'', [(MountedApexData ''l'' ''p'' ''m'' ''d'', True)])]" .
  show ?thesis using r latest_after_any_operations [OF r] by blast
qed

end
