(* ===== verification/World.thy ===== *)
theory World
  imports Apex_Database
begin

text \<open>
  The types of the sources (\<open>Status\<close>, \<open>StatusOr\<close>, \<open>ApexManifest\<close>, \<open>ApexFile\<close>,
  \<open>SessionState\<close>), the state the daemon reads and changes, and the parameters that
  stand for code outside the repository: libziparchive, the protobuf runtime, libavb,
  libdm, the loop driver, vold, the property service and the kernel's answers.

  Every call that leaves the process is recorded in the history \<open>hist\<close>, newest first,
  and every answer from outside is a function of the history, so an environment may
  answer differently each time it is asked. The parameter \<open>fault\<close> decides, call by
  call, whether a system call fails; a theorem about all environments covers every
  pattern of failures, and a process that dies (or a device that loses power) after
  some call is an environment in which every later call fails.
\<close>

section \<open>Machine types, paths and errors\<close>

type_synonym path = string
type_synonym int32 = "32 word"
type_synonym int64 = "64 word"
type_synonym uint64 = "64 word"
type_synonym uint32 = "32 word"
type_synonym mode = "32 word"

datatype errno = ENOENT | EEXIST | ENOTDIR | EISDIR | ENOTEMPTY | EINVAL | EBUSY | EPERM
  | EROFS | EXDEV | ENXIO | EIO | Errno int

text \<open>
  \<open>Status\<close> of \<open>apexd/status.h\<close>: success, or a message. A message is kept as the tree the
  sources assemble it from: a text, the object it names, the \<open>errno\<close> a \<open>PStringLog\<close>
  appends, and the message it wraps.
\<close>

datatype error =
    Err string
  | ErrAt string path
  | PErr string path errno
  | Wrap string error
  | WrapAt string path error

type_synonym status = "error + unit"
type_synonym 'a status_or = "error + 'a"

definition Ok :: "'e + 'a \<Rightarrow> bool" where
  "Ok r = (case r of Inl _ \<Rightarrow> False | Inr _ \<Rightarrow> True)"

abbreviation Success :: status where
  "Success \<equiv> Inr ()"

lemma Ok_simps [simp]: "Ok (Inl e) = False" "Ok (Inr x) = True"
  by (simp_all add: Ok_def)

lemma Ok_iff: "Ok r \<longleftrightarrow> (\<exists>x. r = Inr x)"
  by (cases r) auto

lemma not_Ok_iff: "\<not> Ok r \<longleftrightarrow> (\<exists>e. r = Inl e)"
  by (cases r) auto

section \<open>Data of the sources\<close>

text \<open>\<open>proto/apex_manifest.proto\<close>\<close>

record ApexManifest =
  manifest_name :: string
  manifest_version :: int64
  preinstallhook :: string
  postinstallhook :: string
  versionname :: string

text \<open>\<open>proto/session_state.proto\<close>; proto3 enums are open, so any other number can occur.\<close>

datatype State = UNKNOWN | VERIFIED | STAGED | ACTIVATED | ACTIVATION_FAILED | SUCCESS
  | ROLLBACK_IN_PROGRESS | ROLLED_BACK | ROLLBACK_FAILED | OtherState int

record SessionState =
  session_id :: int32
  session_state :: State
  child_session_ids :: "int32 list"

text \<open>\<open>ApexFile\<close> of \<open>apexd/apex_file.h\<close>; the fields are named by their getters.\<close>

record ApexFile =
  GetPath :: path
  IsFlattened :: bool
  GetImageOffset :: int32
  GetImageSize :: uint64
  GetManifest :: ApexManifest
  GetBundledPublicKey :: string

text \<open>The AVB structures the sources read.\<close>

record AvbFooter =
  vbmeta_offset :: uint64
  vbmeta_size :: uint64

record AvbHashtreeDescriptor =
  dm_verity_version :: uint32
  image_size :: uint64
  tree_offset :: uint64
  data_block_size :: uint32
  hash_block_size :: uint32
  partition_name_len :: uint32
  salt_len :: uint32
  root_digest_len :: uint32
  hash_algorithm :: string

datatype AvbVBMetaVerifyResult = AVB_OK | AVB_OK_NOT_SIGNED | AVB_HASH_MISMATCH
  | AVB_SIGNATURE_MISMATCH | AVB_INVALID_VBMETA_HEADER | AVB_UNSUPPORTED_VERSION
  | AVB_OTHER

record ApexVerityData =
  verity_desc :: AvbHashtreeDescriptor
  verity_salt :: string
  verity_root_digest :: string

text \<open>A zip entry, as \<open>FindEntry\<close> and \<open>ExtractToMemory\<close> report it.\<close>

record ZipEntry =
  zip_offset :: int64
  uncompressed_length :: uint32
  extracted :: "string option"

text \<open>The arguments of \<open>DmTargetVerity\<close> and of the table around it.\<close>

record DmTable =
  dm_start :: uint64
  dm_length :: uint64
  dm_version :: uint32
  dm_block_device :: path
  dm_hash_device :: path
  dm_data_block_size :: uint32
  dm_hash_block_size :: uint32
  dm_num_data_blocks :: uint64
  dm_hash_start_block :: uint64
  dm_hash_algorithm :: string
  dm_root_digest :: string
  dm_salt :: string
  dm_ignore_zero_blocks :: bool
  dm_restart_on_corruption :: bool
  dm_readonly :: bool

datatype DmDeviceState = DM_INVALID | DM_SUSPENDED | DM_ACTIVE

section \<open>Calls that leave the process\<close>

datatype ioctl = LOOP_CTL_ADD nat | LOOP_CTL_GET_FREE | LOOP_SET_FD path
  | LOOP_SET_STATUS64 uint64 uint64 | BLKFLSBUF | LOOP_SET_BLOCK_SIZE | LOOP_SET_DIRECT_IO
  | LOOP_CLR_FD | LOOP_GET_STATUS64

datatype vold_call = VoldGetService | VoldSupportsCheckpoint | VoldNeedsCheckpoint | VoldNeedsRollback
  | VoldStartCheckpoint int32 | VoldAbortChanges string bool

datatype dm_call = DmGetState string | DmDelete string | DmCreate string DmTable
  | DmGetPath string

datatype event =
    SysStat path | SysAccess path | SysMkdir path mode | SysRmdir path | SysUnlink path
  | SysLink path path | SysRename path path | SysChmod path mode
  | SysOpenDir path | SysReadDir path | SysOpen path | SysRead path
  | SysOpenTrunc path | SysWrite path string | SysRemove path
  | SysMount path path | SysUmount path | SysIoctl path ioctl
  | SysUnshare | SysExec "string list" | SysWait | SysReboot | Restarted | Sleep
  | Dm dm_call | Vold vold_call | GetProp string | SetProp string string | WaitProp string string

text \<open>A file-system node: a regular file with its bytes, a directory, anything else.\<close>

datatype node = Reg mode string | Directory mode | Special mode

fun node_mode :: "node \<Rightarrow> mode" where
  "node_mode (Reg m _) = m"
| "node_mode (Directory m) = m"
| "node_mode (Special m) = m"

fun with_mode :: "mode \<Rightarrow> node \<Rightarrow> node" where
  "with_mode m (Reg _ c) = Reg m c"
| "with_mode m (Directory _) = Directory m"
| "with_mode m (Special _) = Special m"

fun is_dir :: "node \<Rightarrow> bool" where
  "is_dir (Directory _) = True"
| "is_dir _ = False"

text \<open>Other nodes keep the type bits of \<open>st_mode\<close>; \<open>S_IFBLK\<close> is 0060000.\<close>

fun is_block :: "node \<Rightarrow> bool" where
  "is_block (Special m) = (and m 61440 = 24576)"
| "is_block _ = False"

fun is_reg :: "node \<Rightarrow> bool" where
  "is_reg (Reg _ _) = True"
| "is_reg _ = False"

type_synonym tree = "(path \<times> node) list"

section \<open>Code outside the repository\<close>

record env =
  fault :: "event list \<Rightarrow> event \<Rightarrow> errno option"       \<comment> \<open>does this call fail now?\<close>
  umask :: mode
  clock :: "event list \<Rightarrow> nat"                       \<comment> \<open>steady clock, nanoseconds\<close>
  dev_node :: "event list \<Rightarrow> path \<Rightarrow> bool"             \<comment> \<open>nodes of \<open>/dev\<close> and \<open>/sys\<close> made by ueventd and the kernel\<close>
  inode_of :: "event list \<Rightarrow> path \<Rightarrow> nat \<times> nat"        \<comment> \<open>\<open>st_dev\<close>, \<open>st_ino\<close>\<close>
  stream_reports :: "string \<Rightarrow> bool"                  \<comment> \<open>does \<open>ofstream\<close> write these bytes before its destructor runs?\<close>
  proc_mounts :: "event list \<Rightarrow> string list"          \<comment> \<open>lines of \<open>/proc/mounts\<close>\<close>
  ext4_image :: "event list \<Rightarrow> path \<Rightarrow> tree option"    \<comment> \<open>what mounting a block device shows\<close>
  free_loop :: "event list \<Rightarrow> nat"                    \<comment> \<open>answer of \<open>LOOP_CTL_GET_FREE\<close>\<close>
  loop_crypt_name :: "event list \<Rightarrow> path \<Rightarrow> string"    \<comment> \<open>answer of \<open>LOOP_GET_STATUS64\<close>\<close>
  dm_state :: "event list \<Rightarrow> string \<Rightarrow> DmDeviceState"
  dm_deletes :: "event list \<Rightarrow> string \<Rightarrow> bool"
  dm_creates :: "event list \<Rightarrow> string \<Rightarrow> DmTable \<Rightarrow> bool"
  dm_path :: "event list \<Rightarrow> string \<Rightarrow> path option"
  exec_status :: "event list \<Rightarrow> string list \<Rightarrow> int"    \<comment> \<open>wait status of a child\<close>
  exec_effect :: "event list \<Rightarrow> string list \<Rightarrow> tree \<Rightarrow> tree"
  reads_device :: "event list \<Rightarrow> path \<Rightarrow> nat \<Rightarrow> nat \<Rightarrow> bool"  \<comment> \<open>\<open>ReadFully\<close> of a device, by offset and length\<close>
  zip_open :: "string \<Rightarrow> (string \<times> ZipEntry) list option"
  json_to_binary :: "string \<Rightarrow> string option"
  manifest_parse :: "string \<Rightarrow> ApexManifest option"
  manifest_equals :: "ApexManifest \<Rightarrow> ApexManifest \<Rightarrow> bool"
  session_serialize :: "SessionState \<Rightarrow> string"
  session_parse :: "string \<Rightarrow> SessionState option"
  avb_footer_size :: nat
  avb_footer :: "string \<Rightarrow> AvbFooter option"
  avb_verify :: "string \<Rightarrow> AvbVBMetaVerifyResult \<times> string"
  avb_property :: "string \<Rightarrow> string \<Rightarrow> string option"
  avb_descriptors :: "string \<Rightarrow> string list"
  avb_descriptor_tag :: "string \<Rightarrow> uint64 option"
  avb_hashtree :: "string \<Rightarrow> AvbHashtreeDescriptor option"
  avb_tag_hashtree :: uint64
  sizeof_hashtree :: nat
  sha512 :: "string \<Rightarrow> string"                        \<comment> \<open>the 64 bytes of the digest\<close>
  trim :: "string \<Rightarrow> string"
  parse_int :: "string \<Rightarrow> int option"                 \<comment> \<open>\<open>android::base::ParseInt<int>\<close>\<close>
  vold_bool :: "event list \<Rightarrow> vold_call \<Rightarrow> bool"
  vold_ok :: "event list \<Rightarrow> vold_call \<Rightarrow> bool"
  vold_error :: "event list \<Rightarrow> vold_call \<Rightarrow> string"    \<comment> \<open>the text of a binder status\<close>
  property :: "event list \<Rightarrow> string \<Rightarrow> string"
  wait_property :: "event list \<Rightarrow> string \<Rightarrow> string \<Rightarrow> bool"
  kUpdatable :: bool
  gForceDmVerityOnSystem :: bool
  kDebugAllowBundledKey :: bool

section \<open>The state\<close>

record world =
  fs :: tree
  mnts :: "(path \<times> tree) list"                        \<comment> \<open>mount table, latest first\<close>
  hist :: "event list"
  gMountedApexes :: apex_db
  gScannedApexKeys :: "(string \<times> string) list"
  gBootstrap :: bool
  gVoldService :: "bool option"                       \<comment> \<open>the service, with its \<open>supports_fs_checkpoints_\<close>, if set\<close>
  gSupportsFsCheckpoints :: bool
  gInFsCheckpointMode :: bool

end
