(* ===== verification/Posix.thy ===== *)
theory Posix
  imports World
begin

text \<open>
  What the sources use of the C and C++ standard libraries and of the file system
  calls: \<open>stat\<close>, \<open>access\<close>, \<open>mkdir\<close>, \<open>rmdir\<close>, \<open>unlink\<close>, \<open>link\<close>, \<open>rename\<close>,
  \<open>chmod\<close>, \<open>mount\<close>, \<open>umount2\<close>, \<open>fstream\<close> and directory iteration, over a tree of
  nodes indexed by absolute paths and a mount table whose entries shadow the tree.

  Every call is recorded in the history and may fail with any \<open>errno\<close> the
  environment's \<open>fault\<close> chooses; a failed call has no effect. Otherwise it fails where
  POSIX says it does. Directories list their entries in the order of the tree, which is
  arbitrary at the start. Two hard links to a file are two nodes with the same bytes;
  the sources never write to a file that has more than one link.
\<close>

section \<open>Looking paths up\<close>

definition under :: "path \<Rightarrow> path \<Rightarrow> bool" where
  "under d p \<longleftrightarrow> p = d \<or> prefix (d @ ''/'') p"

definition mount_over :: "world \<Rightarrow> path \<Rightarrow> (path \<times> tree) option" where
  "mount_over w p = find (\<lambda>(t, _). under t p) (mnts w)"

definition node_at :: "world \<Rightarrow> path \<Rightarrow> node option" where
  "node_at w p = (case mount_over w p of
      Some (t, img) \<Rightarrow> map_of img (drop (length t) p)
    | None \<Rightarrow> map_of (fs w) p)"

definition list_dir :: "world \<Rightarrow> path \<Rightarrow> path list" where
  "list_dir w d = (case mount_over w d of
      Some (t, img) \<Rightarrow> map (\<lambda>q. t @ q)
        (filter (\<lambda>q. q \<noteq> '''' \<and> dirname q = drop (length t) d) (remdups (map fst img)))
    | None \<Rightarrow> filter (\<lambda>q. q \<noteq> '''' \<and> dirname q = d) (remdups (map fst (fs w))))"

definition subtree :: "world \<Rightarrow> path \<Rightarrow> tree" where
  "subtree w d = (case mount_over w d of
      Some (t, img) \<Rightarrow> map (\<lambda>(q, n). (drop (length d - length t) q, n))
        (filter (\<lambda>(q, _). under (drop (length t) d) q) img)
    | None \<Rightarrow> map (\<lambda>(q, n). (drop (length d) q, n)) (filter (\<lambda>(q, _). under d q) (fs w)))"

text \<open>Is there anything below a directory?\<close>

definition occupied :: "world \<Rightarrow> path \<Rightarrow> bool" where
  "occupied w d \<longleftrightarrow> list_ex (\<lambda>(q, _). q \<noteq> d \<and> under d q) (fs w)"

text \<open>The \<open>errno\<close> of a path that does not resolve.\<close>

definition missing :: "world \<Rightarrow> path \<Rightarrow> errno" where
  "missing w p = (case node_at w (dirname p) of
      Some n \<Rightarrow> if is_dir n then ENOENT else ENOTDIR
    | None \<Rightarrow> ENOENT)"

text \<open>Can an entry be made at this path?\<close>

definition parent_ok :: "world \<Rightarrow> path \<Rightarrow> errno + unit" where
  "parent_ok w p = (case node_at w (dirname p) of
      None \<Rightarrow> Inl ENOENT
    | Some n \<Rightarrow> if \<not> is_dir n then Inl ENOTDIR
               else if mount_over w p \<noteq> None then Inl EROFS else Inr ())"

section \<open>Calls\<close>

definition query :: "env \<Rightarrow> event \<Rightarrow> (world \<Rightarrow> errno + 'a) \<Rightarrow> world \<Rightarrow> (errno + 'a) \<times> world" where
  "query E ev f w = (case fault E (hist w) ev of
      Some e \<Rightarrow> (Inl e, w\<lparr>hist := ev # hist w\<rparr>)
    | None \<Rightarrow> (f w, w\<lparr>hist := ev # hist w\<rparr>))"

definition fs_call :: "env \<Rightarrow> event \<Rightarrow> (world \<Rightarrow> errno + tree) \<Rightarrow> world \<Rightarrow> (errno + unit) \<times> world" where
  "fs_call E ev f w = (case fault E (hist w) ev of
      Some e \<Rightarrow> (Inl e, w\<lparr>hist := ev # hist w\<rparr>)
    | None \<Rightarrow> (case f w of
        Inl e \<Rightarrow> (Inl e, w\<lparr>hist := ev # hist w\<rparr>)
      | Inr t \<Rightarrow> (Inr (), w\<lparr>fs := t, hist := ev # hist w\<rparr>)))"

definition mnt_call :: "env \<Rightarrow> event \<Rightarrow> (world \<Rightarrow> errno + (path \<times> tree) list) \<Rightarrow> world \<Rightarrow>
    (errno + unit) \<times> world" where
  "mnt_call E ev f w = (case fault E (hist w) ev of
      Some e \<Rightarrow> (Inl e, w\<lparr>hist := ev # hist w\<rparr>)
    | None \<Rightarrow> (case f w of
        Inl e \<Rightarrow> (Inl e, w\<lparr>hist := ev # hist w\<rparr>)
      | Inr m \<Rightarrow> (Inr (), w\<lparr>mnts := m, hist := ev # hist w\<rparr>)))"

definition stat_eff :: "env \<Rightarrow> path \<Rightarrow> world \<Rightarrow> errno + node" where
  "stat_eff E p w = (case node_at w p of
      Some n \<Rightarrow> Inr n
    | None \<Rightarrow> if dev_node E (hist w) p then Inr (Special 24960) else Inl (missing w p))"

definition sys_stat :: "env \<Rightarrow> path \<Rightarrow> world \<Rightarrow> (errno + node) \<times> world" where
  "sys_stat E p = query E (SysStat p) (stat_eff E p)"

definition sys_access :: "env \<Rightarrow> path \<Rightarrow> world \<Rightarrow> (errno + node) \<times> world" where
  "sys_access E p = query E (SysAccess p) (stat_eff E p)"

definition mkdir_eff :: "env \<Rightarrow> path \<Rightarrow> mode \<Rightarrow> world \<Rightarrow> errno + tree" where
  "mkdir_eff E p m w =
     (if node_at w p \<noteq> None then Inl EEXIST
      else case parent_ok w p of Inl e \<Rightarrow> Inl e
      | Inr _ \<Rightarrow> Inr (AList.update p (Directory (and m (not (umask E)))) (fs w)))"

definition sys_mkdir :: "env \<Rightarrow> path \<Rightarrow> mode \<Rightarrow> world \<Rightarrow> (errno + unit) \<times> world" where
  "sys_mkdir E p m = fs_call E (SysMkdir p m) (mkdir_eff E p m)"

definition rmdir_eff :: "path \<Rightarrow> world \<Rightarrow> errno + tree" where
  "rmdir_eff p w = (case node_at w p of None \<Rightarrow> Inl (missing w p)
    | Some n \<Rightarrow>
        if \<not> is_dir n then Inl ENOTDIR
        else if p \<in> fst ` set (mnts w) then Inl EBUSY
        else if mount_over w p \<noteq> None then Inl EROFS
        else if occupied w p then Inl ENOTEMPTY
        else Inr (AList.delete p (fs w)))"

definition sys_rmdir :: "env \<Rightarrow> path \<Rightarrow> world \<Rightarrow> (errno + unit) \<times> world" where
  "sys_rmdir E p = fs_call E (SysRmdir p) (rmdir_eff p)"

definition unlink_eff :: "path \<Rightarrow> world \<Rightarrow> errno + tree" where
  "unlink_eff p w = (case node_at w p of None \<Rightarrow> Inl (missing w p)
    | Some n \<Rightarrow>
        if is_dir n then Inl EISDIR
        else if mount_over w p \<noteq> None then Inl EROFS
        else Inr (AList.delete p (fs w)))"

definition sys_unlink :: "env \<Rightarrow> path \<Rightarrow> world \<Rightarrow> (errno + unit) \<times> world" where
  "sys_unlink E p = fs_call E (SysUnlink p) (unlink_eff p)"

definition link_eff :: "path \<Rightarrow> path \<Rightarrow> world \<Rightarrow> errno + tree" where
  "link_eff a b w = (case node_at w a of None \<Rightarrow> Inl (missing w a)
    | Some n \<Rightarrow>
        if is_dir n then Inl EPERM
        else if node_at w b \<noteq> None then Inl EEXIST
        else if mount_over w a \<noteq> None then Inl EXDEV
        else case parent_ok w b of Inl e \<Rightarrow> Inl e | Inr _ \<Rightarrow> Inr (AList.update b n (fs w)))"

definition sys_link :: "env \<Rightarrow> path \<Rightarrow> path \<Rightarrow> world \<Rightarrow> (errno + unit) \<times> world" where
  "sys_link E a b = fs_call E (SysLink a b) (link_eff a b)"

definition move_tree :: "path \<Rightarrow> path \<Rightarrow> tree \<Rightarrow> tree" where
  "move_tree a b t = map (\<lambda>(q, n). (if under a q then b @ drop (length a) q else q, n)) t"

definition rename_eff :: "path \<Rightarrow> path \<Rightarrow> world \<Rightarrow> errno + tree" where
  "rename_eff a b w = (case node_at w a of None \<Rightarrow> Inl (missing w a)
    | Some n \<Rightarrow>
        if mount_over w a \<noteq> None \<or> mount_over w b \<noteq> None then Inl EXDEV
        else case parent_ok w b of Inl e \<Rightarrow> Inl e
        | Inr _ \<Rightarrow>
            if a = b then Inr (fs w)
            else if is_dir n \<and> under a b then Inl EINVAL
            else case node_at w b of
                None \<Rightarrow> Inr (move_tree a b (fs w))
              | Some n' \<Rightarrow>
                  if is_dir n \<and> \<not> is_dir n' then Inl ENOTDIR
                  else if \<not> is_dir n \<and> is_dir n' then Inl EISDIR
                  else if is_dir n' \<and> occupied w b then Inl ENOTEMPTY
                  else Inr (move_tree a b (AList.delete b (fs w))))"

definition sys_rename :: "env \<Rightarrow> path \<Rightarrow> path \<Rightarrow> world \<Rightarrow> (errno + unit) \<times> world" where
  "sys_rename E a b = fs_call E (SysRename a b) (rename_eff a b)"

definition chmod_eff :: "path \<Rightarrow> mode \<Rightarrow> world \<Rightarrow> errno + tree" where
  "chmod_eff p m w = (case node_at w p of None \<Rightarrow> Inl (missing w p)
    | Some n \<Rightarrow> if mount_over w p \<noteq> None then Inl EROFS
               else Inr (AList.update p (with_mode m n) (fs w)))"

definition sys_chmod :: "env \<Rightarrow> path \<Rightarrow> mode \<Rightarrow> world \<Rightarrow> (errno + unit) \<times> world" where
  "sys_chmod E p m = fs_call E (SysChmod p m) (chmod_eff p m)"

text \<open>Reading a file: \<open>open\<close> resolves the path, reading needs a regular file.\<close>

definition sys_open :: "env \<Rightarrow> path \<Rightarrow> world \<Rightarrow> (errno + node) \<times> world" where
  "sys_open E p = query E (SysOpen p) (stat_eff E p)"

definition read_eff :: "path \<Rightarrow> world \<Rightarrow> errno + string" where
  "read_eff p w = (case node_at w p of
      Some (Reg _ c) \<Rightarrow> Inr c
    | Some (Directory _) \<Rightarrow> Inl EISDIR
    | _ \<Rightarrow> Inl EIO)"

definition sys_read :: "env \<Rightarrow> path \<Rightarrow> world \<Rightarrow> (errno + string) \<times> world" where
  "sys_read E p = query E (SysRead p) (read_eff p)"

text \<open>\<open>android::base::ReadFileToString\<close>\<close>

definition ReadFileToString :: "env \<Rightarrow> path \<Rightarrow> world \<Rightarrow> (errno + string) \<times> world" where
  "ReadFileToString E p w =
     (let (fd, w1) = sys_open E p w
      in case fd of Inl e \<Rightarrow> (Inl e, w1) | Inr _ \<Rightarrow> sys_read E p w1)"

text \<open>
  Writing through an \<open>ofstream\<close> opened with \<open>trunc\<close>: opening creates or empties the
  file, and the bytes reach it afterwards. A failure of that second step is seen by the
  caller only if the stream hands its buffer over before its destructor runs, whose
  errors nobody can see.
\<close>

definition open_trunc_eff :: "env \<Rightarrow> path \<Rightarrow> world \<Rightarrow> errno + tree" where
  "open_trunc_eff E p w = (case node_at w p of
      Some (Reg m _) \<Rightarrow>
        if mount_over w p \<noteq> None then Inl EROFS else Inr (AList.update p (Reg m '''') (fs w))
    | Some _ \<Rightarrow> Inl EISDIR
    | None \<Rightarrow> (case parent_ok w p of Inl e \<Rightarrow> Inl e
        | Inr _ \<Rightarrow> Inr (AList.update p (Reg (and 438 (not (umask E))) '''') (fs w))))"

definition write_eff :: "path \<Rightarrow> string \<Rightarrow> world \<Rightarrow> errno + tree" where
  "write_eff p c w = (case node_at w p of
      Some (Reg m _) \<Rightarrow> Inr (AList.update p (Reg m c) (fs w))
    | _ \<Rightarrow> Inl EIO)"

definition write_stream :: "env \<Rightarrow> path \<Rightarrow> string \<Rightarrow> world \<Rightarrow> bool \<times> world" where
  "write_stream E p c w =
     (let (fd, w1) = fs_call E (SysOpenTrunc p) (open_trunc_eff E p) w
      in if \<not> Ok fd then (False, w1)
         else let (r, w2) = fs_call E (SysWrite p c) (write_eff p c) w1
              in (Ok r \<or> \<not> stream_reports E c, w2))"

text \<open>
  \<open>std::filesystem::remove_all\<close>: the entries below a path, then the path, one removal
  at a time; a longer path is never above a shorter one. The first error stops it.
\<close>

definition remove_eff :: "path \<Rightarrow> world \<Rightarrow> errno + tree" where
  "remove_eff p w = (case node_at w p of None \<Rightarrow> Inl (missing w p)
    | Some n \<Rightarrow> if mount_over w p \<noteq> None then Inl EROFS
               else if is_dir n \<and> occupied w p then Inl ENOTEMPTY
               else Inr (AList.delete p (fs w)))"

fun remove_each :: "env \<Rightarrow> path list \<Rightarrow> world \<Rightarrow> (errno + unit) \<times> world" where
  "remove_each E [] w = (Inr (), w)"
| "remove_each E (p # ps) w =
     (let (r, w1) = fs_call E (SysRemove p) (remove_eff p) w
      in if Ok r then remove_each E ps w1 else (r, w1))"

definition remove_all :: "env \<Rightarrow> path \<Rightarrow> world \<Rightarrow> (errno + unit) \<times> world" where
  "remove_all E p w =
     remove_each E (rev (sort_key length (filter (under p) (remdups (map fst (fs w)))))) w"

text \<open>
  \<open>mount\<close> of a block device shows the file system found on it; a bind mount shows the
  subtree of its source. \<open>umount2\<close> with \<open>MNT_DETACH\<close> takes the latest mount away.
\<close>

definition mount_dev_eff :: "env \<Rightarrow> path \<Rightarrow> path \<Rightarrow> world \<Rightarrow> errno + (path \<times> tree) list" where
  "mount_dev_eff E dev target w = (case node_at w target of
      None \<Rightarrow> Inl (missing w target)
    | Some n \<Rightarrow>
        if \<not> is_dir n then Inl ENOTDIR
        else case ext4_image E (hist w) dev of None \<Rightarrow> Inl EINVAL
             | Some img \<Rightarrow> Inr ((target, img) # mnts w))"

definition sys_mount_dev :: "env \<Rightarrow> path \<Rightarrow> path \<Rightarrow> world \<Rightarrow> (errno + unit) \<times> world" where
  "sys_mount_dev E dev target = mnt_call E (SysMount dev target) (mount_dev_eff E dev target)"

definition mount_bind_eff :: "path \<Rightarrow> path \<Rightarrow> world \<Rightarrow> errno + (path \<times> tree) list" where
  "mount_bind_eff src target w = (case node_at w src of
      None \<Rightarrow> Inl (missing w src)
    | Some n \<Rightarrow> (case node_at w target of
        None \<Rightarrow> Inl (missing w target)
      | Some n' \<Rightarrow>
          if is_dir n \<noteq> is_dir n' then Inl ENOTDIR
          else Inr ((target, subtree w src) # mnts w)))"

definition sys_mount_bind :: "env \<Rightarrow> path \<Rightarrow> path \<Rightarrow> world \<Rightarrow> (errno + unit) \<times> world" where
  "sys_mount_bind E src target = mnt_call E (SysMount src target) (mount_bind_eff src target)"

fun umount_latest :: "path \<Rightarrow> (path \<times> tree) list \<Rightarrow> (path \<times> tree) list" where
  "umount_latest t [] = []"
| "umount_latest t ((t', img) # m) = (if t' = t then m else (t', img) # umount_latest t m)"

definition umount_eff :: "path \<Rightarrow> world \<Rightarrow> errno + (path \<times> tree) list" where
  "umount_eff target w =
     (if target \<in> fst ` set (mnts w) then Inr (umount_latest target (mnts w))
      else case node_at w target of None \<Rightarrow> Inl (missing w target) | Some _ \<Rightarrow> Inl EINVAL)"

definition sys_umount :: "env \<Rightarrow> path \<Rightarrow> world \<Rightarrow> (errno + unit) \<times> world" where
  "sys_umount E target = mnt_call E (SysUmount target) (umount_eff target)"

section \<open>Paths below a directory\<close>

lemma under_prefix: "under d p \<longleftrightarrow> prefix (d @ ''/'') (p @ ''/'')"
  by (auto simp: under_def prefix_snoc)

lemma under_refl [simp]: "under d d"
  by (simp add: under_def)

lemma under_trans [trans]: "under a b \<Longrightarrow> under b c \<Longrightarrow> under a c"
  unfolding under_prefix by (rule prefix_order.trans)

lemma under_comparable: "under a p \<Longrightarrow> under b p \<Longrightarrow> under a b \<or> under b a"
  unfolding under_prefix by (rule prefix_same_cases) auto

lemma dirname_basename: "CHR ''/'' \<in> set p \<Longrightarrow> p = dirname p @ CHR ''/'' # basename p"
proof -
  assume "CHR ''/'' \<in> set p"
  then have "dropWhile (\<lambda>c. c \<noteq> CHR ''/'') (rev p) =
      CHR ''/'' # drop 1 (dropWhile (\<lambda>c. c \<noteq> CHR ''/'') (rev p))"
    by (induction p rule: rev_induct) auto
  then have "rev p = takeWhile (\<lambda>c. c \<noteq> CHR ''/'') (rev p) @
      CHR ''/'' # drop 1 (dropWhile (\<lambda>c. c \<noteq> CHR ''/'') (rev p))"
    by (metis takeWhile_dropWhile_id)
  then have "p = rev (takeWhile (\<lambda>c. c \<noteq> CHR ''/'') (rev p) @
      CHR ''/'' # drop 1 (dropWhile (\<lambda>c. c \<noteq> CHR ''/'') (rev p)))"
    by (metis rev_rev_ident)
  then show ?thesis by (simp add: dirname_def basename_def)
qed

lemma dirname_no_slash: "CHR ''/'' \<notin> set p \<Longrightarrow> dirname p = ''''"
proof -
  assume "CHR ''/'' \<notin> set p"
  then have "dropWhile (\<lambda>c. c \<noteq> CHR ''/'') (rev p) = []"
    by (subst dropWhile_eq_Nil_conv) auto
  then show ?thesis by (simp only: dirname_def drop_Nil rev.simps)
qed

lemma under_dirname: "d \<noteq> '''' \<Longrightarrow> dirname p = d \<Longrightarrow> under d p"
  by (metis dirname_basename dirname_no_slash append.assoc append_Cons append_Nil prefixI under_def)

lemma dirname_shorter: "d \<noteq> '''' \<Longrightarrow> dirname p = d \<Longrightarrow> length d < length p"
  by (metis dirname_basename dirname_no_slash length_append less_add_Suc1 list.size(4)
      add_Suc_right)

lemma dirname_neq [simp]: "d \<noteq> '''' \<Longrightarrow> dirname d \<noteq> d"
  using dirname_shorter by fastforce

section \<open>What calls change\<close>

text \<open>
  \<open>only_fs R w w'\<close>: between the two states nothing changed but the history and the nodes
  at paths in \<open>R\<close>.
\<close>

definition only_fs :: "(path \<Rightarrow> bool) \<Rightarrow> world \<Rightarrow> world \<Rightarrow> bool" where
  "only_fs R w w' \<longleftrightarrow>
     (\<forall>p. \<not> R p \<longrightarrow> map_of (fs w') p = map_of (fs w) p) \<and> w'\<lparr>fs := fs w, hist := hist w\<rparr> = w"

lemma only_fs_refl [frame]: "only_fs R w w"
  by (simp add: only_fs_def)

lemma only_fs_state: "only_fs R w w' \<Longrightarrow>
    mnts w' = mnts w \<and> gMountedApexes w' = gMountedApexes w \<and>
    gScannedApexKeys w' = gScannedApexKeys w \<and> gBootstrap w' = gBootstrap w \<and>
    gVoldService w' = gVoldService w \<and> gSupportsFsCheckpoints w' = gSupportsFsCheckpoints w \<and>
    gInFsCheckpointMode w' = gInFsCheckpointMode w"
  by (cases w; cases w') (auto simp: only_fs_def)

lemma only_fsI:
  assumes "\<And>p. \<not> R p \<Longrightarrow> map_of (fs w') p = map_of (fs w) p"
    "mnts w' = mnts w" "gMountedApexes w' = gMountedApexes w"
    "gScannedApexKeys w' = gScannedApexKeys w" "gBootstrap w' = gBootstrap w"
    "gVoldService w' = gVoldService w" "gSupportsFsCheckpoints w' = gSupportsFsCheckpoints w"
    "gInFsCheckpointMode w' = gInFsCheckpointMode w"
  shows "only_fs R w w'"
  using assms by (cases w; cases w') (auto simp: only_fs_def)

lemma only_fs_trans [trans]:
  assumes "only_fs R w1 w2" and "only_fs S w2 w3"
  shows "only_fs (\<lambda>p. R p \<or> S p) w1 w3"
proof (rule only_fsI)
  show "map_of (fs w3) p = map_of (fs w1) p" if "\<not> (R p \<or> S p)" for p
    using assms that by (simp add: only_fs_def)
qed (use only_fs_state [OF assms(1)] only_fs_state [OF assms(2)] in simp_all)

lemma only_fs_mono: "only_fs R w w' \<Longrightarrow> (\<And>p. R p \<Longrightarrow> S p) \<Longrightarrow> only_fs S w w'"
  by (auto simp: only_fs_def)

lemma only_fs_chain:
  "only_fs R w1 w2 \<Longrightarrow> only_fs R w2 w3 \<Longrightarrow> only_fs R w1 w3"
  by (drule (1) only_fs_trans) (erule only_fs_mono, blast)

lemma only_fs_lookup: "only_fs R w w' \<Longrightarrow> \<not> R p \<Longrightarrow> map_of (fs w') p = map_of (fs w) p"
  by (simp add: only_fs_def)

lemma only_fs_hist [simp]: "only_fs R w (w\<lparr>hist := h\<rparr>)"
  by (rule only_fsI) auto

lemma mount_over_cong: "mnts w' = mnts w \<Longrightarrow> mount_over w' = mount_over w"
  by (simp add: mount_over_def fun_eq_iff)

lemma mount_over_hist [simp]: "mount_over (w\<lparr>hist := h\<rparr>) = mount_over w"
  "mount_over (w\<lparr>fs := t\<rparr>) = mount_over w"
  by (rule mount_over_cong, simp)+

lemma node_at_host: "mount_over w p = None \<Longrightarrow> node_at w p = map_of (fs w) p"
  by (simp add: node_at_def)

lemma list_dir_host: "mount_over w d = None \<Longrightarrow>
    list_dir w d = filter (\<lambda>q. q \<noteq> '''' \<and> dirname q = d) (remdups (map fst (fs w)))"
  by (simp add: list_dir_def)

lemma node_at_hist [simp]: "node_at (w\<lparr>hist := h\<rparr>) = node_at w"
  by (simp add: node_at_def fun_eq_iff cong: option.case_cong)

lemma list_dir_hist [simp]: "list_dir (w\<lparr>hist := h\<rparr>) = list_dir w"
  by (simp add: list_dir_def fun_eq_iff cong: option.case_cong)

lemma missing_hist [simp]: "missing (w\<lparr>hist := h\<rparr>) = missing w"
  by (simp add: missing_def fun_eq_iff)

lemma parent_ok_hist [simp]: "parent_ok (w\<lparr>hist := h\<rparr>) = parent_ok w"
  by (auto simp: parent_ok_def fun_eq_iff split: option.splits)

text \<open>The worlds a call can end in.\<close>

lemma snd_query [simp]: "snd (query E ev f w) = w\<lparr>hist := ev # hist w\<rparr>"
  by (simp add: query_def split: option.splits)

lemma query_frame [frame]: "only_fs R w (snd (query E ev f w))"
  by simp

lemma query_eq: "query E ev f w = (r, w') \<longleftrightarrow>
    w' = w\<lparr>hist := ev # hist w\<rparr> \<and> r = (case fault E (hist w) ev of Some e \<Rightarrow> Inl e | None \<Rightarrow> f w)"
  by (auto simp: query_def split: option.splits)

lemma fs_call_eq: "fs_call E ev f w = (r, w') \<longleftrightarrow>
    (case (case fault E (hist w) ev of Some e \<Rightarrow> Inl e | None \<Rightarrow> f w) of
       Inl e \<Rightarrow> r = Inl e \<and> w' = w\<lparr>hist := ev # hist w\<rparr>
     | Inr t \<Rightarrow> r = Inr () \<and> w' = w\<lparr>fs := t, hist := ev # hist w\<rparr>)"
  by (auto simp: fs_call_def split: option.splits sum.splits)

lemma fs_call_frame:
  assumes "\<And>t p. f w = Inr t \<Longrightarrow> \<not> R p \<Longrightarrow> map_of t p = map_of (fs w) p"
  shows "only_fs R w (snd (fs_call E ev f w))"
  by (rule only_fsI) (auto simp: fs_call_def assms split: option.splits sum.splits)

lemma sys_stat_frame [frame]: "only_fs R w (snd (sys_stat E p w))"
  by (simp add: sys_stat_def)

lemma sys_access_frame [frame]: "only_fs R w (snd (sys_access E p w))"
  by (simp add: sys_access_def)

lemma ReadFileToString_frame [frame]: "only_fs R w (snd (ReadFileToString E p w))"
  by (auto simp: ReadFileToString_def sys_open_def sys_read_def query_eq Let_def
      split: prod.splits sum.splits)

lemma sys_mkdir_frame [frame]: "only_fs (\<lambda>q. q = p) w (snd (sys_mkdir E p m w))"
  unfolding sys_mkdir_def
  by (rule fs_call_frame) (auto simp: mkdir_eff_def update_conv' split: if_splits sum.splits)

lemma sys_rmdir_frame [frame]: "only_fs (\<lambda>q. q = p) w (snd (sys_rmdir E p w))"
  unfolding sys_rmdir_def
  by (rule fs_call_frame) (auto simp: rmdir_eff_def AList.delete_conv split: if_splits option.splits)

lemma sys_unlink_frame [frame]: "only_fs (\<lambda>q. q = p) w (snd (sys_unlink E p w))"
  unfolding sys_unlink_def
  by (rule fs_call_frame) (auto simp: unlink_eff_def AList.delete_conv split: if_splits option.splits)

lemma sys_link_frame [frame]: "only_fs (\<lambda>q. q = b) w (snd (sys_link E a b w))"
  unfolding sys_link_def
  by (rule fs_call_frame)
    (auto simp: link_eff_def update_conv' split: if_splits option.splits sum.splits)

lemma sys_chmod_frame [frame]: "only_fs (\<lambda>q. q = p) w (snd (sys_chmod E p m w))"
  unfolding sys_chmod_def
  by (rule fs_call_frame) (auto simp: chmod_eff_def update_conv' split: if_splits option.splits)

lemma write_stream_frame [frame]: "only_fs (\<lambda>q. q = p) w (snd (write_stream E p c w))"
proof -
  have "only_fs (\<lambda>q. q = p) w (snd (fs_call E (SysOpenTrunc p) (open_trunc_eff E p) w))" for w
    by (rule fs_call_frame)
      (auto simp: open_trunc_eff_def update_conv' split: if_splits option.splits sum.splits node.splits)
  moreover have "only_fs (\<lambda>q. q = p) w (snd (fs_call E (SysWrite p c) (write_eff p c) w))" for w
    by (rule fs_call_frame)
      (auto simp: write_eff_def update_conv' split: option.splits node.splits)
  ultimately show ?thesis
    by (auto simp: write_stream_def Let_def split: prod.splits intro: only_fs_chain)
      (metis only_fs_chain snd_conv)+
qed

text \<open>Successful calls at paths no mount covers.\<close>

lemma sys_unlink_ok:
  assumes "mount_over w p = None"
  shows "fst (sys_unlink E p w) = Inr () \<longleftrightarrow>
    fault E (hist w) (SysUnlink p) = None \<and> (\<exists>n. map_of (fs w) p = Some n \<and> \<not> is_dir n)"
    and "sys_unlink E p w = (Inr (), w') \<Longrightarrow>
      w' = w\<lparr>fs := AList.delete p (fs w), hist := SysUnlink p # hist w\<rparr>"
    and "sys_unlink E p w = (Inl e, w') \<Longrightarrow> w' = w\<lparr>hist := SysUnlink p # hist w\<rparr>"
  using assms
  by (auto simp: sys_unlink_def fs_call_def unlink_eff_def node_at_host
      split: option.splits sum.splits if_splits)

section \<open>Renaming a directory\<close>

lemma under_tail: "under a k \<Longrightarrow> drop (length a) k = '''' \<or> (\<exists>r. drop (length a) k = CHR ''/'' # r)"
  by (auto simp: under_def prefix_def)

lemma under_append: "under a k \<Longrightarrow> a @ drop (length a) k = k"
  by (auto simp: under_def prefix_def)

lemma under_swap: "under a k \<Longrightarrow> under b (b @ drop (length a) k)"
  by (drule under_tail) (auto simp: under_def)

lemma under_swap_eq:
  assumes "under a k"
  shows "b @ drop (length a) k = q \<longleftrightarrow> under b q \<and> a @ drop (length b) q = k"
proof
  assume "b @ drop (length a) k = q"
  with assms show "under b q \<and> a @ drop (length b) q = k"
    using under_swap [of a k b] under_append [of a k] by auto
next
  assume "under b q \<and> a @ drop (length b) q = k"
  with under_append [of b q] show "b @ drop (length a) k = q" by auto
qed

lemma map_of_move_tree:
  assumes "\<forall>k \<in> fst ` set t. \<not> under b k" and "\<not> under a b"
  shows "map_of (move_tree a b t) q =
    (if under b q then map_of t (a @ drop (length b) q)
     else if under a q then None else map_of t q)"
  using assms(1)
proof (induction t)
  case (Cons x t)
  obtain k n where x: "x = (k, n)" by (cases x)
  with Cons.prems have nb: "\<not> under b k" by auto
  have "under a (a @ drop (length b) q)" if "under b q"
    using that by (rule under_swap)
  with Cons x nb under_swap_eq [of a k b q] show ?case
    by (cases "under a k") (auto simp: move_tree_def)
qed (simp add: move_tree_def)

lemma sys_rename_dir:
  assumes ok: "sys_rename E a b w = (Inr (), w')"
    and host: "mount_over w a = None" "mount_over w b = None"
    and dir: "map_of (fs w) a = Some (Directory m)" and ne: "a \<noteq> b"
    and tgt: "map_of (fs w) b \<noteq> None"
  shows "w' = w\<lparr>fs := move_tree a b (AList.delete b (fs w)), hist := SysRename a b # hist w\<rparr>"
    and "map_of (fs w') q = (if under b q then map_of (fs w) (a @ drop (length b) q)
      else if under a q then None else map_of (fs w) q)"
proof -
  from ok host dir ne tgt have nab: "\<not> under a b" and empty: "\<not> occupied w b"
    and w': "w' = w\<lparr>fs := move_tree a b (AList.delete b (fs w)), hist := SysRename a b # hist w\<rparr>"
    by (auto simp: sys_rename_def fs_call_eq rename_eff_def node_at_host split: option.splits
        sum.splits if_splits)
  show "w' = w\<lparr>fs := move_tree a b (AList.delete b (fs w)), hist := SysRename a b # hist w\<rparr>"
    by (rule w')
  have keys: "\<forall>k \<in> fst ` set (AList.delete b (fs w)). \<not> under b k"
    using empty by (auto simp: occupied_def list_ex_iff AList.delete_eq)
  have "under a (a @ drop (length b) q)" if "under b q" for q
    using that by (rule under_swap)
  then have "a @ drop (length b) q \<noteq> b" if "under b q" for q
    using nab that by metis
  then show "map_of (fs w') q = (if under b q then map_of (fs w) (a @ drop (length b) q)
      else if under a q then None else map_of (fs w) q)"
    using map_of_move_tree [OF keys nab, of q] by (auto simp: w' AList.delete_conv)
qed

lemma sys_rename_fail: "sys_rename E a b w = (Inl e, w') \<Longrightarrow> w' = w\<lparr>hist := SysRename a b # hist w\<rparr>"
  by (auto simp: sys_rename_def fs_call_eq split: option.splits sum.splits)

section \<open>Where mounts are\<close>

text \<open>No mount shadows a directory or anything below it.\<close>

definition clear :: "world \<Rightarrow> path \<Rightarrow> bool" where
  "clear w d \<longleftrightarrow> (\<forall>(t, _) \<in> set (mnts w). \<not> under t d \<and> \<not> under d t)"

lemma clear_mount_over: "clear w d \<Longrightarrow> under d p \<Longrightarrow> mount_over w p = None"
  by (auto simp: clear_def mount_over_def find_None_iff dest: under_comparable)

lemma clear_cong: "mnts w' = mnts w \<Longrightarrow> clear w' d = clear w d"
  by (simp add: clear_def)

lemma clear_only_fs: "only_fs R w w' \<Longrightarrow> clear w' d = clear w d"
  by (rule clear_cong) (simp add: only_fs_state)

lemma clear_hist [simp]: "clear (w\<lparr>hist := h\<rparr>) d = clear w d" "clear (w\<lparr>fs := t\<rparr>) d = clear w d"
  by (rule clear_cong, simp)+

lemma clear_under: "clear w d \<Longrightarrow> under d p \<Longrightarrow> clear w p"
  by (auto simp: clear_def dest: under_comparable under_trans)

end
