(* ===== verification/Sample_Env.thy ===== *)
theory Sample_Env
  imports World
begin

text \<open>
  One closed environment, the starting point of the witnesses: no call fails, libraries
  accept small made-up formats, and the device supports updatable packages. A witness
  overrides the fields its theorem speaks about.
\<close>

definition sample_manifest :: "string \<Rightarrow> ApexManifest option" where
  "sample_manifest s = (case Split s CHR '';'' of
      [n, v, pre, post] \<Rightarrow> Some \<lparr>manifest_name = n,
        manifest_version = of_nat (decimal_value v), preinstallhook = pre,
        postinstallhook = post, versionname = v\<rparr>
    | _ \<Rightarrow> None)"

text \<open>An archive \<open>manifest|pubkey\<close>: the image is the whole file.\<close>

definition sample_zip :: "string \<Rightarrow> (string \<times> ZipEntry) list option" where
  "sample_zip s = (case Split s CHR ''|'' of
      [m, k] \<Rightarrow> Some
        [(''apex_payload.img'', \<lparr>zip_offset = 0, uncompressed_length = 8, extracted = None\<rparr>),
         (''apex_manifest.json'', \<lparr>zip_offset = 0, uncompressed_length = 8, extracted = Some m\<rparr>),
         (''apex_pubkey'', \<lparr>zip_offset = 0, uncompressed_length = 8, extracted = Some k\<rparr>)]
    | _ \<Rightarrow> None)"

text \<open>
  A codec for session states: the numbers of the message in decimal, each followed by a
  comma. No bytes stand for a message with no field set, as in protobuf.
\<close>

fun state_code :: "State \<Rightarrow> int \<times> int" where
  "state_code UNKNOWN = (0, 0)"
| "state_code VERIFIED = (1, 0)"
| "state_code STAGED = (2, 0)"
| "state_code ACTIVATED = (3, 0)"
| "state_code ACTIVATION_FAILED = (4, 0)"
| "state_code SUCCESS = (5, 0)"
| "state_code ROLLBACK_IN_PROGRESS = (6, 0)"
| "state_code ROLLED_BACK = (7, 0)"
| "state_code ROLLBACK_FAILED = (8, 0)"
| "state_code (OtherState i) = (9, i)"

definition state_decode :: "int \<Rightarrow> int \<Rightarrow> State" where
  "state_decode k i =
     (if k = 0 then UNKNOWN else if k = 1 then VERIFIED else if k = 2 then STAGED
      else if k = 3 then ACTIVATED else if k = 4 then ACTIVATION_FAILED else if k = 5 then SUCCESS
      else if k = 6 then ROLLBACK_IN_PROGRESS else if k = 7 then ROLLED_BACK
      else if k = 8 then ROLLBACK_FAILED else OtherState i)"

definition sample_parse_int :: "string \<Rightarrow> int" where
  "sample_parse_int s = (if prefix ''-'' s then - int (decimal_value (tl s)) else int (decimal_value s))"

definition sample_serialize :: "SessionState \<Rightarrow> string" where
  "sample_serialize s = concat (map (\<lambda>i. to_string i @ '','')
     ([sint (session_id s), fst (state_code (session_state s)), snd (state_code (session_state s))]
      @ map sint (child_session_ids s)))"

definition sample_parse :: "string \<Rightarrow> SessionState option" where
  "sample_parse s = (case map sample_parse_int (butlast (Split s CHR '','')) of
      i # k # j # cs \<Rightarrow> Some \<lparr>session_id = word_of_int i, session_state = state_decode k j,
        child_session_ids = map word_of_int cs\<rparr>
    | [] \<Rightarrow> Some \<lparr>session_id = 0, session_state = UNKNOWN, child_session_ids = []\<rparr>
    | _ \<Rightarrow> None)"

lemma sample_parse_int [simp]: "sample_parse_int (to_string i) = i"
proof (cases "i < 0")
  case False
  then show ?thesis
    using nat_to_string_no_minus [of "nat i"]
    by (auto simp: sample_parse_int_def to_string_def prefix_def)
qed (simp add: sample_parse_int_def to_string_def)

lemma to_string_no_comma [simp]: "CHR '','' \<notin> set (to_string i)"
  by (auto dest: to_string_chars)

lemma Split_numbers: "Split (concat (map (\<lambda>i. to_string i @ '','') is)) CHR '','' = map to_string is @ ['''']"
  by (induction "is") (auto simp: Split_append)

lemma sample_codec [simp]: "sample_parse (sample_serialize s) = Some s"
proof -
  have "state_decode (fst (state_code x)) (snd (state_code x)) = x" for x
    by (cases x) (simp_all add: state_decode_def)
  moreover have "map (sample_parse_int \<circ> to_string) is = is" for "is" :: "int list"
    by (induction "is") simp_all
  ultimately show ?thesis
    unfolding sample_parse_def sample_serialize_def Split_numbers
    by (cases s) (simp add: comp_def)
qed

definition sample_env :: env where
  "sample_env = \<lparr>
     fault = (\<lambda>_ _. None), umask = 0, clock = (\<lambda>h. length h), dev_node = (\<lambda>_ _. False),
     inode_of = (\<lambda>_ p. (0, length p)), stream_reports = (\<lambda>_. True), proc_mounts = (\<lambda>_. []),
     ext4_image = (\<lambda>_ _. None), free_loop = (\<lambda>_. 0), loop_crypt_name = (\<lambda>_ _. ''apex:''),
     dm_state = (\<lambda>_ _. DM_INVALID), dm_deletes = (\<lambda>_ _. True), dm_creates = (\<lambda>_ _ _. True),
     dm_path = (\<lambda>_ n. Some (''/dev/block/'' @ n)), exec_status = (\<lambda>_ _. 0),
     exec_effect = (\<lambda>_ _ t. t), reads_device = (\<lambda>_ _ _ _. True),
     zip_open = sample_zip, json_to_binary = Some, manifest_parse = sample_manifest,
     manifest_equals = (=), session_serialize = sample_serialize,
     session_parse = sample_parse,
     avb_footer_size = 4, avb_footer = (\<lambda>_. None), avb_verify = (\<lambda>_. (AVB_OTHER, '''')),
     avb_property = (\<lambda>_ _. None), avb_descriptors = (\<lambda>_. []), avb_descriptor_tag = (\<lambda>_. None),
     avb_hashtree = (\<lambda>_. None), avb_tag_hashtree = 1, sizeof_hashtree = 2,
     sha512 = (\<lambda>s. s), trim = (\<lambda>s. s), parse_int = (\<lambda>s. Some (int (decimal_value s))),
     vold_bool = (\<lambda>_ _. False), vold_ok = (\<lambda>_ _. True), vold_error = \<lambda>_ _. [], property = (\<lambda>_ _. ''''),
     wait_property = (\<lambda>_ _ _. False), kUpdatable = True, gForceDmVerityOnSystem = False,
     kDebugAllowBundledKey = False\<rparr>"

definition sample_world :: world where
  "sample_world = \<lparr>fs = [], mnts = [], hist = [], gMountedApexes = [], gScannedApexKeys = [],
     gBootstrap = False, gVoldService = None, gSupportsFsCheckpoints = False,
     gInFsCheckpointMode = False\<rparr>"

text \<open>An environment whose images \<open>VVVVFFFF\<close> are signed by the key \<open>k\<close> for the package \<open>n\<close>.\<close>

definition sample_desc :: AvbHashtreeDescriptor where
  "sample_desc = \<lparr>dm_verity_version = 1, image_size = 4096, tree_offset = 4096,
     data_block_size = 4096, hash_block_size = 4096, partition_name_len = 0, salt_len = 1,
     root_digest_len = 1, hash_algorithm = ''sha256''\<rparr>"

definition sample_avb_env :: env where
  "sample_avb_env = sample_env\<lparr>
     avb_footer := (\<lambda>_. Some \<lparr>vbmeta_offset = 0, vbmeta_size = 4\<rparr>),
     avb_verify := (\<lambda>s. if s = ''VVVV'' then (AVB_OK, ''k'') else (AVB_OTHER, '''')),
     avb_property := (\<lambda>_ _. Some ''n''), avb_descriptors := (\<lambda>_. [''--sd'']),
     avb_descriptor_tag := (\<lambda>_. Some 1), avb_hashtree := (\<lambda>_. Some sample_desc)\<rparr>"

definition sample_apex :: ApexFile where
  "sample_apex = \<lparr>GetPath = ''/x.apex'', IsFlattened = False, GetImageOffset = 0,
     GetImageSize = 8, GetManifest = \<lparr>manifest_name = ''n'', manifest_version = 1,
       preinstallhook = '''', postinstallhook = '''', versionname = ''1''\<rparr>,
     GetBundledPublicKey = ''k''\<rparr>"

definition sample_avb_world :: world where
  "sample_avb_world = sample_world\<lparr>fs := [(''/x.apex'', Reg 420 ''VVVVFFFF'')],
     gScannedApexKeys := [(''n'', ''k'')]\<rparr>"

end
