(* ===== verification/Apexd_Utils.thy ===== *)
theory Apexd_Utils
  imports Posix Sample_Env
begin

text \<open>
  \<open>apexd/apexd_utils.h\<close> and \<open>apexd/apex_constants.h\<close>: walking and emptying
  directories, creating them, testing paths, running a child process, waiting for a
  file, rebooting.
\<close>

section \<open>Constants\<close>

definition kApexDataDir :: path where "kApexDataDir = ''/data/apex''"
definition kActiveApexPackagesDataDir :: path where
  "kActiveApexPackagesDataDir = ''/data/apex/active''"
definition kApexBackupDir :: path where "kApexBackupDir = ''/data/apex/backup''"
definition kApexPackageSystemDir :: path where "kApexPackageSystemDir = ''/system/apex''"
definition kApexPackageBuiltinDirs :: "path list" where
  "kApexPackageBuiltinDirs = [kApexPackageSystemDir, ''/product/apex'']"
definition kApexRoot :: path where "kApexRoot = ''/apex''"
definition kStagedSessionsDir :: path where "kStagedSessionsDir = ''/data/app-staging''"
definition kApexPackageSuffix :: string where "kApexPackageSuffix = ''.apex''"

section \<open>Messages\<close>

definition msg_cant_open :: string where "msg_cant_open = ''Can't open for reading''"
definition msg_mkdir :: string where "msg_mkdir = ''Could not mkdir ''"
definition msg_stat :: string where "msg_stat = ''Could not stat ''"
definition msg_not_dir :: string where "msg_not_dir = '' exists and is not a directory.''"
definition msg_chmod :: string where "msg_chmod = ''Could not chmod ''"
definition msg_delete :: string where "msg_delete = ''Failed to delete ''"
definition msg_access :: string where "msg_access = ''Failed to access ''"
definition msg_fork :: string where "msg_fork = ''Unable to fork''"
definition msg_run :: string where "msg_run = ''Failed run: status=''"
definition msg_wait_file :: string where "msg_wait_file = ''wait timed out''"

section \<open>Directories\<close>

text \<open>\<open>WalkDir\<close>: the callback sees each entry; an error of the iterator ends the walk.\<close>

fun walk_from :: "env \<Rightarrow> path \<Rightarrow> (path \<Rightarrow> 's \<Rightarrow> world \<Rightarrow> 's \<times> world) \<Rightarrow> path list \<Rightarrow> 's \<Rightarrow> world \<Rightarrow>
    's \<times> (errno + unit) \<times> world" where
  "walk_from E d fn [] s w = (s, Inr (), w)"
| "walk_from E d fn (p # ps) s w =
     (let (s1, w1) = fn p s w;
          (r, w2) = query E (SysReadDir d) (\<lambda>_. Inr ()) w1
      in case r of Inl e \<Rightarrow> (s1, Inl e, w2) | Inr _ \<Rightarrow> walk_from E d fn ps s1 w2)"

definition open_dir_eff :: "path \<Rightarrow> world \<Rightarrow> errno + path list" where
  "open_dir_eff d w = (case node_at w d of
      None \<Rightarrow> Inl (missing w d)
    | Some n \<Rightarrow> if is_dir n then Inr (list_dir w d) else Inl ENOTDIR)"

definition WalkDir :: "env \<Rightarrow> path \<Rightarrow> (path \<Rightarrow> 's \<Rightarrow> world \<Rightarrow> 's \<times> world) \<Rightarrow> 's \<Rightarrow> world \<Rightarrow>
    's \<times> status \<times> world" where
  "WalkDir E d fn s w =
     (let (r, w1) = query E (SysOpenDir d) (open_dir_eff d) w
      in case r of
           Inl e \<Rightarrow> (s, Inl (PErr msg_cant_open d e), w1)
         | Inr ps \<Rightarrow>
             (let (s2, r2, w2) = walk_from E d fn ps s w1
              in case r2 of
                   Inl e \<Rightarrow> (s2, Inl (PErr msg_cant_open d e), w2)
                 | Inr _ \<Rightarrow> (s2, Success, w2)))"

text \<open>
  \<open>ReadDir\<close>: the paths of the entries the filter takes. A filter is a test of the path
  and of the node found there, as \<open>directory_entry\<close> offers them.
\<close>

definition ReadDir :: "env \<Rightarrow> path \<Rightarrow> (path \<Rightarrow> node option \<Rightarrow> bool) \<Rightarrow> world \<Rightarrow>
    path list status_or \<times> world" where
  "ReadDir E d flt w =
     (let (ret, r, w1) =
        WalkDir E d (\<lambda>p ret w. (if flt p (node_at w p) then ret @ [p] else ret, w)) [] w
      in case r of Inl e \<Rightarrow> (Inl e, w1) | Inr _ \<Rightarrow> (Inr ret, w1))"

definition IsEmptyDirectory :: "env \<Rightarrow> path \<Rightarrow> world \<Rightarrow> bool \<times> world" where
  "IsEmptyDirectory E path w =
     (let (res, w1) = ReadDir E path (\<lambda>_ _. True) w in (res = Inr [], w1))"

definition createDirIfNeeded :: "env \<Rightarrow> path \<Rightarrow> mode \<Rightarrow> world \<Rightarrow> status \<times> world" where
  "createDirIfNeeded E path mode w =
     (let (st, w1) = sys_stat E path w;
          (made, w2) = (case st of
              Inl e \<Rightarrow>
                if e = ENOENT then
                  (let (r, w2) = sys_mkdir E path mode w1
                   in (case r of Inl e' \<Rightarrow> Inl (PErr msg_mkdir path e') | Inr _ \<Rightarrow> Success, w2))
                else (Inl (PErr msg_stat path e), w1)
            | Inr n \<Rightarrow>
                if is_dir n then (Success, w1) else (Inl (ErrAt msg_not_dir path), w1))
      in case made of
           Inl e \<Rightarrow> (Inl e, w2)
         | Inr _ \<Rightarrow>
             (let (r, w3) = sys_chmod E path mode w2
              in (case r of Inl e \<Rightarrow> Inl (PErr msg_chmod path e) | Inr _ \<Rightarrow> Success, w3)))"

fun unlink_each :: "env \<Rightarrow> path list \<Rightarrow> world \<Rightarrow> status \<times> world" where
  "unlink_each E [] w = (Success, w)"
| "unlink_each E (file # files) w =
     (let (r, w1) = sys_unlink E file w
      in case r of Inl e \<Rightarrow> (Inl (PErr msg_delete file e), w1) | Inr _ \<Rightarrow> unlink_each E files w1)"

definition DeleteDirContent :: "env \<Rightarrow> path \<Rightarrow> world \<Rightarrow> status \<times> world" where
  "DeleteDirContent E path w =
     (let (files, w1) = ReadDir E path (\<lambda>_ _. True) w
      in case files of
           Inl e \<Rightarrow> (Inl (WrapAt msg_delete path e), w1)
         | Inr ps \<Rightarrow> unlink_each E ps w1)"

text \<open>No file has the empty path, which stands for the root directory elsewhere here.\<close>

definition PathExists :: "env \<Rightarrow> path \<Rightarrow> world \<Rightarrow> bool status_or \<times> world" where
  "PathExists E path w =
     (if path = '''' then (Inr False, w)
      else let (r, w1) = sys_stat E path w
      in (case r of
            Inr _ \<Rightarrow> Inr True
          | Inl e \<Rightarrow> if e = ENOENT \<or> e = ENOTDIR then Inr False
                    else Inl (PErr msg_access path e), w1))"

section \<open>Processes, reboot, waiting\<close>

text \<open>The wait status: \<open>WIFEXITED\<close> and \<open>WEXITSTATUS\<close>.\<close>

definition WIFEXITED :: "int \<Rightarrow> bool" where "WIFEXITED status \<longleftrightarrow> status mod 128 = 0"
definition WEXITSTATUS :: "int \<Rightarrow> int" where "WEXITSTATUS status = status div 256 mod 256"

definition WaitChild :: "env \<Rightarrow> int \<Rightarrow> world \<Rightarrow> int \<times> world" where
  "WaitChild E status w =
     (let (r, w1) = query E SysWait (\<lambda>_. Inr ()) w
      in if \<not> Ok r then (1, w1)
         else (if WIFEXITED status \<and> WEXITSTATUS status = 0 then 0 else status, w1))"

text \<open>\<open>fork\<close> and \<open>execv\<close>: the child's exit status and what it did to the file system.\<close>

definition ForkAndRun :: "env \<Rightarrow> string list \<Rightarrow> world \<Rightarrow> int \<times> error option \<times> world" where
  "ForkAndRun E args w =
     (case fault E (hist w) (SysExec args) of
        Some e \<Rightarrow> (-1, Some (PErr msg_fork '''' e), w\<lparr>hist := SysExec args # hist w\<rparr>)
      | None \<Rightarrow>
          (let w1 = w\<lparr>fs := exec_effect E (hist w) args (fs w), hist := SysExec args # hist w\<rparr>;
               (rc, w2) = WaitChild E (exec_status E (hist w) args) w1
           in (rc, if rc \<noteq> 0 then Some (ErrAt msg_run (to_string rc)) else None, w2)))"

definition Reboot :: "world \<Rightarrow> world" where
  "Reboot w = w\<lparr>hist := SysReboot # hist w\<rparr>"

text \<open>
  \<open>WaitForFile\<close>: poll until the timer passes the limit; every poll sleeps 5 ms. The
  model returns \<open>None\<close> for a run that never ends.
\<close>

partial_function (option) wait_for_file_from ::
    "env \<Rightarrow> path \<Rightarrow> nat \<Rightarrow> nat \<Rightarrow> world \<Rightarrow> (status \<times> world) option" where
  "wait_for_file_from E path start timeout w =
     (if clock E (hist w) - start < timeout then
        (case sys_stat E path w of
           (Inr _, w1) \<Rightarrow> Some (Success, w1)
         | (Inl _, w1) \<Rightarrow>
             wait_for_file_from E path start timeout (w1\<lparr>hist := Sleep # hist w1\<rparr>))
      else Some (Inl (ErrAt msg_wait_file path), w))"

declare wait_for_file_from.simps [code]

definition WaitForFile :: "env \<Rightarrow> path \<Rightarrow> nat \<Rightarrow> world \<Rightarrow> (status \<times> world) option" where
  "WaitForFile E path timeout w = wait_for_file_from E path (clock E (hist w)) timeout w"

section \<open>What the directory functions do\<close>

text \<open>A call that only asks: the world differs in its history alone.\<close>

definition asks :: "world \<Rightarrow> world \<Rightarrow> bool" where
  "asks w w' \<longleftrightarrow> (\<exists>h. w' = w\<lparr>hist := h\<rparr>)"

lemma asks_refl [simp]: "asks w w"
  unfolding asks_def by (rule exI [of _ "hist w"]) simp

lemma asks_trans [trans]: "asks w1 w2 \<Longrightarrow> asks w2 w3 \<Longrightarrow> asks w1 w3"
  by (auto simp: asks_def)

lemma asks_hist [simp]: "asks w (w\<lparr>hist := h\<rparr>)"
  by (auto simp: asks_def)

lemma asksE: "asks w w' \<Longrightarrow> (\<And>h. w' = w\<lparr>hist := h\<rparr> \<Longrightarrow> P) \<Longrightarrow> P"
  by (auto simp: asks_def)

lemma asks_only_fs [frame]: "asks w w' \<Longrightarrow> only_fs R w w'"
  by (auto simp: asks_def)

lemma asks_fields:
  assumes "asks w w'"
  shows "fs w' = fs w" "mnts w' = mnts w" "node_at w' = node_at w" "list_dir w' = list_dir w"
    "clear w' = clear w" "mount_over w' = mount_over w"
    "gMountedApexes w' = gMountedApexes w" "gScannedApexKeys w' = gScannedApexKeys w"
    "gBootstrap w' = gBootstrap w" "gVoldService w' = gVoldService w"
    "gSupportsFsCheckpoints w' = gSupportsFsCheckpoints w"
    "gInFsCheckpointMode w' = gInFsCheckpointMode w"
  using assms by (auto simp: asks_def fun_eq_iff)

lemma query_asks: "query E ev f w = (r, w') \<Longrightarrow> asks w w'"
  by (simp add: query_eq)

lemma sys_stat_asks: "sys_stat E p w = (r, w') \<Longrightarrow> asks w w'"
  by (auto simp: sys_stat_def query_eq)

lemma PathExists_asks: "PathExists E p w = (r, w') \<Longrightarrow> asks w w'"
  by (auto simp: PathExists_def Let_def sys_stat_asks split: prod.splits if_splits)

lemma PathExists_True: "PathExists E p w = (Inr True, w') \<Longrightarrow>
    node_at w p \<noteq> None \<or> dev_node E (hist w) p"
  by (auto simp: PathExists_def sys_stat_def query_eq stat_eff_def Let_def
      split: prod.splits option.splits sum.splits if_splits)

lemma PathExists_False: "PathExists E p w = (Inr False, w') \<Longrightarrow> p \<noteq> '''' \<Longrightarrow>
    fault E (hist w) (SysStat p) = None \<Longrightarrow> node_at w p = None"
  by (auto simp: PathExists_def sys_stat_def query_eq stat_eff_def Let_def
      split: prod.splits option.splits sum.splits if_splits)

lemma walk_from_filter:
  "walk_from E d (\<lambda>p ret w. (if flt p (node_at w p) then ret @ [p] else ret, w)) ps ret w =
     (ret', r, w') \<Longrightarrow>
   asks w w' \<and> (r = Inr () \<longrightarrow> ret' = ret @ filter (\<lambda>p. flt p (node_at w p)) ps)"
proof (induction ps arbitrary: ret w)
  case (Cons p ps)
  then show ?case
    by (fastforce simp: query_eq Let_def split: prod.splits sum.splits option.splits if_splits
        intro: asks_trans [OF asks_hist] simp: asks_def)
qed simp

lemma ReadDir_result:
  assumes "ReadDir E d flt w = (r, w')"
  shows "asks w w'"
    and "r = Inr ps \<Longrightarrow> (\<exists>m. node_at w d = Some (Directory m)) \<and>
      ps = filter (\<lambda>p. flt p (node_at w p)) (list_dir w d)"
proof -
  have "asks w w' \<and> (r = Inr ps \<longrightarrow> (\<exists>m. node_at w d = Some (Directory m)) \<and>
      ps = filter (\<lambda>p. flt p (node_at w p)) (list_dir w d))"
    using assms
    by (auto simp: ReadDir_def WalkDir_def open_dir_eff_def query_eq Let_def
        dest!: walk_from_filter elim!: asksE is_dir.elims
        split: prod.splits sum.splits option.splits if_splits)
  then show "asks w w'" "r = Inr ps \<Longrightarrow> (\<exists>m. node_at w d = Some (Directory m)) \<and>
      ps = filter (\<lambda>p. flt p (node_at w p)) (list_dir w d)"
    by auto
qed

lemma IsEmptyDirectory_asks: "IsEmptyDirectory E p w = (b, w') \<Longrightarrow> asks w w'"
  by (auto simp: IsEmptyDirectory_def Let_def dest: ReadDir_result(1) split: prod.splits)

lemma IsEmptyDirectory_True:
  "IsEmptyDirectory E p w = (True, w') \<Longrightarrow> (\<exists>m. node_at w p = Some (Directory m)) \<and> list_dir w p = []"
  by (auto simp: IsEmptyDirectory_def Let_def dest!: ReadDir_result(2) split: prod.splits)

text \<open>\<open>createDirIfNeeded\<close> touches only the directory itself, and makes sure it is there.\<close>

lemma createDirIfNeeded_frame: "createDirIfNeeded E p m w = (r, w') \<Longrightarrow> only_fs (\<lambda>q. q = p) w w'"
proof -
  assume "createDirIfNeeded E p m w = (r, w')"
  then show ?thesis
    using sys_stat_frame [of "\<lambda>q. q = p" w E p]
    by (auto simp: createDirIfNeeded_def Let_def split: prod.splits sum.splits if_splits)
      (metis only_fs_chain sys_mkdir_frame sys_chmod_frame snd_conv)+
qed

lemma createDirIfNeeded_ok:
  assumes ok: "createDirIfNeeded E p m w = (Inr (), w')" and host: "mount_over w p = None"
    and dev: "\<And>h. \<not> dev_node E h p"
  shows "map_of (fs w') p = Some (Directory m)"
proof -
  have *: "map_of (fs w2) p = Some (Directory m)"
    if "sys_chmod E p m w1 = (Inr u, w2)" "mount_over w1 p = None" "map_of (fs w1) p = Some (Directory m')"
    for w1 w2 m' u
    using that
    by (auto simp: sys_chmod_def fs_call_eq chmod_eff_def node_at_host update_conv'
        split: option.splits sum.splits)
  have mk: "map_of (fs w2) p \<noteq> None \<and> (\<exists>m'. map_of (fs w2) p = Some (Directory m')) \<and> mnts w2 = mnts w1"
    if "sys_mkdir E p m w1 = (Inr u, w2)" for w1 w2 u
    using that
    by (auto simp: sys_mkdir_def fs_call_eq mkdir_eff_def update_conv'
        split: option.splits sum.splits if_splits)
  obtain st w1 where s: "sys_stat E p w = (st, w1)" by (cases "sys_stat E p w")
  note eq = asks_fields [OF sys_stat_asks [OF s]]
  show ?thesis
  proof (cases st)
    case (Inl e)
    obtain r2 w2 where m: "sys_mkdir E p m w1 = (r2, w2)" by (cases "sys_mkdir E p m w1")
    obtain r3 w3 where c: "sys_chmod E p m w2 = (r3, w3)" by (cases "sys_chmod E p m w2")
    from ok s Inl m c have r: "r2 = Inr () \<and> r3 = Inr () \<and> w3 = w'"
      by (cases r2; cases r3) (simp_all add: createDirIfNeeded_def split: if_splits)
    with m mk [of w1 "()" w2] obtain m' where
      dir: "map_of (fs w2) p = Some (Directory m')" "mnts w2 = mnts w1" by auto
    from dir(2) have "mount_over w2 p = None"
      using mount_over_cong [of w2 w1] host eq(6) by simp
    with r c dir * [of w2 "()" w'] show ?thesis by simp
  next
    case (Inr n)
    obtain r3 w3 where c: "sys_chmod E p m w1 = (r3, w3)" by (cases "sys_chmod E p m w1")
    from ok s Inr c have r: "is_dir n" "r3 = Inr ()" "w3 = w'"
      by (cases r3; simp add: createDirIfNeeded_def split: if_splits)+
    from s Inr dev host have "map_of (fs w) p = Some n"
      by (auto simp: sys_stat_def query_eq stat_eff_def node_at_host split: option.splits)
    with r(1) obtain m' where "map_of (fs w1) p = Some (Directory m')"
      by (cases n) (simp_all add: eq)
    with r c host eq show ?thesis using * [of w1 "()" w'] by simp
  qed
qed

text \<open>\<open>DeleteDirContent\<close>: on success nothing is left directly below the directory, and what
was there was no directory; on failure some of the files may be gone already.\<close>

lemma unlink_each_spec:
  assumes "unlink_each E files w = (r, w')"
    and "\<forall>p \<in> set files. mount_over w p = None"
  shows "only_fs (\<lambda>p. p \<in> set files) w w' \<and>
    (\<forall>p. map_of (fs w') p = map_of (fs w) p \<or> map_of (fs w') p = None) \<and>
    (r = Inr () \<longrightarrow> (\<forall>p \<in> set files. map_of (fs w') p = None \<and>
       (\<exists>n. map_of (fs w) p = Some n \<and> \<not> is_dir n)))"
  using assms
proof (induction files arbitrary: w)
  case Nil
  then show ?case by (simp add: only_fs_refl)
next
  case (Cons f files)
  obtain r1 w1 where u: "sys_unlink E f w = (r1, w1)" by (cases "sys_unlink E f w")
  from sys_unlink_frame [of f w E] u have f1: "only_fs (\<lambda>q. q = f) w w1" by simp
  have host: "mount_over w f = None" using Cons.prems(2) by simp
  show ?case
  proof (cases r1)
    case (Inl e)
    with u Cons.prems(1) have "w' = w1" "r = Inl (PErr msg_delete f e)" by simp_all
    with f1 sys_unlink_ok(3) [OF host, of E e w1] u Inl show ?thesis
      by (auto intro: only_fs_mono)
  next
    case (Inr x)
    then have w1: "w1 = w\<lparr>fs := AList.delete f (fs w), hist := SysUnlink f # hist w\<rparr>"
      using sys_unlink_ok(2) [OF host] u by simp
    have node: "\<exists>n. map_of (fs w) f = Some n \<and> \<not> is_dir n"
      using sys_unlink_ok(1) [OF host, of E] u Inr by simp
    have fs1: "map_of (fs w1) p = (if p = f then None else map_of (fs w) p)" for p
      by (simp add: w1 AList.delete_conv)
    from Inr u Cons.prems(1) have rest: "unlink_each E files w1 = (r, w')" by simp
    have mo: "\<forall>p \<in> set files. mount_over w1 p = None"
      using Cons.prems(2) by (simp add: mount_over_cong [of w1 w] w1)
    from Cons.IH [OF rest mo]
    have IH: "only_fs (\<lambda>p. p \<in> set files) w1 w'"
      "\<forall>p. map_of (fs w') p = map_of (fs w1) p \<or> map_of (fs w') p = None"
      "r = Inr () \<longrightarrow> (\<forall>p \<in> set files. map_of (fs w') p = None \<and>
         (\<exists>n. map_of (fs w1) p = Some n \<and> \<not> is_dir n))" by auto
    have "only_fs (\<lambda>p. p \<in> set (f # files)) w w'"
      using f1 IH(1) by (rule only_fs_trans [THEN only_fs_mono]) auto
    moreover have "map_of (fs w') p = map_of (fs w) p \<or> map_of (fs w') p = None" for p
      using IH(2) fs1 [of p] by (metis (full_types))
    moreover have "map_of (fs w') f = None"
      using IH(2) [THEN spec, of f] fs1 [of f] by auto
    ultimately show ?thesis
      using IH(3) fs1 node by (auto split: if_splits)
  qed
qed

text \<open>The entries of a directory: the paths whose parent it is.\<close>

definition child_of :: "path \<Rightarrow> path \<Rightarrow> bool" where
  "child_of d p \<longleftrightarrow> p \<noteq> '''' \<and> dirname p = d"

lemma child_under: "d \<noteq> '''' \<Longrightarrow> child_of d p \<Longrightarrow> under d p"
  by (simp add: child_of_def under_dirname)

lemma child_slash [simp]: "CHR ''/'' \<notin> set n \<Longrightarrow> child_of d (d @ CHR ''/'' # n)"
  by (simp add: child_of_def)

lemma child_slash_eq: "CHR ''/'' \<notin> set n \<Longrightarrow> child_of d (d' @ CHR ''/'' # n) \<longleftrightarrow> d = d'"
  by (auto simp: child_of_def)

lemma set_list_dir: "mount_over w d = None \<Longrightarrow>
    set (list_dir w d) = {p. child_of d p \<and> map_of (fs w) p \<noteq> None}"
  by (auto simp: list_dir_host child_of_def map_of_eq_None_iff)

lemma DeleteDirContent_spec:
  assumes run: "DeleteDirContent E d w = (r, w')" and c: "clear w d" and d: "d \<noteq> ''''"
  shows "only_fs (child_of d) w w'"
    and "map_of (fs w') p = map_of (fs w) p \<or> map_of (fs w') p = None"
    and "r = Inr () \<Longrightarrow> map_of (fs w') p = (if child_of d p then None else map_of (fs w) p)"
    and "r = Inr () \<Longrightarrow> child_of d p \<Longrightarrow> map_of (fs w) p = Some n \<Longrightarrow> \<not> is_dir n"
proof -
  have mo: "mount_over w d = None" "\<And>p. child_of d p \<Longrightarrow> mount_over w p = None"
    using c d by (auto intro: clear_mount_over child_under)
  have *: "only_fs (child_of d) w w' \<and>
    (\<forall>p. map_of (fs w') p = map_of (fs w) p \<or> map_of (fs w') p = None) \<and>
    (r = Inr () \<longrightarrow> (\<forall>p. map_of (fs w') p = (if child_of d p then None else map_of (fs w) p)) \<and>
       (\<forall>p n. child_of d p \<longrightarrow> map_of (fs w) p = Some n \<longrightarrow> \<not> is_dir n))"
  proof (cases "ReadDir E d (\<lambda>_ _. True) w")
    case (Pair files w1)
    note rd = ReadDir_result [OF Pair]
    note eq = asks_fields [OF rd(1)]
    show ?thesis
    proof (cases files)
      case (Inl e)
      with run Pair have "w' = w1" "r = Inl (WrapAt msg_delete d e)"
        by (simp_all add: DeleteDirContent_def)
      with rd(1) eq(1) show ?thesis by (simp add: asks_only_fs)
    next
      case (Inr ps)
      then have ps: "set ps = {p. child_of d p \<and> map_of (fs w) p \<noteq> None}"
        using rd(2) mo(1) by (simp add: set_list_dir)
      from run Pair Inr have "unlink_each E ps w1 = (r, w')" by (simp add: DeleteDirContent_def)
      then have u: "only_fs (\<lambda>p. p \<in> set ps) w1 w' \<and>
        (\<forall>p. map_of (fs w') p = map_of (fs w) p \<or> map_of (fs w') p = None) \<and>
        (r = Inr () \<longrightarrow> (\<forall>p \<in> set ps. map_of (fs w') p = None \<and>
          (\<exists>n. map_of (fs w) p = Some n \<and> \<not> is_dir n)))"
        using unlink_each_spec [of E ps w1 r w'] ps mo(2) by (simp add: eq)
      then have "only_fs (\<lambda>p. p \<in> set ps) w w'"
        using asks_only_fs [OF rd(1)] only_fs_chain by blast
      then have fr: "only_fs (child_of d) w w'" and keep: "p \<notin> set ps \<Longrightarrow> map_of (fs w') p = map_of (fs w) p" for p
        using ps by (auto elim: only_fs_mono only_fs_lookup)
      have all: "map_of (fs w') p = (if child_of d p then None else map_of (fs w) p)" if "r = Inr ()" for p
        using u keep [of p] ps that by (cases "map_of (fs w) p") auto
      have nd: "\<not> is_dir n" if "r = Inr ()" "child_of d p" "map_of (fs w) p = Some n" for p n
        using u ps that by (metis (mono_tags, lifting) mem_Collect_eq option.distinct(1) option.inject)
      show ?thesis
        using fr u all nd by simp
    qed
  qed
  then show "only_fs (child_of d) w w'" by (rule conjunct1)
  from * show "map_of (fs w') p = map_of (fs w) p \<or> map_of (fs w') p = None"
    by (elim conjE) (rule spec)
  from * show "r = Inr () \<Longrightarrow> map_of (fs w') p = (if child_of d p then None else map_of (fs w) p)"
    by (elim conjE) simp
  from * show "r = Inr () \<Longrightarrow> child_of d p \<Longrightarrow> map_of (fs w) p = Some n \<Longrightarrow> \<not> is_dir n"
    by (elim conjE) simp
qed

text \<open>
  \<open>WaitForFile\<close> returns whenever sleeping advances the clock: the time left shrinks by a
  positive amount with every round.
\<close>

definition clock_advances :: "env \<Rightarrow> bool" where
  "clock_advances E \<longleftrightarrow> (\<forall>h e. clock E h \<le> clock E (e # h)) \<and> (\<forall>h. clock E h < clock E (Sleep # h))"

lemma wait_for_file_returns:
  assumes "clock_advances E" and "start \<le> clock E (hist w)"
  shows "\<exists>r w'. wait_for_file_from E path start timeout w = Some (r, w') \<and> asks w w' \<and>
    (Ok r \<longrightarrow> node_at w path \<noteq> None \<or> (\<exists>h. dev_node E h path)) \<and>
    (\<not> Ok r \<longrightarrow> timeout \<le> clock E (hist w') - start)"
  using assms(2)
proof (induction "start + timeout - clock E (hist w)" arbitrary: w rule: less_induct)
  case less
  show ?case
  proof (cases "clock E (hist w) - start < timeout")
    case False
    then show ?thesis by (subst wait_for_file_from.simps) simp
  next
    case True
    obtain st w1 where s: "sys_stat E path w = (st, w1)" by (cases "sys_stat E path w")
    note a = sys_stat_asks [OF s]
    show ?thesis
    proof (cases st)
      case (Inr n)
      with s have "node_at w path \<noteq> None \<or> dev_node E (hist w) path"
        by (auto simp: sys_stat_def query_eq stat_eff_def split: option.splits if_splits)
      with Inr True s a show ?thesis by (subst wait_for_file_from.simps) auto
    next
      case (Inl e)
      define w2 where "w2 = w1\<lparr>hist := Sleep # hist w1\<rparr>"
      from s have "hist w1 = SysStat path # hist w" by (auto simp: sys_stat_def query_eq)
      then have "hist w2 = Sleep # SysStat path # hist w" by (simp add: w2_def)
      then have "clock E (hist w) < clock E (hist w2)"
        using assms(1) unfolding clock_advances_def by (metis le_less_trans)
      with True less.prems have "start \<le> clock E (hist w2)"
        "start + timeout - clock E (hist w2) < start + timeout - clock E (hist w)" by auto
      from less.hyps [OF this(2,1)] obtain r w' where
        rec: "wait_for_file_from E path start timeout w2 = Some (r, w')" "asks w2 w'"
          "Ok r \<longrightarrow> node_at w2 path \<noteq> None \<or> (\<exists>h. dev_node E h path)"
          "\<not> Ok r \<longrightarrow> timeout \<le> clock E (hist w') - start" by auto
      have "asks w w2" using a asks_trans asks_hist unfolding w2_def by metis
      note rec(1,4) asks_trans [OF this rec(2)] rec(3) [unfolded asks_fields(3) [OF this]]
      then show ?thesis
        using True s Inl by (subst wait_for_file_from.simps) (simp add: w2_def)
    qed
  qed
qed

lemma WaitForFile_returns: "clock_advances E \<Longrightarrow>
    \<exists>r w'. WaitForFile E path timeout w = Some (r, w') \<and> asks w w' \<and>
      (Ok r \<longrightarrow> node_at w path \<noteq> None \<or> (\<exists>h. dev_node E h path)) \<and>
      (\<not> Ok r \<longrightarrow> timeout \<le> clock E (hist w') - clock E (hist w))"
  unfolding WaitForFile_def by (rule wait_for_file_returns) auto

section \<open>Properties\<close>

text \<open>C30. Emptying a directory that no mount covers touches only its direct entries. On success
  none is left, none of them was a directory, and everything else is as before; on
  failure an entry is either untouched or gone.
\<close>

theorem DeleteDirContent_correct:
  assumes "DeleteDirContent E d w = (r, w')" and "clear w d" and "d \<noteq> ''''"
  shows "only_fs (child_of d) w w' \<and>
    (\<forall>p. map_of (fs w') p = map_of (fs w) p \<or> map_of (fs w') p = None) \<and>
    (Ok r \<longrightarrow> (\<forall>p. child_of d p \<longrightarrow> map_of (fs w') p = None \<and>
       (\<forall>n. map_of (fs w) p = Some n \<longrightarrow> \<not> is_dir n)))"
  using DeleteDirContent_spec [OF assms] by (auto simp: Ok_iff)

theorem DeleteDirContent_correct_witness:
  "only_fs (child_of ''/d'')
     (sample_world\<lparr>fs := [(''/d'', Directory 448), (''/d/f'', Reg 420 ''x'')]\<rparr>)
     (snd (DeleteDirContent sample_env ''/d''
       (sample_world\<lparr>fs := [(''/d'', Directory 448), (''/d/f'', Reg 420 ''x'')]\<rparr>)))"
proof -
  have "clear (sample_world\<lparr>fs := t\<rparr>) d" for t d by (simp add: clear_def sample_world_def)
  from DeleteDirContent_correct [OF prod.collapse [symmetric] this]
  show ?thesis by simp
qed

text \<open>C31. Waiting for a file always returns when sleeping advances the clock. It changes nothing
  but the history; it succeeds only for a file that is there, and fails only after the
  whole timeout has passed.
\<close>

theorem WaitForFile_terminates:
  assumes "clock_advances E"
  shows "\<exists>r w'. WaitForFile E path timeout w = Some (r, w') \<and> asks w w' \<and>
    (Ok r \<longrightarrow> node_at w path \<noteq> None \<or> (\<exists>h. dev_node E h path)) \<and>
    (\<not> Ok r \<longrightarrow> timeout \<le> clock E (hist w') - clock E (hist w))"
  using WaitForFile_returns [OF assms] by blast

theorem WaitForFile_terminates_witness:
  "\<exists>r w'. WaitForFile sample_env ''/dev/x'' 50 sample_world = Some (r, w') \<and> \<not> Ok r"
proof -
  have "clock_advances sample_env" by (simp add: clock_advances_def sample_env_def)
  from WaitForFile_terminates [OF this, of "''/dev/x''" 50 sample_world] show ?thesis
    by (auto simp: node_at_def mount_over_def sample_world_def sample_env_def)
qed

end
