(* ===== verification/Apex_File.thy ===== *)
theory Apex_File
  imports Apexd_Utils
begin

text \<open>
  \<open>apexd/apex_manifest.cpp\<close> and the part of \<open>apexd/apex_file.cpp\<close> that opens packages
  and finds them: parsing and checking the manifest, package ids, flattened APEXes,
  \<open>ApexFile::Open\<close>, the directory scans, and the comparison of the manifest inside a
  mounted image with the one outside.
\<close>

section \<open>Messages\<close>

definition msg_json :: string where "msg_json = ''Failed to parse APEX Manifest JSON config: ''"
definition msg_fields :: string where
  "msg_fields = ''Unexpected fields in APEX Manifest JSON config''"
definition msg_no_name :: string where
  "msg_no_name = ''Missing required field name from APEX manifest.''"
definition msg_no_version :: string where
  "msg_no_version = ''Missing required field version from APEX manifest.''"
definition msg_read_manifest :: string where "msg_read_manifest = ''Failed to read manifest file: ''"
definition msg_read_pubkey :: string where "msg_read_pubkey = ''Failed to read pubkey file: ''"
definition msg_open_package :: string where "msg_open_package = ''Failed to open package ''"
definition msg_no_image :: string where "msg_no_image = ''Could not find entry apex_payload.img in package ''"
definition msg_no_manifest :: string where
  "msg_no_manifest = ''Could not find entry apex_manifest.json in package ''"
definition msg_extract_manifest :: string where
  "msg_extract_manifest = ''Failed to extract manifest from package ''"
definition msg_extract_pubkey :: string where
  "msg_extract_pubkey = ''Failed to extract public key from package ''"
definition msg_manifest_differs :: string where
  "msg_manifest_differs = ''Manifest inside filesystem does not match manifest outside it''"

section \<open>Manifests\<close>

definition JsonToApexManifestMessage :: "env \<Rightarrow> string \<Rightarrow> ApexManifest status_or" where
  "JsonToApexManifestMessage E content =
     (case json_to_binary E content of
        None \<Rightarrow> Inl (Err msg_json)
      | Some binary \<Rightarrow>
          (case manifest_parse E binary of
             None \<Rightarrow> Inl (Err msg_fields)
           | Some m \<Rightarrow> Inr m))"

definition ParseManifest :: "env \<Rightarrow> string \<Rightarrow> ApexManifest status_or" where
  "ParseManifest E content =
     (case JsonToApexManifestMessage E content of
        Inl e \<Rightarrow> Inl e
      | Inr m \<Rightarrow>
          if manifest_name m = '''' then Inl (Err msg_no_name)
          else if manifest_version m = 0 then Inl (Err msg_no_version)
          else Inr m)"

definition GetPackageId :: "ApexManifest \<Rightarrow> string" where
  "GetPackageId m = manifest_name m @ ''@'' @ to_string (sint (manifest_version m))"

section \<open>Opening a package\<close>

definition kImageFilename :: string where "kImageFilename = ''apex_payload.img''"
definition kManifestFilename :: string where "kManifestFilename = ''apex_manifest.json''"
definition kBundledPublicKeyFilename :: string where "kBundledPublicKeyFilename = ''apex_pubkey''"

definition isFlattenedApex :: "env \<Rightarrow> path \<Rightarrow> world \<Rightarrow> bool \<times> world" where
  "isFlattenedApex E path w =
     (let (st, w1) = sys_stat E (slash path kManifestFilename) w
      in (case st of Inl _ \<Rightarrow> False | Inr n \<Rightarrow> is_reg n, w1))"

text \<open>What \<open>Open\<close> reads before it parses the manifest.\<close>

record raw_apex =
  raw_flattened :: bool
  raw_offset :: int32
  raw_size :: uint64
  raw_manifest :: string
  raw_pubkey :: string

definition open_flattened :: "env \<Rightarrow> path \<Rightarrow> world \<Rightarrow> raw_apex status_or \<times> world" where
  "open_flattened E path w =
     (let (m, w1) = ReadFileToString E (slash path kManifestFilename) w
      in case m of
           Inl _ \<Rightarrow> (Inl (ErrAt msg_read_manifest (slash path kManifestFilename)), w1)
         | Inr content \<Rightarrow>
             (let (acc, w2) = sys_access E (slash path kBundledPublicKeyFilename) w1
              in case acc of
                   Inl _ \<Rightarrow> (Inr \<lparr>raw_flattened = True, raw_offset = 0, raw_size = 0,
                       raw_manifest = content, raw_pubkey = ''''\<rparr>, w2)
                 | Inr _ \<Rightarrow>
                     (let (k, w3) = ReadFileToString E (slash path kBundledPublicKeyFilename) w2
                      in case k of
                           Inl _ \<Rightarrow> (Inl (ErrAt msg_read_pubkey
                               (slash path kBundledPublicKeyFilename)), w3)
                         | Inr pubkey \<Rightarrow> (Inr \<lparr>raw_flattened = True, raw_offset = 0,
                             raw_size = 0, raw_manifest = content, raw_pubkey = pubkey\<rparr>, w3))))"

text \<open>
  The archive entries: \<open>entry.offset\<close> is a 64-bit value stored in an \<open>int32_t\<close>, the
  length is zero-extended to \<open>size_t\<close>.
\<close>

definition read_entries :: "path \<Rightarrow> (string \<times> ZipEntry) list \<Rightarrow> raw_apex status_or" where
  "read_entries path entries =
     (case map_of entries kImageFilename of
        None \<Rightarrow> Inl (ErrAt msg_no_image path)
      | Some img \<Rightarrow>
          (case map_of entries kManifestFilename of
             None \<Rightarrow> Inl (ErrAt msg_no_manifest path)
           | Some m \<Rightarrow>
               (case extracted m of
                  None \<Rightarrow> Inl (ErrAt msg_extract_manifest path)
                | Some content \<Rightarrow>
                    (case map_of entries kBundledPublicKeyFilename of
                       None \<Rightarrow> Inr \<lparr>raw_flattened = False,
                           raw_offset = ucast (zip_offset img),
                           raw_size = ucast (uncompressed_length img),
                           raw_manifest = content, raw_pubkey = ''''\<rparr>
                     | Some k \<Rightarrow>
                         (case extracted k of
                            None \<Rightarrow> Inl (ErrAt msg_extract_pubkey path)
                          | Some pubkey \<Rightarrow> Inr \<lparr>raw_flattened = False,
                              raw_offset = ucast (zip_offset img),
                              raw_size = ucast (uncompressed_length img),
                              raw_manifest = content, raw_pubkey = pubkey\<rparr>)))))"

definition open_archive :: "env \<Rightarrow> path \<Rightarrow> world \<Rightarrow> raw_apex status_or \<times> world" where
  "open_archive E path w =
     (let (bytes, w1) = ReadFileToString E path w
      in (case bytes of
            Inl _ \<Rightarrow> Inl (ErrAt msg_open_package path)
          | Inr b \<Rightarrow>
              (case zip_open E b of
                 None \<Rightarrow> Inl (ErrAt msg_open_package path)
               | Some entries \<Rightarrow> read_entries path entries), w1))"

definition Open :: "env \<Rightarrow> path \<Rightarrow> world \<Rightarrow> ApexFile status_or \<times> world" where
  "Open E path w =
     (let (flattened, w1) = isFlattenedApex E path w;
          (raw, w2) = (if flattened then open_flattened E path w1 else open_archive E path w1)
      in (case raw of
            Inl e \<Rightarrow> Inl e
          | Inr r \<Rightarrow>
              (case ParseManifest E (raw_manifest r) of
                 Inl e \<Rightarrow> Inl e
               | Inr m \<Rightarrow> Inr \<lparr>GetPath = path, IsFlattened = raw_flattened r,
                   GetImageOffset = raw_offset r, GetImageSize = raw_size r,
                   GetManifest = m, GetBundledPublicKey = raw_pubkey r\<rparr>), w2))"

definition VerifyManifestMatches :: "env \<Rightarrow> ApexFile \<Rightarrow> path \<Rightarrow> world \<Rightarrow> status \<times> world" where
  "VerifyManifestMatches E apex mount_path w =
     (let (m, w1) = ReadFileToString E (slash mount_path kManifestFilename) w
      in (case m of
            Inl _ \<Rightarrow> Inl (ErrAt msg_read_manifest (slash mount_path kManifestFilename))
          | Inr content \<Rightarrow>
              (case ParseManifest E content of
                 Inl e \<Rightarrow> Inl e
               | Inr verified \<Rightarrow>
                   if \<not> manifest_equals E (GetManifest apex) verified
                   then Inl (Err msg_manifest_differs) else Success), w1))"

section \<open>Finding packages\<close>

definition isPathForBuiltinApexes :: "path \<Rightarrow> bool" where
  "isPathForBuiltinApexes path \<longleftrightarrow> list_ex (StartsWith path) kApexPackageBuiltinDirs"

definition apex_entry :: "bool \<Rightarrow> path \<Rightarrow> node option \<Rightarrow> bool" where
  "apex_entry include_dirs p n =
     (case n of
        Some n \<Rightarrow> is_reg n \<and> EndsWith (basename p) kApexPackageSuffix \<or> is_dir n \<and> include_dirs
      | None \<Rightarrow> False)"

definition FindApexFilesByName :: "env \<Rightarrow> path \<Rightarrow> bool \<Rightarrow> world \<Rightarrow> path list status_or \<times> world" where
  "FindApexFilesByName E path include_dirs w = ReadDir E path (apex_entry include_dirs) w"

fun FindApexes :: "env \<Rightarrow> path list \<Rightarrow> world \<Rightarrow> path list status_or \<times> world" where
  "FindApexes E [] w = (Inr [], w)"
| "FindApexes E (path # paths) w =
     (let (exist, w1) = PathExists E path w
      in case exist of
           Inl e \<Rightarrow> (Inl e, w1)
         | Inr False \<Rightarrow> FindApexes E paths w1
         | Inr True \<Rightarrow>
             (let (apexes, w2) = FindApexFilesByName E path (isPathForBuiltinApexes path) w1
              in case apexes of
                   Inl e \<Rightarrow> (Inl e, w2)
                 | Inr as \<Rightarrow>
                     (let (rest, w3) = FindApexes E paths w2
                      in (case rest of Inl e \<Rightarrow> Inl e | Inr bs \<Rightarrow> Inr (as @ bs), w3))))"

section \<open>What they do\<close>

lemma ReadFileToString_asks: "ReadFileToString E p w = (r, w') \<Longrightarrow> asks w w'"
  by (auto simp: ReadFileToString_def sys_open_def sys_read_def query_eq Let_def
      split: prod.splits sum.splits)

lemma ReadFileToString_Inr: "ReadFileToString E p w = (Inr c, w') \<Longrightarrow>
    \<exists>m. node_at w p = Some (Reg m c)"
  by (auto simp: ReadFileToString_def sys_open_def sys_read_def query_eq Let_def read_eff_def
      split: prod.splits sum.splits option.splits node.splits)

lemma isFlattenedApex_asks: "isFlattenedApex E p w = (b, w') \<Longrightarrow> asks w w'"
  by (auto simp: isFlattenedApex_def Let_def sys_stat_asks split: prod.splits)

lemma open_flattened_asks: "open_flattened E p w = (r, w') \<Longrightarrow> asks w w'"
  by (auto simp: open_flattened_def Let_def sys_access_def query_eq
      dest!: ReadFileToString_asks elim!: asksE split: prod.splits sum.splits)

lemma open_archive_asks: "open_archive E p w = (r, w') \<Longrightarrow> asks w w'"
  by (auto simp: open_archive_def Let_def ReadFileToString_asks split: prod.splits)

lemma Open_asks: "Open E p w = (r, w') \<Longrightarrow> asks w w'"
  by (auto simp: Open_def Let_def dest!: isFlattenedApex_asks open_flattened_asks
      open_archive_asks elim!: asksE split: prod.splits if_splits)

lemma VerifyManifestMatches_asks: "VerifyManifestMatches E a p w = (r, w') \<Longrightarrow> asks w w'"
  by (auto simp: VerifyManifestMatches_def Let_def ReadFileToString_asks split: prod.splits)

lemma ParseManifest_Inr: "ParseManifest E c = Inr m \<longleftrightarrow>
    (\<exists>b. json_to_binary E c = Some b \<and> manifest_parse E b = Some m) \<and>
    manifest_name m \<noteq> '''' \<and> manifest_version m \<noteq> 0"
  by (auto simp: ParseManifest_def JsonToApexManifestMessage_def
      split: option.splits sum.splits if_splits)

lemma open_flattened_Inr: "open_flattened E p w = (Inr r, w') \<Longrightarrow>
    raw_flattened r \<and> raw_offset r = 0 \<and> raw_size r = 0"
  by (auto simp: open_flattened_def Let_def split: prod.splits sum.splits)

lemma open_archive_Inr: "open_archive E p w = (Inr r, w') \<Longrightarrow> \<not> raw_flattened r"
  by (auto simp: open_archive_def read_entries_def Let_def
      split: prod.splits sum.splits option.splits)

lemma Open_Inr:
  assumes "Open E p w = (Inr a, w')"
  shows "GetPath a = p" "manifest_name (GetManifest a) \<noteq> ''''" "manifest_version (GetManifest a) \<noteq> 0"
    "IsFlattened a \<longleftrightarrow> fst (isFlattenedApex E p w)"
    "IsFlattened a \<Longrightarrow> GetImageOffset a = 0 \<and> GetImageSize a = 0"
  using assms
  by (auto simp: Open_def Let_def ParseManifest_Inr dest: open_flattened_Inr open_archive_Inr
      split: prod.splits sum.splits if_splits)

text \<open>A package opens the same way whatever happened elsewhere, apart from failures.\<close>

lemma FindApexFilesByName_asks: "FindApexFilesByName E p i w = (r, w') \<Longrightarrow> asks w w'"
  unfolding FindApexFilesByName_def by (rule ReadDir_result(1))

lemma FindApexFilesByName_Inr: "FindApexFilesByName E p i w = (Inr ps, w') \<Longrightarrow>
    ps = filter (\<lambda>q. apex_entry i q (node_at w q)) (list_dir w p) \<and>
    (\<exists>m. node_at w p = Some (Directory m))"
  unfolding FindApexFilesByName_def by (auto dest: ReadDir_result(2))

lemma FindApexes_asks: "FindApexes E ps w = (r, w') \<Longrightarrow> asks w w'"
proof (induction ps arbitrary: w r)
  case (Cons p ps)
  then show ?case
    by (fastforce simp: Let_def dest: PathExists_asks FindApexFilesByName_asks
        intro: asks_trans split: prod.splits sum.splits bool.splits)
qed simp

text \<open>Package ids name their package and version: the text after the last \<open>@\<close> is the version.\<close>

lemma at_split_unique:
  assumes "a @ CHR ''@'' # s = b @ CHR ''@'' # t" "CHR ''@'' \<notin> set s" "CHR ''@'' \<notin> set t"
  shows "a = b \<and> s = t"
proof -
  have tail: "takeWhile (\<lambda>c. c \<noteq> CHR ''@'') (rev (a @ CHR ''@'' # s)) = rev s"
    if "CHR ''@'' \<notin> set s" for a s :: string
    using that by (simp, subst takeWhile_append2) auto
  from tail [of s a] tail [of t b] assms have "s = t" by (metis rev_rev_ident)
  with assms(1) show ?thesis by simp
qed

lemma GetPackageId_eq: "GetPackageId m = GetPackageId m' \<longleftrightarrow>
    manifest_name m = manifest_name m' \<and> manifest_version m = manifest_version m'"
proof
  assume "GetPackageId m = GetPackageId m'"
  then have "manifest_name m = manifest_name m' \<and>
      to_string (sint (manifest_version m)) = to_string (sint (manifest_version m'))"
    unfolding GetPackageId_def by (intro at_split_unique) auto
  then show "manifest_name m = manifest_name m' \<and> manifest_version m = manifest_version m'"
    by (auto intro: signed_word_eqI)
qed (simp add: GetPackageId_def)


section \<open>Properties\<close>

text \<open>Where an opened package took its manifest and its image position from.\<close>

definition package_source :: "env \<Rightarrow> world \<Rightarrow> path \<Rightarrow> ApexFile \<Rightarrow> bool" where
  "package_source E w p a \<longleftrightarrow>
     (if IsFlattened a then
        \<exists>m c. node_at w (slash p kManifestFilename) = Some (Reg m c) \<and>
          ParseManifest E c = Inr (GetManifest a) \<and> GetImageOffset a = 0 \<and> GetImageSize a = 0
      else \<exists>m c entries img mf content. node_at w p = Some (Reg m c) \<and>
          zip_open E c = Some entries \<and> map_of entries kImageFilename = Some img \<and>
          map_of entries kManifestFilename = Some mf \<and> extracted mf = Some content \<and>
          ParseManifest E content = Inr (GetManifest a) \<and>
          GetImageOffset a = ucast (zip_offset img) \<and>
          GetImageSize a = ucast (uncompressed_length img))"

lemma open_flattened_source: "open_flattened E p w = (Inr r, w') \<Longrightarrow>
    raw_flattened r \<and> raw_offset r = 0 \<and> raw_size r = 0 \<and>
    (\<exists>m. node_at w (slash p kManifestFilename) = Some (Reg m (raw_manifest r)))"
  by (auto simp: open_flattened_def Let_def split: prod.splits sum.splits
      dest!: ReadFileToString_Inr)

lemma open_archive_source: "open_archive E p w = (Inr r, w') \<Longrightarrow>
    \<not> raw_flattened r \<and> (\<exists>m c entries img mf.
      node_at w p = Some (Reg m c) \<and> zip_open E c = Some entries \<and>
      map_of entries kImageFilename = Some img \<and> map_of entries kManifestFilename = Some mf \<and>
      extracted mf = Some (raw_manifest r) \<and> raw_offset r = ucast (zip_offset img) \<and>
      raw_size r = ucast (uncompressed_length img))"
  by (auto simp: open_archive_def read_entries_def Let_def split: prod.splits sum.splits option.splits
      dest!: ReadFileToString_Inr)

lemma Open_source:
  assumes "Open E p w = (Inr a, w')"
  shows "package_source E w p a"
proof -
  obtain fl w1 where f: "isFlattenedApex E p w = (fl, w1)" by (cases "isFlattenedApex E p w")
  note eq = asks_fields(3) [OF isFlattenedApex_asks [OF f]]
  show ?thesis
  proof (cases fl)
    case True
    with assms f show ?thesis
      by (auto simp: Open_def Let_def package_source_def eq
          dest!: open_flattened_source split: prod.splits sum.splits)
  next
    case False
    with assms f show ?thesis
      by (auto simp: Open_def Let_def package_source_def eq
          dest!: open_archive_source split: prod.splits sum.splits)
  qed
qed

text \<open>C21. A package that opens has a named manifest with a version that is not zero, taken from
  the manifest file of a flattened package or from the archive's manifest entry; the
  image position comes from the payload entry, its 64-bit offset cut to 32 bits. Opening
  changes nothing.
\<close>

theorem Open_correct:
  assumes "Open E p w = (Inr a, w')"
  shows "asks w w' \<and> GetPath a = p \<and> manifest_name (GetManifest a) \<noteq> '''' \<and>
    manifest_version (GetManifest a) \<noteq> 0 \<and> package_source E w p a"
  using Open_asks [OF assms] Open_Inr [OF assms] Open_source [OF assms] by simp

theorem Open_correct_witness:
  "\<exists>a w'. Open sample_env ''/x.apex''
      (sample_world\<lparr>fs := [(''/x.apex'', Reg 420 ''n;1;;|k'')]\<rparr>) = (Inr a, w') \<and>
     manifest_name (GetManifest a) = ''n'' \<and> package_source sample_env
      (sample_world\<lparr>fs := [(''/x.apex'', Reg 420 ''n;1;;|k'')]\<rparr>) ''/x.apex'' a"
proof -
  let ?w = "sample_world\<lparr>fs := [(''/x.apex'', Reg 420 ''n;1;;|k'')]\<rparr>"
  have "case fst (Open sample_env ''/x.apex'' ?w) of
      Inl _ \<Rightarrow> False | Inr a \<Rightarrow> manifest_name (GetManifest a) = ''n''" by code_simp
  then obtain a w' where o: "Open sample_env ''/x.apex'' ?w = (Inr a, w')"
    and n: "manifest_name (GetManifest a) = ''n''"
    by (cases "Open sample_env ''/x.apex'' ?w") (auto split: sum.splits)
  from Open_correct [OF o] o n show ?thesis by blast
qed

text \<open>
  Two manifests have the same package id, hence the same mount point and the same file
  in the directory of active packages, exactly when their name and version agree.
\<close>

theorem GetPackageId_identifies:
  "GetPackageId m = GetPackageId m' \<longleftrightarrow>
     manifest_name m = manifest_name m' \<and> manifest_version m = manifest_version m'"
  by (rule GetPackageId_eq)

text \<open>C32. A successful scan of several directories lists, directory by directory and in
  directory order, the regular files whose names end in \<open>.apex\<close>, and the
  subdirectories where flattened packages are allowed; a directory that is not there
  contributes nothing.
\<close>

theorem FindApexes_correct:
  assumes "FindApexes E dirs w = (Inr ps, w')" and "\<And>h ev. fault E h ev = None"
    and "\<And>h p. \<not> dev_node E h p" and "'''' \<notin> set dirs"
  shows "ps = concat (map (\<lambda>d. filter (\<lambda>q. apex_entry (isPathForBuiltinApexes d) q (node_at w q))
      (if node_at w d = None then [] else list_dir w d)) dirs)"
  using assms(1,4)
proof (induction dirs arbitrary: w ps)
  case (Cons d dirs)
  obtain ex w1 where e: "PathExists E d w = (ex, w1)" by (cases "PathExists E d w")
  note eq = asks_fields [OF PathExists_asks [OF e]]
  from Cons.prems e obtain b where b: "ex = Inr b" by (cases ex) auto
  show ?case
  proof (cases b)
    case False
    with Cons.prems e b have "FindApexes E dirs w1 = (Inr ps, w')" "'''' \<notin> set dirs" by simp_all
    moreover have "d \<noteq> ''''" using Cons.prems(2) by auto
    ultimately show ?thesis using Cons.IH [of w1 ps] PathExists_False [of E d w w1] e b False assms(2)
      by (simp add: eq cong: if_cong)
  next
    case True
    obtain as w2 where f: "FindApexFilesByName E d (isPathForBuiltinApexes d) w1 = (as, w2)"
      by (cases "FindApexFilesByName E d (isPathForBuiltinApexes d) w1")
    note eq2 = asks_fields [OF FindApexFilesByName_asks [OF f]]
    obtain rest w3 where r: "FindApexes E dirs w2 = (rest, w3)" by (cases "FindApexes E dirs w2")
    from Cons.prems e b True f r obtain xs ys where
      "as = Inr xs" "rest = Inr ys" "w3 = w'" "ps = xs @ ys"
      by (cases as; cases rest) auto
    with Cons.IH [of w2 ys] Cons.prems(2) r FindApexFilesByName_Inr [of E d _ w1 xs w2] f
      PathExists_True [of E d w w1] e b True assms(3)
    show ?thesis by (auto simp: eq eq2 cong: if_cong)
  qed
qed simp

theorem FindApexes_correct_witness:
  "fst (FindApexes sample_env [''/data'', ''/none'']
     (sample_world\<lparr>fs := [(''/data'', Directory 493), (''/data/x.apex'', Reg 420 '''')]\<rparr>)) =
   Inr [''/data/x.apex'']"
proof -
  let ?w = "sample_world\<lparr>fs := [(''/data'', Directory 493), (''/data/x.apex'', Reg 420 '''')]\<rparr>"
  have "Ok (fst (FindApexes sample_env [''/data'', ''/none''] ?w))" by code_simp
  then obtain ps w' where r: "FindApexes sample_env [''/data'', ''/none''] ?w = (Inr ps, w')"
    by (metis Ok_iff prod.collapse)
  have "concat (map (\<lambda>d. filter (\<lambda>q. apex_entry (isPathForBuiltinApexes d) q (node_at ?w q))
      (if node_at ?w d = None then [] else list_dir ?w d)) [''/data'', ''/none'']) = [''/data/x.apex'']"
    by code_simp
  moreover note FindApexes_correct [OF r]
  ultimately show ?thesis using r by (simp add: sample_env_def)
qed

end
