(* ===== verification/Db_Populate.thy ===== *)
theory Db_Populate
  imports Apex_File
begin

text \<open>
  \<open>apexd/apex_database.cpp\<close>: at startup the database is rebuilt from \<open>/proc/mounts\<close>.
  A mount below \<open>/apex\<close> is traced to the package it shows: a bind mount by its inode, a
  loop or device-mapper device through \<open>/sys/block\<close>.
\<close>

definition msg_fail_read :: string where "msg_fail_read = ''Fail to read''"
definition msg_stat_failed :: string where "msg_stat_failed = ''stat failed''"
definition msg_no_loop :: string where "msg_no_loop = ''DeviceMapper device with no loop devices''"
definition msg_cant_resolve :: string where "msg_cant_resolve = ''Can't resolve ''"

section \<open>Block devices\<close>

datatype BlockDeviceType = UnknownDevice | LoopDevice | DeviceMapperDevice

definition kDevBlock :: path where "kDevBlock = ''/dev/block''"
definition kSysBlock :: path where "kSysBlock = ''/sys/block''"

text \<open>A \<open>BlockDevice\<close> is its name, the last component of its path.\<close>

definition GetType :: "string \<Rightarrow> BlockDeviceType" where
  "GetType name =
     (if StartsWith name ''loop'' then LoopDevice
      else if StartsWith name ''dm-'' then DeviceMapperDevice
      else UnknownDevice)"

definition SysPath :: "string \<Rightarrow> path" where "SysPath name = slash kSysBlock name"

definition DevPath :: "string \<Rightarrow> path" where "DevPath name = slash kDevBlock name"

definition GetProperty :: "env \<Rightarrow> string \<Rightarrow> path \<Rightarrow> world \<Rightarrow> string status_or \<times> world" where
  "GetProperty E name prop w =
     (let (r, w1) = ReadFileToString E (slash (SysPath name) prop) w
      in (case r of Inl e \<Rightarrow> Inl (PErr msg_fail_read '''' e) | Inr v \<Rightarrow> Inr (trim E v), w1))"

definition GetSlaves :: "env \<Rightarrow> string \<Rightarrow> world \<Rightarrow> string list \<times> world" where
  "GetSlaves E name w =
     (let (slaves, st, w1) = WalkDir E (slash (SysPath name) ''slaves'')
            (\<lambda>entry slaves w.
               let (r, w1) = sys_stat E (DevPath (basename entry)) w
               in (case r of
                     Inr n \<Rightarrow> if is_block n then slaves @ [basename entry] else slaves
                   | Inl _ \<Rightarrow> slaves, w1)) [] w
      in (slaves, w1))"

section \<open>Mount lines\<close>

definition parseMountInfo :: "string \<Rightarrow> path \<times> path" where
  "parseMountInfo mountInfo = (case Split mountInfo CHR '' '' of
      block # mountPoint # _ \<Rightarrow> (block, mountPoint)
    | _ \<Rightarrow> ('''', ''''))"

definition parseMountPoint :: "env \<Rightarrow> path \<Rightarrow> string \<times> int" where
  "parseMountPoint E mountPoint =
     (let packageId = basename mountPoint
      in case Split packageId CHR ''@'' of
           [package, v] \<Rightarrow>
             (package, case parse_int E v of None \<Rightarrow> -1 | Some version \<Rightarrow> version)
         | _ \<Rightarrow> (packageId, -1))"

definition isActiveMountPoint :: "path \<Rightarrow> bool" where
  "isActiveMountPoint mountPoint \<longleftrightarrow> CHR ''@'' \<notin> set mountPoint"

section \<open>Flattened packages by inode\<close>

type_synonym inode_t = "nat \<times> nat"

definition inodeFor :: "env \<Rightarrow> path \<Rightarrow> world \<Rightarrow> inode_t status_or \<times> world" where
  "inodeFor E path w =
     (let (r, w1) = sys_stat E path w
      in (case r of
            Inl e \<Rightarrow> Inl (PErr msg_stat_failed '''' e)
          | Inr _ \<Rightarrow> Inr (inode_of E (hist w) path), w1))"

definition flattened_entry :: "env \<Rightarrow> path \<Rightarrow> (inode_t \<times> path) list \<Rightarrow> world \<Rightarrow>
    (inode_t \<times> path) list \<times> world" where
  "flattened_entry E path m w =
     (let (flattened, w1) = isFlattenedApex E path w
      in if \<not> flattened then (m, w1)
         else let (inode, w2) = inodeFor E path w1
              in (case inode of Inl _ \<Rightarrow> m | Inr i \<Rightarrow> AList.update i path m, w2))"

fun scan_flattened_dirs :: "env \<Rightarrow> path list \<Rightarrow> (inode_t \<times> path) list \<Rightarrow> world \<Rightarrow>
    (inode_t \<times> path) list \<times> world" where
  "scan_flattened_dirs E [] m w = (m, w)"
| "scan_flattened_dirs E (dir # dirs) m w =
     (let (m1, st, w1) = WalkDir E dir (flattened_entry E) m w
      in scan_flattened_dirs E dirs m1 w1)"

definition scanFlattendedPackages :: "env \<Rightarrow> world \<Rightarrow> (inode_t \<times> path) list \<times> world" where
  "scanFlattendedPackages E w = scan_flattened_dirs E kApexPackageBuiltinDirs [] w"

section \<open>From a mount to its package\<close>

definition resolve_block :: "env \<Rightarrow> string \<Rightarrow> path \<Rightarrow> world \<Rightarrow> MountedApexData status_or \<times> world" where
  "resolve_block E block mountPoint w =
     (case GetType block of
        LoopDevice \<Rightarrow>
          (let (backingFile, w1) = GetProperty E block ''loop/backing_file'' w
           in (case backingFile of
                 Inl e \<Rightarrow> Inl e
               | Inr f \<Rightarrow> Inr (MountedApexData (DevPath block) f mountPoint ''''), w1))
      | DeviceMapperDevice \<Rightarrow>
          (let (name, w1) = GetProperty E block ''dm/name'' w
           in case name of
                Inl e \<Rightarrow> (Inl e, w1)
              | Inr n \<Rightarrow>
                  (let (slaves, w2) = GetSlaves E block w1
                   in case slaves of
                        [] \<Rightarrow> (Inl (Err msg_no_loop), w2)
                      | slave # _ \<Rightarrow>
                          if GetType slave \<noteq> LoopDevice then (Inl (Err msg_no_loop), w2)
                          else
                            (let (backingFile, w3) = GetProperty E slave ''loop/backing_file'' w2
                             in (case backingFile of
                                   Inl e \<Rightarrow> Inl e
                                 | Inr f \<Rightarrow> Inr (MountedApexData (DevPath slave) f mountPoint n), w3))))
      | UnknownDevice \<Rightarrow> (Inl (ErrAt msg_cant_resolve (DevPath block)), w))"

definition resolveMountInfo :: "env \<Rightarrow> string \<Rightarrow> path \<Rightarrow> (inode_t \<times> path) list \<Rightarrow> world \<Rightarrow>
    MountedApexData status_or \<times> world" where
  "resolveMountInfo E block mountPoint inodeMap w =
     (let (inode, w1) = inodeFor E mountPoint w
      in case (case inode of Inl _ \<Rightarrow> None | Inr i \<Rightarrow> map_of inodeMap i) of
           Some path \<Rightarrow> (Inr (MountedApexData '''' path mountPoint ''''), w1)
         | None \<Rightarrow> resolve_block E block mountPoint w1)"

text \<open>
  The loop of \<open>PopulateFromMounts\<close>; \<open>activeVersions[package]\<close> is 0 for a package that is
  not in the map. \<open>None\<close> is a failed check.
\<close>

definition active_version :: "(string \<times> int) list \<Rightarrow> string \<Rightarrow> int" where
  "active_version m package = (case map_of m package of None \<Rightarrow> 0 | Some v \<Rightarrow> v)"

fun populate_lines :: "env \<Rightarrow> (inode_t \<times> path) list \<Rightarrow> string list \<Rightarrow> (string \<times> int) list \<Rightarrow> world \<Rightarrow>
    world option" where
  "populate_lines E inodes [] activeVersions w = Some w"
| "populate_lines E inodes (line # lines) activeVersions w =
     (let (block, mountPoint) = parseMountInfo line
      in if dirname mountPoint \<noteq> kApexRoot then populate_lines E inodes lines activeVersions w
         else if isActiveMountPoint mountPoint then populate_lines E inodes lines activeVersions w
         else
           let (mountData, w1) = resolveMountInfo E (basename block) mountPoint inodes w
           in case mountData of
                Inl _ \<Rightarrow> populate_lines E inodes lines activeVersions w1
              | Inr d \<Rightarrow>
                  let (package, version) = parseMountPoint E mountPoint
                  in case AddMountedApex package False d (gMountedApexes w1) of
                       None \<Rightarrow> None
                     | Some db \<Rightarrow>
                         if active_version activeVersions package < version then
                           (case SetLatest package (full_path d) db of
                              None \<Rightarrow> None
                            | Some db' \<Rightarrow>
                                populate_lines E inodes lines
                                  (AList.update package version activeVersions)
                                  (w1\<lparr>gMountedApexes := db'\<rparr>))
                         else populate_lines E inodes lines activeVersions (w1\<lparr>gMountedApexes := db\<rparr>))"

definition PopulateFromMounts :: "env \<Rightarrow> world \<Rightarrow> world option" where
  "PopulateFromMounts E w =
     (let (inodes, w1) = scanFlattendedPackages E w;
          (mounts, w2) = query E (SysOpen ''/proc/mounts'') (\<lambda>w. Inr (proc_mounts E (hist w))) w1
      in populate_lines E inodes (case mounts of Inl _ \<Rightarrow> [] | Inr lines \<Rightarrow> lines) [] w2)"

section \<open>Asking only\<close>

lemma walk_from_asks:
  assumes "\<And>p s w s' w'. fn p s w = (s', w') \<Longrightarrow> asks w w'"
  shows "walk_from E d fn ps s w = (s', r, w') \<Longrightarrow> asks w w'"
proof (induction ps arbitrary: s w)
  case (Cons p ps)
  then show ?case
    by (auto simp: query_eq Let_def split: prod.splits sum.splits)
      (metis assms asks_hist asks_trans)+
qed simp

lemma WalkDir_asks:
  assumes "\<And>p s w s' w'. fn p s w = (s', w') \<Longrightarrow> asks w w'"
    and "WalkDir E d fn s w = (s', r, w')"
  shows "asks w w'"
  using assms(2)
  by (auto simp: WalkDir_def query_eq Let_def split: prod.splits sum.splits
      dest!: walk_from_asks [OF assms(1), rotated])
    (metis asks_hist asks_trans)+

lemma GetProperty_asks: "GetProperty E n p w = (r, w') \<Longrightarrow> asks w w'"
  by (auto simp: GetProperty_def Let_def ReadFileToString_asks split: prod.splits)

lemma GetSlaves_asks: "GetSlaves E n w = (r, w') \<Longrightarrow> asks w w'"
  by (auto simp: GetSlaves_def Let_def split: prod.splits elim!: WalkDir_asks [rotated]
      dest: sys_stat_asks)

lemma inodeFor_asks: "inodeFor E p w = (r, w') \<Longrightarrow> asks w w'"
  by (auto simp: inodeFor_def Let_def sys_stat_asks split: prod.splits)

lemma flattened_entry_asks: "flattened_entry E p m w = (m', w') \<Longrightarrow> asks w w'"
  by (auto simp: flattened_entry_def Let_def dest!: isFlattenedApex_asks inodeFor_asks
      split: prod.splits if_splits elim!: asksE)

lemma scan_flattened_dirs_asks: "scan_flattened_dirs E dirs m w = (m', w') \<Longrightarrow> asks w w'"
  by (induction dirs arbitrary: m w)
    (auto simp: Let_def split: prod.splits
      intro: asks_trans [OF WalkDir_asks [OF flattened_entry_asks]])

lemma resolve_block_asks: "resolve_block E b m w = (r, w') \<Longrightarrow> asks w w'"
  by (auto simp: resolve_block_def Let_def dest!: GetProperty_asks GetSlaves_asks
      split: prod.splits BlockDeviceType.splits sum.splits list.splits if_splits elim!: asksE)

lemma resolveMountInfo_asks: "resolveMountInfo E b m i w = (r, w') \<Longrightarrow> asks w w'"
  by (auto simp: resolveMountInfo_def Let_def dest!: inodeFor_asks resolve_block_asks
      split: prod.splits sum.splits option.splits elim!: asksE)

lemma resolveMountInfo_mount_point: "resolveMountInfo E b m i w = (Inr d, w') \<Longrightarrow> mount_point d = m"
  by (auto simp: resolveMountInfo_def resolve_block_def Let_def
      split: prod.splits sum.splits option.splits BlockDeviceType.splits list.splits if_splits)

section \<open>The latest image after startup\<close>

definition mount_package :: "env \<Rightarrow> MountedApexData \<Rightarrow> string" where
  "mount_package E d = fst (parseMountPoint E (mount_point d))"

definition mount_version :: "env \<Rightarrow> MountedApexData \<Rightarrow> int" where
  "mount_version E d = snd (parseMountPoint E (mount_point d))"

definition populate_inv :: "env \<Rightarrow> apex_db \<Rightarrow> (string \<times> int) list \<Rightarrow> bool" where
  "populate_inv E db av \<longleftrightarrow> db_inv db \<and>
     (\<forall>p d. mounted db p d \<noteq> None \<longrightarrow> mount_package E d = p \<and> mount_version E d \<le> active_version av p) \<and>
     (\<forall>p. 0 < active_version av p \<longrightarrow>
        (\<exists>d e. mounted db p d = Some True \<and> mounted db p e \<noteq> None \<and> full_path d = full_path e \<and>
           mount_version E e = active_version av p)) \<and>
     (\<forall>p d. active_version av p \<le> 0 \<longrightarrow> mounted db p d \<noteq> Some True)"

lemma active_version_update [simp]:
  "active_version (AList.update p v m) q = (if q = p then v else active_version m q)"
  by (simp add: active_version_def update_conv')

lemma populate_inv_add:
  assumes inv: "populate_inv E db av"
    and add: "AddMountedApex p False d db = Some db'"
    and d: "parseMountPoint E (mount_point d) = (p, v)" and v: "v \<le> active_version av p"
  shows "populate_inv E db' av"
proof -
  note new = AddMountedApex_SomeD [OF add inv [unfolded populate_inv_def, THEN conjunct1]]
  from d have mv: "mount_package E d = p" "mount_version E d = v"
    by (simp_all add: mount_package_def mount_version_def)
  have *: "mounted db' q e = Some True \<longleftrightarrow> mounted db q e = Some True" for q e
    using new(2) by (auto simp: new(3))
  have **: "mounted db' q e \<noteq> None \<longleftrightarrow> mounted db q e \<noteq> None \<or> (q = p \<and> e = d)" for q e
    by (auto simp: new(3))
  have ex: "\<exists>da e. mounted db q da = Some True \<and>
      (mounted db q e \<noteq> None \<or> q = p \<and> e = d) \<and> full_path da = full_path e \<and>
      mount_version E e = active_version av q"
    if "0 < active_version av q" for q
    using inv that unfolding populate_inv_def by blast
  show ?thesis
    unfolding populate_inv_def * **
  proof (intro conjI allI impI)
    show "db_inv db'" by (rule new(1))
  next
    fix q e assume "mounted db q e \<noteq> None \<or> q = p \<and> e = d"
    then show "mount_package E e = q" "mount_version E e \<le> active_version av q"
      using inv mv v unfolding populate_inv_def by blast+
  next
    fix q assume "0 < active_version av q"
    then show "\<exists>da e. mounted db q da = Some True \<and> (mounted db q e \<noteq> None \<or> q = p \<and> e = d) \<and>
        full_path da = full_path e \<and> mount_version E e = active_version av q" by (rule ex)
  next
    fix q e assume "active_version av q \<le> 0"
    then show "mounted db q e \<noteq> Some True" using inv unfolding populate_inv_def by blast
  qed
qed

lemma populate_inv_latest:
  assumes inv: "populate_inv E db av" and add: "AddMountedApex p False d db = Some db1"
    and lat: "SetLatest p (full_path d) db1 = Some db2"
    and d: "parseMountPoint E (mount_point d) = (p, v)"
    and v: "active_version av p < v" "0 < v \<or> 0 \<le> active_version av p"
  shows "populate_inv E db2 (AList.update p v av)"
proof -
  note new = AddMountedApex_SomeD [OF add inv [unfolded populate_inv_def, THEN conjunct1]]
  from d have mv: "mount_package E d = p" "mount_version E d = v"
    by (simp_all add: mount_package_def mount_version_def)
  from mdb.latest_law [OF new(1) lat] obtain d' where l: "db_inv db2" "full_path d' = full_path d"
    "mounted db1 p d' \<noteq> None"
    "mounted db2 = (mounted db1)(p := \<lambda>e. map_option (\<lambda>_. e = d') (mounted db1 p e))" by blast
  have dom: "mounted db2 q e \<noteq> None \<longleftrightarrow> mounted db q e \<noteq> None \<or> q = p \<and> e = d" for q e
    by (auto simp: l(4) new(3))
  have lt: "mounted db2 q e = Some True \<longleftrightarrow> (if q = p then e = d' else mounted db q e = Some True)" for q e
    using l(3) by (auto simp: l(4) new(3) split: if_splits)
  have old: "mount_package E e = q \<and> mount_version E e \<le> active_version av q"
    if "mounted db q e \<noteq> None" for q e
    using inv that unfolding populate_inv_def by blast
  show ?thesis
    unfolding populate_inv_def dom lt active_version_update
  proof (intro conjI allI impI)
    show "db_inv db2" by (rule l(1))
  next
    fix q e assume "mounted db q e \<noteq> None \<or> q = p \<and> e = d"
    then show "mount_package E e = q" "mount_version E e \<le> (if q = p then v else active_version av q)"
      using old [of q e] mv v(1) by auto
  next
    fix q assume a: "0 < (if q = p then v else active_version av q)"
    show "\<exists>da e. (if q = p then da = d' else mounted db q da = Some True) \<and>
        (mounted db q e \<noteq> None \<or> q = p \<and> e = d) \<and> full_path da = full_path e \<and>
        mount_version E e = (if q = p then v else active_version av q)"
    proof (cases "q = p")
      case True
      with l(2) mv show ?thesis by auto
    next
      case False
      with a inv show ?thesis unfolding populate_inv_def by auto
    qed
  next
    fix q e assume a: "(if q = p then v else active_version av q) \<le> 0"
    with v have "q \<noteq> p" by auto
    with a inv show "\<not> (if q = p then e = d' else mounted db q e = Some True)"
      unfolding populate_inv_def by simp
  qed
qed

lemma populate_lines_inv:
  assumes "populate_lines E inodes lines av w = Some w'"
    and "populate_inv E (gMountedApexes w) av" and "\<forall>p. 0 \<le> active_version av p"
  shows "\<exists>av'. populate_inv E (gMountedApexes w') av'"
  using assms
proof (induction lines arbitrary: av w)
  case (Cons line lines)
  obtain block mp where l: "parseMountInfo line = (block, mp)" by (cases "parseMountInfo line")
  show ?case
  proof (cases "dirname mp \<noteq> kApexRoot \<or> isActiveMountPoint mp")
    case True
    with Cons l show ?thesis by (auto split: if_splits)
  next
    case False
    obtain r w1 where r: "resolveMountInfo E (basename block) mp inodes w = (r, w1)"
      by (cases "resolveMountInfo E (basename block) mp inodes w")
    note eq = asks_fields(7) [OF resolveMountInfo_asks [OF r]]
    show ?thesis
    proof (cases r)
      case (Inl e)
      with Cons l r False eq show ?thesis by auto
    next
      case (Inr d)
      obtain p v where pv: "parseMountPoint E mp = (p, v)" by (cases "parseMountPoint E mp")
      from r Inr have mp: "mount_point d = mp" by (auto dest: resolveMountInfo_mount_point)
      from Cons.prems(1) l r Inr False pv eq obtain db where
        add: "AddMountedApex p False d (gMountedApexes w) = Some db"
        by (auto split: option.splits)
      show ?thesis
      proof (cases "active_version av p < v")
        case True
        from Cons.prems(1) l r Inr False pv eq add True obtain db2 where
          lat: "SetLatest p (full_path d) db = Some db2" and
          rest: "populate_lines E inodes lines (AList.update p v av) (w1\<lparr>gMountedApexes := db2\<rparr>) = Some w'"
          by (auto split: option.splits)
        have "populate_inv E db2 (AList.update p v av)"
          by (rule populate_inv_latest [OF Cons.prems(2) add lat])
            (use pv mp True Cons.prems(3) in auto)
        moreover have "\<forall>q. 0 \<le> active_version (AList.update p v av) q"
          using Cons.prems(3) True by (auto intro: order_trans [OF _ less_imp_le])
        ultimately show ?thesis using Cons.IH [OF rest] by simp
      next
        case nl: False
        have "populate_inv E db av"
          by (rule populate_inv_add [OF Cons.prems(2) add]) (use pv mp nl in auto)
        moreover from Cons.prems(1) l r Inr False pv eq add nl have
          "populate_lines E inodes lines av (w1\<lparr>gMountedApexes := db\<rparr>) = Some w'" by simp
        ultimately show ?thesis using Cons.IH Cons.prems(3) by simp
      qed
    qed
  qed
qed auto

section \<open>Which mounts are recorded\<close>

text \<open>A world that differs from another in its history and in the database alone.\<close>

definition asks_but_db :: "world \<Rightarrow> world \<Rightarrow> bool" where
  "asks_but_db w w' \<longleftrightarrow> (\<exists>h db. w' = w\<lparr>hist := h, gMountedApexes := db\<rparr>)"

lemma asks_but_db_refl [simp]: "asks_but_db w w"
  unfolding asks_but_db_def by (rule exI [of _ "hist w"], rule exI [of _ "gMountedApexes w"]) simp

lemma asks_but_dbE: "asks_but_db w w' \<Longrightarrow> (\<And>h db. w' = w\<lparr>hist := h, gMountedApexes := db\<rparr> \<Longrightarrow> P) \<Longrightarrow> P"
  by (auto simp: asks_but_db_def)

lemma asks_but_dbI: "asks_but_db w (w\<lparr>hist := h, gMountedApexes := db\<rparr>)"
  unfolding asks_but_db_def by blast

lemma asks_but_db_trans [trans]: "asks_but_db u v \<Longrightarrow> asks_but_db v w \<Longrightarrow> asks_but_db u w"
  by (elim asks_but_dbE) (simp add: asks_but_dbI)

lemma asks_asks_but_db: "asks w w' \<Longrightarrow> asks_but_db w w'"
proof -
  assume "asks w w'"
  then obtain h where "w' = w\<lparr>hist := h\<rparr>" by (rule asksE)
  then have "w' = w\<lparr>hist := h, gMountedApexes := gMountedApexes w\<rparr>" by simp
  then show ?thesis unfolding asks_but_db_def by blast
qed

lemma asks_but_db_assign [simp]: "asks_but_db w w' \<Longrightarrow> asks_but_db w (w'\<lparr>gMountedApexes := db\<rparr>)"
  by (elim asks_but_dbE) (simp add: asks_but_dbI)

lemma asks_but_db_node_at: "asks_but_db w w' \<Longrightarrow> node_at w' p = node_at w p"
  by (elim asks_but_dbE) (simp add: node_at_def mount_over_def split: option.split)

text \<open>
  A line of \<open>/proc/mounts\<close> that is the mount of a package: its mount point lies right below
  \<open>/apex\<close> and names a version. What it shows: a flattened package found below the built-in
  directories, the file behind a loop device, or the one behind the loop device under a
  device-mapper device.
\<close>

definition package_mount :: "string \<Rightarrow> bool" where
  "package_mount line \<longleftrightarrow> dirname (snd (parseMountInfo line)) = ''/apex'' \<and>
     CHR ''@'' \<in> set (snd (parseMountInfo line))"

definition image_on_loop :: "env \<Rightarrow> world \<Rightarrow> string \<Rightarrow> MountedApexData \<Rightarrow> bool" where
  "image_on_loop E w dev d \<longleftrightarrow> StartsWith dev ''loop'' \<and> loop_name d = slash ''/dev/block'' dev \<and>
     (\<exists>m c. node_at w (slash (slash ''/sys/block'' dev) ''loop/backing_file'') = Some (Reg m c) \<and>
        full_path d = trim E c)"

definition image_of_line :: "env \<Rightarrow> (inode_t \<times> path) list \<Rightarrow> world \<Rightarrow> string \<Rightarrow> MountedApexData \<Rightarrow> bool" where
  "image_of_line E inodes w line d \<longleftrightarrow> (case parseMountInfo line of (block, mp) \<Rightarrow>
     mount_point d = mp \<and>
     (loop_name d = '''' \<and> device_name d = '''' \<and> full_path d \<in> snd ` set inodes
      \<or> device_name d = '''' \<and> image_on_loop E w (basename block) d
      \<or> StartsWith (basename block) ''dm-'' \<and> (\<exists>dev. image_on_loop E w dev d) \<and>
        (\<exists>m n. node_at w (slash (slash ''/sys/block'' (basename block)) ''dm/name'') = Some (Reg m n) \<and>
          device_name d = trim E n)))"

text \<open>What the daemon learns of a line, asked in a world that differs in history and database.\<close>

definition line_answer :: "env \<Rightarrow> (inode_t \<times> path) list \<Rightarrow> world \<Rightarrow> string \<Rightarrow>
    MountedApexData status_or \<Rightarrow> bool" where
  "line_answer E inodes w line r \<longleftrightarrow> (case parseMountInfo line of (block, mp) \<Rightarrow>
     \<exists>v v'. asks_but_db w v \<and> resolveMountInfo E (basename block) mp inodes v = (r, v'))"

lemma line_answer_later: "asks_but_db w v \<Longrightarrow> line_answer E inodes v line r \<Longrightarrow> line_answer E inodes w line r"
  by (auto simp: line_answer_def split: prod.splits intro: asks_but_db_trans)

lemma GetProperty_Inr: "GetProperty E n p w = (Inr s, w') \<Longrightarrow>
    \<exists>m c. node_at w (slash (slash ''/sys/block'' n) p) = Some (Reg m c) \<and> s = trim E c"
  by (auto simp: GetProperty_def Let_def SysPath_def kSysBlock_def
      dest!: ReadFileToString_Inr split: prod.splits sum.splits)

lemma resolve_block_image:
  assumes "resolve_block E (basename block) mp w = (Inr d, w')"
    and "parseMountInfo line = (block, mp)"
  shows "image_of_line E inodes w line d"
proof (cases "GetType (basename block)")
  case UnknownDevice
  with assms show ?thesis by (simp add: resolve_block_def)
next
  case LoopDevice
  with assms show ?thesis
    by (auto simp: resolve_block_def image_of_line_def image_on_loop_def GetType_def DevPath_def
        kDevBlock_def dest!: GetProperty_Inr split: prod.splits sum.splits if_splits)
next
  case DeviceMapperDevice
  with assms(1) obtain n w1 slave rest w2 f w3 where
    n: "GetProperty E (basename block) ''dm/name'' w = (Inr n, w1)" and
    s: "GetSlaves E (basename block) w1 = (slave # rest, w2)" and
    t: "GetType slave = LoopDevice" and
    f: "GetProperty E slave ''loop/backing_file'' w2 = (Inr f, w3)" and
    d: "d = MountedApexData (DevPath slave) f mp n"
    by (auto simp: resolve_block_def Let_def split: prod.splits sum.splits list.splits if_splits)
  have "node_at w2 = node_at w"
    using GetProperty_asks [OF n] GetSlaves_asks [OF s] by (auto elim!: asksE simp: node_at_def)
  with GetProperty_Inr [OF f] t d have "image_on_loop E w slave d"
    by (auto simp: image_on_loop_def GetType_def DevPath_def kDevBlock_def split: if_splits)
  moreover have "StartsWith (basename block) ''dm-''"
    using DeviceMapperDevice by (auto simp: GetType_def split: if_splits)
  ultimately show ?thesis
    using GetProperty_Inr [OF n] d assms(2) by (auto simp: image_of_line_def)
qed

lemma resolveMountInfo_image:
  assumes "resolveMountInfo E (basename block) mp inodes w = (Inr d, w')"
    and "parseMountInfo line = (block, mp)"
  shows "image_of_line E inodes w line d"
proof -
  obtain i w1 where i: "inodeFor E mp w = (i, w1)" by (cases "inodeFor E mp w")
  show ?thesis
  proof (cases "case i of Inl _ \<Rightarrow> None | Inr j \<Rightarrow> map_of inodes j")
    case None
    with assms(1) i have "resolve_block E (basename block) mp w1 = (Inr d, w')"
      by (simp add: resolveMountInfo_def)
    from resolve_block_image [OF this assms(2)] show ?thesis
      using asks_but_db_node_at [OF asks_asks_but_db [OF inodeFor_asks [OF i]]]
      by (simp add: image_of_line_def image_on_loop_def)
  next
    case (Some p)
    then have "p \<in> snd ` set inodes" by (force split: sum.splits dest: map_of_SomeD)
    moreover from Some assms(1) i have "d = MountedApexData '''' p mp ''''"
      by (simp add: resolveMountInfo_def)
    ultimately show ?thesis using assms(2) by (simp add: image_of_line_def)
  qed
qed

lemma line_answer_image: "line_answer E inodes w line (Inr d) \<Longrightarrow> image_of_line E inodes w line d"
proof (cases "parseMountInfo line")
  fix block mp
  assume "line_answer E inodes w line (Inr d)" and l: "parseMountInfo line = (block, mp)"
  then obtain v v' where v: "asks_but_db w v"
    and r: "resolveMountInfo E (basename block) mp inodes v = (Inr d, v')"
    by (auto simp: line_answer_def)
  from resolveMountInfo_image [OF r l] show ?thesis
    by (simp add: image_of_line_def image_on_loop_def asks_but_db_node_at [OF v])
qed

definition answers :: "env \<Rightarrow> (inode_t \<times> path) list \<Rightarrow> world \<Rightarrow> string list \<Rightarrow>
    MountedApexData status_or list \<Rightarrow> bool" where
  "answers E inodes w lines rs \<longleftrightarrow> list_all2 (line_answer E inodes w) (filter package_mount lines) rs"

lemma answers_later: "asks_but_db w v \<Longrightarrow> answers E inodes v lines rs \<Longrightarrow> answers E inodes w lines rs"
  unfolding answers_def by (erule list_all2_mono) (rule line_answer_later)

lemma populate_lines_records:
  assumes "populate_lines E inodes lines av w = Some w'" and "db_inv (gMountedApexes w)"
  shows "asks_but_db w w' \<and> (\<exists>rs. answers E inodes w lines rs \<and>
    (\<forall>p d. mounted (gMountedApexes w') p d \<noteq> None \<longleftrightarrow> mounted (gMountedApexes w) p d \<noteq> None \<or>
       Inr d \<in> set rs \<and> mount_package E d = p))"
  using assms
proof (induction lines arbitrary: av w)
  case Nil
  then show ?case by (auto simp: answers_def)
next
  case (Cons line lines)
  obtain block mp where l: "parseMountInfo line = (block, mp)" by (cases "parseMountInfo line")
  show ?case
  proof (cases "dirname mp \<noteq> kApexRoot \<or> isActiveMountPoint mp")
    case True
    then have "\<not> package_mount line"
      using l by (auto simp: package_mount_def isActiveMountPoint_def kApexRoot_def)
    moreover from Cons.prems(1) l True have "populate_lines E inodes lines av w = Some w'"
      by (auto split: if_splits)
    ultimately show ?thesis using Cons.IH Cons.prems(2) by (simp add: answers_def)
  next
    case False
    then have pm: "package_mount line"
      using l by (auto simp: package_mount_def isActiveMountPoint_def kApexRoot_def)
    obtain r w1 where r: "resolveMountInfo E (basename block) mp inodes w = (r, w1)"
      by (cases "resolveMountInfo E (basename block) mp inodes w")
    note eq = asks_fields(7) [OF resolveMountInfo_asks [OF r]]
    have ans: "line_answer E inodes w line r" using r l by (auto simp: line_answer_def intro: asks_but_db_refl)
    have step: ?thesis
      if run: "populate_lines E inodes lines av1 (w1\<lparr>gMountedApexes := db\<rparr>) = Some w'" and inv: "db_inv db"
        and dom: "\<forall>p d. mounted db p d \<noteq> None \<longleftrightarrow> mounted (gMountedApexes w) p d \<noteq> None \<or>
          r = Inr d \<and> mount_package E d = p" for av1 db
    proof -
      from Cons.IH [OF run] inv obtain rs where "asks_but_db (w1\<lparr>gMountedApexes := db\<rparr>) w'"
        and rs: "answers E inodes (w1\<lparr>gMountedApexes := db\<rparr>) lines rs"
        and d: "\<forall>p d. mounted (gMountedApexes w') p d \<noteq> None \<longleftrightarrow> mounted db p d \<noteq> None \<or>
          Inr d \<in> set rs \<and> mount_package E d = p" by auto
      moreover have a: "asks_but_db w (w1\<lparr>gMountedApexes := db\<rparr>)"
        using asks_asks_but_db [OF resolveMountInfo_asks [OF r]] by simp
      moreover have "answers E inodes w (line # lines) (r # rs)"
        using answers_later [OF a rs] ans pm by (simp add: answers_def)
      moreover have "mounted (gMountedApexes w') p x \<noteq> None \<longleftrightarrow> mounted (gMountedApexes w) p x \<noteq> None \<or>
          Inr x \<in> set (r # rs) \<and> mount_package E x = p" for p x
        using d dom by auto
      ultimately show ?thesis by (blast intro: asks_but_db_trans)
    qed
    show ?thesis
    proof (cases r)
      case (Inl e)
      with Cons.prems(1) l r False have "populate_lines E inodes lines av w1 = Some w'" by simp
      moreover have "w1 = w1\<lparr>gMountedApexes := gMountedApexes w\<rparr>" using eq by simp
      ultimately have "populate_lines E inodes lines av (w1\<lparr>gMountedApexes := gMountedApexes w\<rparr>) = Some w'"
        by simp
      then show ?thesis by (rule step) (use Cons.prems(2) Inl in auto)
    next
      case (Inr d)
      obtain p v where pv: "parseMountPoint E mp = (p, v)" by (cases "parseMountPoint E mp")
      from r Inr have "mount_point d = mp" by (auto dest: resolveMountInfo_mount_point)
      with pv have mp: "mount_package E d = p" by (simp add: mount_package_def)
      from Cons.prems(1) l r Inr False pv eq obtain db where
        add: "AddMountedApex p False d (gMountedApexes w) = Some db"
        by (auto split: option.splits)
      note new = AddMountedApex_SomeD [OF add Cons.prems(2)]
      have dom: "mounted db q x \<noteq> None \<longleftrightarrow> mounted (gMountedApexes w) q x \<noteq> None \<or>
          r = Inr x \<and> mount_package E x = q" for q x
        using mp Inr by (auto simp: new(3))
      show ?thesis
      proof (cases "active_version av p < v")
        case True
        from Cons.prems(1) l r Inr False pv eq add True obtain db2 where
          lat: "SetLatest p (full_path d) db = Some db2" and
          rest: "populate_lines E inodes lines (AList.update p v av) (w1\<lparr>gMountedApexes := db2\<rparr>) = Some w'"
          by (auto split: option.splits)
        show ?thesis
          using mdb.latest_dom [OF new(1) lat] dom mdb.latest_law [OF new(1) lat]
          by (intro step [OF rest]) auto
      next
        case nl: False
        from Cons.prems(1) l r Inr False pv eq add nl have
          "populate_lines E inodes lines av (w1\<lparr>gMountedApexes := db\<rparr>) = Some w'" by simp
        then show ?thesis by (rule step) (use new(1) dom in auto)
      qed
    qed
  qed
qed

section \<open>Properties\<close>

text \<open>C26. The database after startup, where it was empty. Only it changes. The lines of \<open>/proc/mounts\<close> (none if
  it cannot be opened) whose mount point is right below \<open>/apex\<close> and contains \<open>@\<close> are asked in
  turn, and recorded are exactly the images of those whose image can be traced, each under the
  package its mount point names; an image is what its line shows: a flattened package found
  below the built-in directories, or the file behind the loop device, below a device-mapper
  device where there is one. A package has a latest image exactly when one of its mounts
  names a positive version, and then it is an image whose file is also mounted with the
  greatest of these versions.
\<close>

theorem PopulateFromMounts_latest:
  assumes "PopulateFromMounts E w = Some w'" and "gMountedApexes w = []"
  shows "db_inv (gMountedApexes w') \<and> asks_but_db w w' \<and>
    (\<exists>inodes v lines rs. scanFlattendedPackages E w = (inodes, v) \<and>
       lines = (case fault E (hist v) (SysOpen ''/proc/mounts'') of None \<Rightarrow> proc_mounts E (hist v) | Some _ \<Rightarrow> []) \<and>
       list_all2 (line_answer E inodes w) (filter package_mount lines) rs \<and>
       (\<forall>p d. mounted (gMountedApexes w') p d \<noteq> None \<longleftrightarrow> Inr d \<in> set rs \<and> mount_package E d = p) \<and>
       (\<forall>p d. mounted (gMountedApexes w') p d \<noteq> None \<longrightarrow>
          (\<exists>line \<in> set lines. package_mount line \<and> image_of_line E inodes w line d))) \<and>
    (\<forall>p. (\<exists>d. mounted (gMountedApexes w') p d = Some True) \<longleftrightarrow>
       (\<exists>d. mounted (gMountedApexes w') p d \<noteq> None \<and> 0 < mount_version E d)) \<and>
    (\<forall>p d. mounted (gMountedApexes w') p d = Some True \<longrightarrow>
       (\<exists>e. mounted (gMountedApexes w') p e \<noteq> None \<and> full_path e = full_path d \<and>
          (\<forall>x. mounted (gMountedApexes w') p x \<noteq> None \<longrightarrow> mount_version E x \<le> mount_version E e)))"
proof -
  obtain inodes w1 where s: "scanFlattendedPackages E w = (inodes, w1)"
    by (cases "scanFlattendedPackages E w")
  then have w1: "gMountedApexes w1 = []"
    using asks_fields(7) [OF scan_flattened_dirs_asks] assms(2)
    by (auto simp: scanFlattendedPackages_def)
  define lines where "lines = (case fault E (hist w1) (SysOpen ''/proc/mounts'') of
    None \<Rightarrow> proc_mounts E (hist w1) | Some _ \<Rightarrow> [])"
  define w2 where "w2 = w1\<lparr>hist := SysOpen ''/proc/mounts'' # hist w1\<rparr>"
  have run: "populate_lines E inodes lines [] w2 = Some w'"
    using assms(1) s by (simp add: PopulateFromMounts_def query_def lines_def w2_def split: option.splits)
  have db2: "gMountedApexes w2 = []" using w1 by (simp add: w2_def)
  have "asks w w1" using s by (simp add: scanFlattendedPackages_def scan_flattened_dirs_asks)
  then have a2: "asks_but_db w w2"
    unfolding w2_def by (intro asks_asks_but_db) (rule asks_trans [OF _ asks_hist])
  have "db_inv (gMountedApexes w2)" using db2 by simp
  from populate_lines_records [OF run this] obtain rs where a': "asks_but_db w2 w'"
    and rs: "answers E inodes w2 lines rs"
    and dom: "\<forall>p d. mounted (gMountedApexes w') p d \<noteq> None \<longleftrightarrow> Inr d \<in> set rs \<and> mount_package E d = p"
    by (auto simp: db2 mounted_def ForallMountedApexes_def)
  have rs': "list_all2 (line_answer E inodes w) (filter package_mount lines) rs"
    using answers_later [OF a2 rs] by (simp add: answers_def)
  have shown: "\<exists>line \<in> set lines. package_mount line \<and> image_of_line E inodes w line d"
    if "mounted (gMountedApexes w') p d \<noteq> None" for p d
  proof -
    from that dom have "Inr d \<in> set rs" by blast
    with rs' obtain line where "line \<in> set (filter package_mount lines)"
      "line_answer E inodes w line (Inr d)"
      by (metis in_set_conv_nth list_all2_conv_all_nth)
    then show ?thesis by (auto dest: line_answer_image)
  qed
  have "populate_inv E (gMountedApexes w2) []"
    by (simp add: db2 populate_inv_def active_version_def mounted_def)
  from populate_lines_inv [OF run this] obtain av where
    inv: "populate_inv E (gMountedApexes w') av" by (auto simp: active_version_def)
  then have uniq: "mounted (gMountedApexes w') p d = Some True \<Longrightarrow>
      mounted (gMountedApexes w') p e = Some True \<Longrightarrow> d = e" for p d e
    unfolding populate_inv_def by (blast intro: mounted_unique_latest)
  have le: "mounted (gMountedApexes w') p d \<noteq> None \<Longrightarrow>
      mount_package E d = p \<and> mount_version E d \<le> active_version av p" for p d
    using inv unfolding populate_inv_def by blast
  have max: "\<exists>d e. mounted (gMountedApexes w') p d = Some True \<and> mounted (gMountedApexes w') p e \<noteq> None \<and>
      full_path d = full_path e \<and> mount_version E e = active_version av p"
    if "0 < active_version av p" for p
    using inv that unfolding populate_inv_def by blast
  have none: "mounted (gMountedApexes w') p d \<noteq> Some True" if "active_version av p \<le> 0" for p d
    using inv that unfolding populate_inv_def by blast
  show ?thesis
  proof (intro conjI allI impI iffI)
    show "db_inv (gMountedApexes w')" using inv unfolding populate_inv_def by blast
    show "asks_but_db w w'" using a2 a' by (rule asks_but_db_trans)
    show "\<exists>inodes v lines rs. scanFlattendedPackages E w = (inodes, v) \<and>
       lines = (case fault E (hist v) (SysOpen ''/proc/mounts'') of None \<Rightarrow> proc_mounts E (hist v) | Some _ \<Rightarrow> []) \<and>
       list_all2 (line_answer E inodes w) (filter package_mount lines) rs \<and>
       (\<forall>p d. mounted (gMountedApexes w') p d \<noteq> None \<longleftrightarrow> Inr d \<in> set rs \<and> mount_package E d = p) \<and>
       (\<forall>p d. mounted (gMountedApexes w') p d \<noteq> None \<longrightarrow>
          (\<exists>line \<in> set lines. package_mount line \<and> image_of_line E inodes w line d))"
      using s lines_def rs' dom shown by blast
    show "\<exists>d. mounted (gMountedApexes w') p d \<noteq> None \<and> 0 < mount_version E d"
      if "\<exists>d. mounted (gMountedApexes w') p d = Some True" for p
      using that none [of p] max [of p] by (metis not_le)
    show "\<exists>d. mounted (gMountedApexes w') p d = Some True"
      if "\<exists>d. mounted (gMountedApexes w') p d \<noteq> None \<and> 0 < mount_version E d" for p
      using that le max by (meson less_le_trans)
    fix p d assume d: "mounted (gMountedApexes w') p d = Some True"
    then have "0 < active_version av p" using none [of p d] by force
    from max [OF this] obtain d' e where "mounted (gMountedApexes w') p d' = Some True"
      "mounted (gMountedApexes w') p e \<noteq> None" "full_path d' = full_path e"
      "mount_version E e = active_version av p" by blast
    with uniq [OF d] le show "\<exists>e. mounted (gMountedApexes w') p e \<noteq> None \<and> full_path e = full_path d \<and>
        (\<forall>x. mounted (gMountedApexes w') p x \<noteq> None \<longrightarrow> mount_version E x \<le> mount_version E e)"
      by metis
  qed
qed

text \<open>Two versions of a package mounted from two loop devices.\<close>

definition sample_mounts_env :: env where
  "sample_mounts_env = sample_env\<lparr>proc_mounts := (\<lambda>_.
     [''/dev/block/loop1 /apex/n@1 ext4 ro'', ''/dev/block/loop2 /apex/n@2 ext4 ro'',
      ''/dev/block/loop1 /apex/n ext4 ro'', ''tmpfs /tmp tmpfs rw''])\<rparr>"

definition sample_mounts_world :: world where
  "sample_mounts_world = sample_world\<lparr>fs :=
     [(''/sys/block/loop1/loop/backing_file'', Reg 420 ''/data/apex/active/n@1.apex''),
      (''/sys/block/loop2/loop/backing_file'', Reg 420 ''/data/apex/active/n@2.apex'')]\<rparr>"

theorem PopulateFromMounts_latest_witness:
  "\<exists>w'. PopulateFromMounts sample_mounts_env sample_mounts_world = Some w' \<and>
     db_inv (gMountedApexes w') \<and> asks_but_db sample_mounts_world w' \<and>
     mounted (gMountedApexes w') ''n'' (MountedApexData ''/dev/block/loop1''
       ''/data/apex/active/n@1.apex'' ''/apex/n@1'' '''') = Some False \<and>
     mounted (gMountedApexes w') ''n'' (MountedApexData ''/dev/block/loop2''
       ''/data/apex/active/n@2.apex'' ''/apex/n@2'' '''') = Some True"
proof -
  have "case PopulateFromMounts sample_mounts_env sample_mounts_world of
      None \<Rightarrow> False | Some w' \<Rightarrow>
        mounted (gMountedApexes w') ''n'' (MountedApexData ''/dev/block/loop1''
          ''/data/apex/active/n@1.apex'' ''/apex/n@1'' '''') = Some False \<and>
        mounted (gMountedApexes w') ''n'' (MountedApexData ''/dev/block/loop2''
          ''/data/apex/active/n@2.apex'' ''/apex/n@2'' '''') = Some True" by code_simp
  then obtain w' where run: "PopulateFromMounts sample_mounts_env sample_mounts_world = Some w'"
    and entries: "mounted (gMountedApexes w') ''n'' (MountedApexData ''/dev/block/loop1''
       ''/data/apex/active/n@1.apex'' ''/apex/n@1'' '''') = Some False"
     "mounted (gMountedApexes w') ''n'' (MountedApexData ''/dev/block/loop2''
       ''/data/apex/active/n@2.apex'' ''/apex/n@2'' '''') = Some True"
    by (auto split: option.splits)
  have "gMountedApexes sample_mounts_world = []"
    by (simp add: sample_mounts_world_def sample_world_def)
  from PopulateFromMounts_latest [OF run this] show ?thesis using run entries by blast
qed

lemma Split_two_parts: "\<exists>x y zs. Split (s @ d # t) d = x # y # zs"
proof (induction s)
  case Nil
  then show ?case by (cases "Split t d") auto
next
  case (Cons c s)
  then show ?case by auto
qed

text \<open>C34. What parsing the mount point of a package at startup gives back, for a package name
  without \<open>/\<close> (such a name would not be mounted right below \<open>/apex\<close>). If the name has no
  \<open>@\<close> either, it is the name, and the version when this fits an \<open>int\<close>; the version of a
  manifest is 64 bits wide, and a wider version reads as -1, so such a package is never the
  latest after a restart. A name with \<open>@\<close>, which a manifest may have, is not given back: the
  package is then filed under its whole identifier, with version -1.
\<close>

theorem mount_point_round_trip:
  assumes "CHR ''/'' \<notin> set (manifest_name m)"
    and "\<And>i. parse_int E (to_string i) = (if - (2 ^ 31) \<le> i \<and> i < 2 ^ 31 then Some i else None)"
  shows "parseMountPoint E (slash kApexRoot (GetPackageId m)) =
    (if CHR ''@'' \<in> set (manifest_name m)
     then (manifest_name m @ ''@'' @ to_string (sint (manifest_version m)), -1)
     else (manifest_name m, if - (2 ^ 31) \<le> sint (manifest_version m) \<and> sint (manifest_version m) < 2 ^ 31
       then sint (manifest_version m) else -1))"
proof -
  have "CHR ''/'' \<notin> set (GetPackageId m)" using assms(1) by (simp add: GetPackageId_def)
  then have base: "basename (slash kApexRoot (GetPackageId m)) = GetPackageId m" by simp
  show ?thesis
  proof (cases "CHR ''@'' \<in> set (manifest_name m)")
    case False
    then have "Split (GetPackageId m) CHR ''@'' =
        [manifest_name m, to_string (sint (manifest_version m))]"
      by (simp add: GetPackageId_def Split_append)
    with False base show ?thesis by (simp add: parseMountPoint_def assms(2))
  next
    case True
    then obtain a b where ab: "manifest_name m = a @ CHR ''@'' # b" "CHR ''@'' \<notin> set a"
      by (metis split_list_first)
    obtain x y zs where "Split (b @ ''@'' @ to_string (sint (manifest_version m))) CHR ''@'' = x # y # zs"
      using Split_two_parts [of b "CHR ''@''" "to_string (sint (manifest_version m))"] by auto
    with ab have "Split (GetPackageId m) CHR ''@'' = a # x # y # zs"
      by (simp add: GetPackageId_def Split_append)
    with True base show ?thesis by (simp add: parseMountPoint_def GetPackageId_def)
  qed
qed

theorem mount_point_round_trip_witness:
  "parseMountPoint
     (sample_env\<lparr>parse_int := \<lambda>s. let i = sample_parse_int s in
        if - (2 ^ 31) \<le> i \<and> i < 2 ^ 31 then Some i else None\<rparr>)
     (slash kApexRoot (GetPackageId (GetManifest sample_apex\<lparr>manifest_version := 2 ^ 40\<rparr>))) = (''n'', -1)"
  using mount_point_round_trip [of "GetManifest sample_apex\<lparr>manifest_version := 2 ^ 40\<rparr>"
      "sample_env\<lparr>parse_int := \<lambda>s. let i = sample_parse_int s in
        if - (2 ^ 31) \<le> i \<and> i < 2 ^ 31 then Some i else None\<rparr>"]
  by (simp add: sample_apex_def Let_def)

end
