(* ===== verification/Apexd_Loop.thy ===== *)
theory Apexd_Loop
  imports Apexd_Utils
begin

text \<open>
  \<open>apexd/apexd_loop.cpp\<close>: loop devices. A device is made in several \<open>ioctl\<close>s; when one
  of them fails, the descriptor's destructor clears the device again.
\<close>

definition msg_dev_block :: string where
  "msg_dev_block = ''Device path does not start with /dev/block.''"
definition msg_open_sysfs :: string where "msg_open_sysfs = ''Failed to open ''"
definition msg_write_sysfs :: string where "msg_write_sysfs = ''Failed to write to ''"
definition msg_loop_control :: string where "msg_loop_control = ''Failed to open loop-control''"
definition msg_loop_add :: string where "msg_loop_add = ''Failed LOOP_CTL_ADD''"
definition msg_get_free :: string where "msg_get_free = ''Failed LOOP_CTL_GET_FREE''"
definition msg_set_fd :: string where "msg_set_fd = ''Failed to LOOP_SET_FD''"
definition msg_set_status :: string where "msg_set_status = ''Failed to LOOP_SET_STATUS64''"
definition msg_flush :: string where "msg_flush = ''Failed to flush buffers on the loop device''"

definition kApexLoopIdPrefix :: string where "kApexLoopIdPrefix = ''apex:''"
definition kReadAheadKb :: string where "kReadAheadKb = ''128''"
definition kLoopDeviceRetryAttempts :: nat where "kLoopDeviceRetryAttempts = 3"
definition kLoopControl :: path where "kLoopControl = ''/dev/loop-control''"

text \<open>An \<open>ioctl\<close> or a write to \<open>/sys\<close> is known to the model by its event and its success.\<close>

definition sys_ioctl :: "env \<Rightarrow> path \<Rightarrow> ioctl \<Rightarrow> world \<Rightarrow> (errno + unit) \<times> world" where
  "sys_ioctl E p c = query E (SysIoctl p c) (\<lambda>_. Inr ())"

definition MaybeCloseBad :: "env \<Rightarrow> path \<Rightarrow> world \<Rightarrow> world" where
  "MaybeCloseBad E device w = snd (sys_ioctl E device LOOP_CLR_FD w)"

definition configureReadAhead :: "env \<Rightarrow> path \<Rightarrow> world \<Rightarrow> status \<times> world" where
  "configureReadAhead E device_path w =
     (if \<not> StartsWith device_path ''/dev/block/'' then (Inl (Err msg_dev_block), w)
      else let sysfs_device = ''/sys/block/'' @ basename device_path @ ''/queue/read_ahead_kb'';
               (fd, w1) = sys_open E sysfs_device w
           in case fd of
                Inl e \<Rightarrow> (Inl (PErr msg_open_sysfs sysfs_device e), w1)
              | Inr _ \<Rightarrow>
                  (let (r, w2) = query E (SysWrite sysfs_device (kReadAheadKb @ [CHR 0x00])) (\<lambda>_. Inr ()) w1
                   in (case r of
                         Inl e \<Rightarrow> Inl (PErr msg_write_sysfs sysfs_device e)
                       | Inr _ \<Rightarrow> Success, w2)))"

text \<open>\<open>for (id = 0; id < num; ++id)\<close>, from \<open>id\<close> on.\<close>

fun loop_ctl_add :: "env \<Rightarrow> nat list \<Rightarrow> world \<Rightarrow> status \<times> world" where
  "loop_ctl_add E [] w = (Success, w)"
| "loop_ctl_add E (i # is) w =
     (let (r, w1) = sys_ioctl E kLoopControl (LOOP_CTL_ADD i) w
      in case r of
           Inl e \<Rightarrow> if e \<noteq> EEXIST then (Inl (PErr msg_loop_add '''' e), w1) else loop_ctl_add E is w1
         | Inr _ \<Rightarrow> loop_ctl_add E is w1)"

definition loop_preAllocateLoopDevices :: "env \<Rightarrow> nat \<Rightarrow> world \<Rightarrow> (status \<times> world) option" where
  "loop_preAllocateLoopDevices E num w =
     (case WaitForFile E kLoopControl 20000000000 w of
        None \<Rightarrow> None
      | Some (Inl e, w1) \<Rightarrow> Some (Inl e, w1)
      | Some (Inr _, w1) \<Rightarrow>
          Some (let (fd, w2) = sys_open E kLoopControl w1
                in case fd of
                     Inl e \<Rightarrow> (Inl (PErr msg_loop_control '''' e), w2)
                   | Inr _ \<Rightarrow> loop_ctl_add E [0..<num] w2))"

text \<open>Opening the device node, which ueventd may not have made yet.\<close>

fun open_loop :: "env \<Rightarrow> path \<Rightarrow> nat \<Rightarrow> world \<Rightarrow> (errno + unit) \<times> world" where
  "open_loop E device 0 w = (Inl ENOENT, w)"
| "open_loop E device (Suc n) w =
     (let (fd, w1) = sys_open E device w
      in case fd of
           Inr _ \<Rightarrow> (Inr (), w1)
         | Inl e \<Rightarrow>
             (let w2 = w1\<lparr>hist := Sleep # hist w1\<rparr>
              in if n = 0 then (Inl e, w2) else open_loop E device n w2))"

text \<open>What happens once the device is open; the caller clears it when this fails.\<close>

definition setup_loop :: "env \<Rightarrow> path \<Rightarrow> path \<Rightarrow> int32 \<Rightarrow> uint64 \<Rightarrow> world \<Rightarrow> status \<times> world" where
  "setup_loop E device target imageOffset imageSize w =
     (let (r, w1) = sys_ioctl E device (LOOP_SET_FD target) w
      in case r of Inl e \<Rightarrow> (Inl (PErr msg_set_fd '''' e), w1) | Inr _ \<Rightarrow>
     (let (r, w2) = sys_ioctl E device (LOOP_SET_STATUS64 (scast imageOffset) imageSize) w1
      in case r of Inl e \<Rightarrow> (Inl (PErr msg_set_status '''' e), w2) | Inr _ \<Rightarrow>
     (let (r, w3) = sys_ioctl E device BLKFLSBUF w2
      in case r of Inl e \<Rightarrow> (Inl (PErr msg_flush '''' e), w3) | Inr _ \<Rightarrow>
     (let (r, w4) = sys_ioctl E device LOOP_SET_BLOCK_SIZE w3;
          w5 = (case r of Inl _ \<Rightarrow> w4 | Inr _ \<Rightarrow> snd (sys_ioctl E device LOOP_SET_DIRECT_IO w4))
      in configureReadAhead E device w5))))"

definition loop_device :: "nat \<Rightarrow> path" where
  "loop_device num = ''/dev/block/loop'' @ to_string (int num)"

definition createLoopDevice :: "env \<Rightarrow> path \<Rightarrow> int32 \<Rightarrow> uint64 \<Rightarrow> world \<Rightarrow> path status_or \<times> world" where
  "createLoopDevice E target imageOffset imageSize w =
     (let (ctl, w1) = sys_open E kLoopControl w
      in case ctl of Inl e \<Rightarrow> (Inl (PErr msg_loop_control '''' e), w1) | Inr _ \<Rightarrow>
     (let (num, w2) = query E (SysIoctl kLoopControl LOOP_CTL_GET_FREE)
            (\<lambda>w. Inr (free_loop E (hist w))) w1
      in case num of Inl e \<Rightarrow> (Inl (PErr msg_get_free '''' e), w2) | Inr n \<Rightarrow>
     (let device = loop_device n;
          (target_fd, w3) = sys_open E target w2
      in case target_fd of Inl e \<Rightarrow> (Inl (PErr msg_open_sysfs target e), w3) | Inr _ \<Rightarrow>
     (let (device_fd, w4) = open_loop E device kLoopDeviceRetryAttempts w3
      in case device_fd of Inl e \<Rightarrow> (Inl (PErr msg_open_sysfs device e), w4) | Inr _ \<Rightarrow>
     (let (st, w5) = setup_loop E device target imageOffset imageSize w4
      in case st of
           Inl e \<Rightarrow> (Inl e, MaybeCloseBad E device w5)
         | Inr _ \<Rightarrow> (Inr device, w5))))))"

definition DestroyLoopDevice :: "env \<Rightarrow> path \<Rightarrow> (path \<Rightarrow> string \<Rightarrow> world \<Rightarrow> world) \<Rightarrow> world \<Rightarrow> world" where
  "DestroyLoopDevice E path extra w =
     (let (fd, w1) = sys_open E path w
      in case fd of Inl _ \<Rightarrow> w1 | Inr _ \<Rightarrow>
     (let (li, w2) = query E (SysIoctl path LOOP_GET_STATUS64)
            (\<lambda>w. Inr (loop_crypt_name E (hist w) path)) w1
      in case li of Inl _ \<Rightarrow> w2 | Inr name \<Rightarrow>
           if StartsWith name kApexLoopIdPrefix
           then snd (sys_ioctl E path LOOP_CLR_FD (extra path name w2))
           else w2))"

section \<open>What is attached\<close>

text \<open>
  The file behind each loop device with its offset and size, read off the history: the
  last successful \<open>LOOP_SET_FD\<close> that no successful \<open>LOOP_CLR_FD\<close> and no restart of the
  device undid.
\<close>

fun attached :: "env \<Rightarrow> event list \<Rightarrow> path \<Rightarrow> (path \<times> (uint64 \<times> uint64) option) option" where
  "attached E [] d = None"
| "attached E (ev # h) d =
     (if ev = Restarted then None
      else if fault E h ev \<noteq> None then attached E h d
      else case ev of
        SysIoctl p (LOOP_SET_FD f) \<Rightarrow> if p = d then Some (f, None) else attached E h d
      | SysIoctl p (LOOP_SET_STATUS64 off sz) \<Rightarrow>
          if p = d then map_option (\<lambda>(f, _). (f, Some (off, sz))) (attached E h d)
          else attached E h d
      | SysIoctl p LOOP_CLR_FD \<Rightarrow> if p = d then None else attached E h d
      | _ \<Rightarrow> attached E h d)"

text \<open>A step that attaches and detaches nothing.\<close>

definition same_loops :: "env \<Rightarrow> world \<Rightarrow> world \<Rightarrow> bool" where
  "same_loops E w w' \<longleftrightarrow> asks w w' \<and> attached E (hist w') = attached E (hist w)"

lemma same_loops_refl [simp]: "same_loops E w w"
  by (simp add: same_loops_def)

lemma same_loops_trans [trans]: "same_loops E w1 w2 \<Longrightarrow> same_loops E w2 w3 \<Longrightarrow> same_loops E w1 w3"
  by (auto simp: same_loops_def intro: asks_trans)

lemma attached_SysOpen [simp]: "attached E (SysOpen p # h) = attached E h"
  "attached E (Sleep # h) = attached E h" "attached E (SysWrite p c # h) = attached E h"
  "attached E (SysIoctl p LOOP_CTL_GET_FREE # h) = attached E h"
  "attached E (SysIoctl p BLKFLSBUF # h) = attached E h"
  "attached E (SysIoctl p LOOP_SET_BLOCK_SIZE # h) = attached E h"
  "attached E (SysIoctl p LOOP_SET_DIRECT_IO # h) = attached E h"
  "attached E (SysIoctl p (LOOP_CTL_ADD n) # h) = attached E h"
  "attached E (SysIoctl p LOOP_GET_STATUS64 # h) = attached E h"
  by (auto simp: fun_eq_iff)

lemma open_loop_same: "open_loop E d n w = (r, w') \<Longrightarrow> same_loops E w w'"
proof (induction n arbitrary: w)
  case (Suc n)
  then show ?case
    by (auto simp: sys_open_def query_eq Let_def same_loops_def
        split: prod.splits sum.splits if_splits) (metis asks_hist asks_trans)
qed simp

lemma configureReadAhead_same: "configureReadAhead E d w = (r, w') \<Longrightarrow> same_loops E w w'"
  by (auto simp: configureReadAhead_def sys_open_def query_eq Let_def same_loops_def
      split: prod.splits sum.splits if_splits)

lemma setup_loop_spec:
  assumes "setup_loop E device target off sz w = (r, w')"
  shows "asks w w' \<and> (\<forall>d. d \<noteq> device \<longrightarrow> attached E (hist w') d = attached E (hist w) d) \<and>
    (Ok r \<longrightarrow> attached E (hist w') device = Some (target, Some (scast off, sz)))"
proof -
  have ra: "configureReadAhead E d w1 = (r, w2) \<Longrightarrow> asks w1 w2 \<and> attached E (hist w2) = attached E (hist w1)"
    for d w1 r w2
    using configureReadAhead_same by (auto simp: same_loops_def)
  from assms show ?thesis
    by (auto simp: setup_loop_def sys_ioctl_def query_def Let_def
        split: prod.splits sum.splits option.splits if_splits
        dest!: ra elim!: asksE)
qed

lemma MaybeCloseBad_attached:
  "attached E (hist (MaybeCloseBad E device w)) d =
     (if d = device \<and> fault E (hist w) (SysIoctl device LOOP_CLR_FD) = None then None
      else attached E (hist w) d)"
  by (simp add: MaybeCloseBad_def sys_ioctl_def query_def split: option.splits)

lemma MaybeCloseBad_asks: "asks w (MaybeCloseBad E device w)"
  by (simp add: MaybeCloseBad_def sys_ioctl_def)

text \<open>A call that never fails on the environment's part.\<close>

definition reliable :: "env \<Rightarrow> event \<Rightarrow> bool" where
  "reliable E ev \<longleftrightarrow> (\<forall>h. fault E h ev = None)"

lemma createLoopDevice_cases:
  assumes "createLoopDevice E target off sz w = (r, w')"
  obtains (early) e where "r = Inl e" "same_loops E w w'"
  | (opened) n w4 st w5 where "same_loops E w w4"
      "setup_loop E (loop_device n) target off sz w4 = (st, w5)"
      "case st of Inl e \<Rightarrow> r = Inl e \<and> w' = MaybeCloseBad E (loop_device n) w5
       | Inr _ \<Rightarrow> r = Inr (loop_device n) \<and> w' = w5"
proof -
  let ?n = "free_loop E (SysOpen kLoopControl # hist w)"
  let ?w3 = "w\<lparr>hist := SysOpen target # SysIoctl kLoopControl LOOP_CTL_GET_FREE #
    SysOpen kLoopControl # hist w\<rparr>"
  obtain st4 w4 where o: "open_loop E (loop_device ?n) kLoopDeviceRetryAttempts ?w3 = (st4, w4)"
    by (cases "open_loop E (loop_device ?n) kLoopDeviceRetryAttempts ?w3")
  have "same_loops E w ?w3" by (simp add: same_loops_def)
  note w4 = same_loops_trans [OF this open_loop_same [OF o]]
  obtain st w5 where s: "setup_loop E (loop_device ?n) target off sz w4 = (st, w5)"
    by (cases "setup_loop E (loop_device ?n) target off sz w4")
  from assms o s w4 have "(\<exists>e. r = Inl e \<and> same_loops E w w') \<or>
      (case st of Inl e \<Rightarrow> r = Inl e \<and> w' = MaybeCloseBad E (loop_device ?n) w5
       | Inr _ \<Rightarrow> r = Inr (loop_device ?n) \<and> w' = w5)"
    by (auto simp: createLoopDevice_def sys_open_def query_eq Let_def same_loops_def
        split: prod.splits sum.splits option.splits)
  then show ?thesis using early opened [OF w4 s] by blast
qed

lemma createLoopDevice_spec:
  assumes "createLoopDevice E target off sz w = (r, w')"
  shows "asks w w' \<and> (case r of
      Inr device \<Rightarrow> attached E (hist w') device = Some (target, Some (scast off, sz)) \<and>
        (\<forall>d. d \<noteq> device \<longrightarrow> attached E (hist w') d = attached E (hist w) d)
    | Inl _ \<Rightarrow> (\<forall>d. reliable E (SysIoctl d LOOP_CLR_FD) \<longrightarrow>
        attached E (hist w') d = None \<or> attached E (hist w') d = attached E (hist w) d))"
  using assms
proof (cases rule: createLoopDevice_cases)
  case (opened n w4 st w5)
  from setup_loop_spec [OF opened(2)] opened(1) have a: "asks w w5"
    "d \<noteq> loop_device n \<Longrightarrow> attached E (hist w5) d = attached E (hist w) d" for d
    by (auto simp: same_loops_def intro: asks_trans)
  show ?thesis
  proof (cases st)
    case (Inl e)
    with opened have r: "r = Inl e" "w' = MaybeCloseBad E (loop_device n) w5" by auto
    have "attached E (hist w') d = None \<or> attached E (hist w') d = attached E (hist w) d"
      if "reliable E (SysIoctl d LOOP_CLR_FD)" for d
      using that a(2) [of d] by (cases "d = loop_device n") (auto simp: r MaybeCloseBad_attached reliable_def)
    with r asks_trans [OF a(1) MaybeCloseBad_asks] show ?thesis by simp
  next
    case (Inr u)
    with opened a setup_loop_spec [OF opened(2)] show ?thesis by auto
  qed
qed (auto simp: same_loops_def)

end
