(* ===== verification/Apex_Key.thy ===== *)
theory Apex_Key
  imports Apex_File
begin

text \<open>
  \<open>apexd/apex_key.cpp\<close>: the public keys bundled with the packages of the built-in
  partitions, collected once, and looked up by package name.
\<close>

definition msg_scan_keys :: string where "msg_scan_keys = ''Can't scan embedded APEX keys from ''"
definition msg_open :: string where "msg_open = ''Failed to open ''"
definition msg_key_mismatch :: string where
  "msg_key_mismatch = ''Key for package does not match with the existing key: ''"
definition msg_collect_keys :: string where "msg_collect_keys = ''Failed to collect keys from ''"
definition msg_no_key :: string where "msg_no_key = ''No key found for package ''"

type_synonym KeyPair = "string \<times> string"

fun collect_from_files :: "env \<Rightarrow> path list \<Rightarrow> world \<Rightarrow> KeyPair list status_or \<times> world" where
  "collect_from_files E [] w = (Inr [], w)"
| "collect_from_files E (file # files) w =
     (let (apex_file, w1) = Open E file w
      in case apex_file of
           Inl e \<Rightarrow> (Inl (WrapAt msg_open file e), w1)
         | Inr a \<Rightarrow>
             (let (rest, w2) = collect_from_files E files w1
              in (case rest of
                    Inl e \<Rightarrow> Inl e
                  | Inr ps \<Rightarrow> Inr ((manifest_name (GetManifest a), GetBundledPublicKey a) # ps),
                  w2)))"

definition collectEmbedddedApexKeysFromDir :: "env \<Rightarrow> path \<Rightarrow> world \<Rightarrow>
    KeyPair list status_or \<times> world" where
  "collectEmbedddedApexKeysFromDir E dir w =
     (let (acc, w1) = sys_access E dir w
      in if acc = Inl ENOENT then (Inr [], w1)
         else let scanBuiltinApexes = isPathForBuiltinApexes dir
              in if \<not> scanBuiltinApexes then (Inl (ErrAt msg_scan_keys dir), w1)
                 else let (apex_files, w2) = FindApexFilesByName E dir scanBuiltinApexes w1
                      in case apex_files of
                           Inl e \<Rightarrow> (Inl e, w2)
                         | Inr files \<Rightarrow> collect_from_files E files w2)"

text \<open>\<open>updateScannedApexKeys\<close>: insert new keys, reject a key that differs.\<close>

fun updateScannedApexKeys :: "KeyPair list \<Rightarrow> (string \<times> string) list \<Rightarrow>
    status \<times> (string \<times> string) list" where
  "updateScannedApexKeys [] keys = (Success, keys)"
| "updateScannedApexKeys ((name, key) # kps) keys =
     (case map_of keys name of
        None \<Rightarrow> updateScannedApexKeys kps ((name, key) # keys)
      | Some existing_key \<Rightarrow>
          if existing_key \<noteq> key then (Inl (ErrAt msg_key_mismatch name), keys)
          else updateScannedApexKeys kps keys)"

fun collect_dirs :: "env \<Rightarrow> path list \<Rightarrow> world \<Rightarrow> status \<times> world" where
  "collect_dirs E [] w = (Success, w)"
| "collect_dirs E (dir # dirs) w =
     (let (key_pairs, w1) = collectEmbedddedApexKeysFromDir E dir w
      in case key_pairs of
           Inl e \<Rightarrow> (Inl (WrapAt msg_collect_keys dir e), w1)
         | Inr kps \<Rightarrow>
             (let (st, keys) = updateScannedApexKeys kps (gScannedApexKeys w1);
                  w2 = w1\<lparr>gScannedApexKeys := keys\<rparr>
              in case st of Inl e \<Rightarrow> (Inl e, w2) | Inr _ \<Rightarrow> collect_dirs E dirs w2))"

definition collectApexKeys :: "env \<Rightarrow> world \<Rightarrow> status \<times> world" where
  "collectApexKeys E w = collect_dirs E kApexPackageBuiltinDirs w"

definition getApexKey :: "(string \<times> string) list \<Rightarrow> string \<Rightarrow> string status_or" where
  "getApexKey keys key_name = (case map_of keys key_name of
      None \<Rightarrow> Inl (ErrAt msg_no_key key_name)
    | Some k \<Rightarrow> Inr k)"

section \<open>Keys are never replaced\<close>

text \<open>
  Keys only accumulate; on success every pair agrees with the table, and on failure some
  pair contradicts a key recorded before it.
\<close>

lemma updateScannedApexKeys_mono:
  "updateScannedApexKeys kps keys = (r, keys') \<Longrightarrow> map_of keys n = Some k \<Longrightarrow>
     map_of keys' n = Some k"
proof (induction kps keys rule: updateScannedApexKeys.induct)
  case (2 name key kps keys)
  then show ?case by (cases "map_of keys name"; cases "n = name") (auto split: if_splits)
qed simp

lemma updateScannedApexKeys_ok:
  "updateScannedApexKeys kps keys = (Success, keys') \<Longrightarrow>
     (\<forall>(n, k) \<in> set kps. map_of keys' n = Some k) \<and>
     (\<forall>n. map_of keys' n \<noteq> None \<longleftrightarrow> map_of keys n \<noteq> None \<or> n \<in> fst ` set kps)"
proof (induction kps keys rule: updateScannedApexKeys.induct)
  case (2 name key kps keys)
  show ?case
  proof (cases "map_of keys name")
    case None
    with 2 updateScannedApexKeys_mono [of kps "(name, key) # keys" Success keys' name key]
    show ?thesis by auto
  next
    case (Some k)
    with 2 updateScannedApexKeys_mono [of kps keys Success keys' name key]
    show ?thesis by (auto split: if_splits)
  qed
qed simp

lemma updateScannedApexKeys_agrees:
  "\<forall>n k. map_of keys n = Some k \<longrightarrow> f n = k \<Longrightarrow> \<forall>(n, k) \<in> set kps. f n = k \<Longrightarrow>
     fst (updateScannedApexKeys kps keys) = Success"
proof (induction kps keys rule: updateScannedApexKeys.induct)
  case (2 name key kps keys)
  have kps: "\<forall>(n, k) \<in> set kps. f n = k" and key: "f name = key"
    using "2.prems"(2) by auto
  show ?case
  proof (cases "map_of keys name")
    case None
    have "\<forall>n k. map_of ((name, key) # keys) n = Some k \<longrightarrow> f n = k"
      using "2.prems"(1) key by simp
    with "2.IH"(1) [OF None _ kps] None show ?thesis by simp
  next
    case (Some k)
    with "2.prems"(1) key have "k = key" by metis
    with "2.IH"(2) [OF Some _ "2.prems"(1) kps] Some show ?thesis by simp
  qed
qed simp

text \<open>The update succeeds exactly when one assignment of keys agrees with the table and the pairs.\<close>

lemma updateScannedApexKeys_Success_iff:
  "fst (updateScannedApexKeys kps keys) = Success \<longleftrightarrow>
     (\<exists>f. (\<forall>n k. map_of keys n = Some k \<longrightarrow> f n = k) \<and> (\<forall>(n, k) \<in> set kps. f n = k))"
proof
  assume "fst (updateScannedApexKeys kps keys) = Success"
  then obtain keys' where u: "updateScannedApexKeys kps keys = (Success, keys')"
    by (metis prod.collapse)
  show "\<exists>f. (\<forall>n k. map_of keys n = Some k \<longrightarrow> f n = k) \<and> (\<forall>(n, k) \<in> set kps. f n = k)"
    using updateScannedApexKeys_mono [OF u] updateScannedApexKeys_ok [OF u]
    by (intro exI [of _ "\<lambda>n. the (map_of keys' n)"]) fastforce
qed (use updateScannedApexKeys_agrees in blast)

lemma collect_from_files_asks: "collect_from_files E files w = (r, w') \<Longrightarrow> asks w w'"
  by (induction files arbitrary: w r)
    (fastforce simp: Let_def dest: Open_asks intro: asks_trans split: prod.splits sum.splits)+

lemma collectEmbedddedApexKeysFromDir_asks:
  "collectEmbedddedApexKeysFromDir E d w = (r, w') \<Longrightarrow> asks w w'"
  by (auto simp: collectEmbedddedApexKeysFromDir_def Let_def sys_access_def query_eq
      dest!: FindApexFilesByName_asks collect_from_files_asks elim!: asksE
      split: prod.splits sum.splits if_splits)

lemma asks_keys [simp]:
  "asks (w\<lparr>gScannedApexKeys := k\<rparr>) (w\<lparr>hist := h, gScannedApexKeys := k\<rparr>)"
  unfolding asks_def by (rule exI [of _ h]) simp

lemma collect_dirs_frame:
  "collect_dirs E ds w = (r, w') \<Longrightarrow> asks (w\<lparr>gScannedApexKeys := gScannedApexKeys w'\<rparr>) w' \<and>
     (\<forall>n k. map_of (gScannedApexKeys w) n = Some k \<longrightarrow> map_of (gScannedApexKeys w') n = Some k)"
proof (induction ds arbitrary: w)
  case (Cons d ds)
  obtain kp w1 where c: "collectEmbedddedApexKeysFromDir E d w = (kp, w1)"
    by (cases "collectEmbedddedApexKeysFromDir E d w")
  obtain h where w1: "w1 = w\<lparr>hist := h\<rparr>"
    using collectEmbedddedApexKeysFromDir_asks [OF c] by (auto elim: asksE)
  show ?case
  proof (cases kp)
    case (Inl e)
    with Cons.prems c w1 show ?thesis by auto
  next
    case (Inr kps)
    obtain st keys where u: "updateScannedApexKeys kps (gScannedApexKeys w1) = (st, keys)"
      by (cases "updateScannedApexKeys kps (gScannedApexKeys w1)")
    note mono = updateScannedApexKeys_mono [OF u]
    show ?thesis
    proof (cases st)
      case (Inl e)
      with Cons.prems c Inr u w1 mono show ?thesis by auto
    next
      case (Inr x)
      with Cons.prems c \<open>kp = Inr kps\<close> u have
        "collect_dirs E ds (w1\<lparr>gScannedApexKeys := keys\<rparr>) = (r, w')" by simp
      from Cons.IH [OF this] mono w1 show ?thesis by (auto simp: asks_def)
    qed
  qed
qed simp

section \<open>Properties\<close>

text \<open>C28. Recorded keys are never replaced or dropped. An update succeeds exactly when one
  assignment of keys to names agrees with the recorded keys and with all scanned pairs;
  then every scanned pair is recorded and nothing else is.
\<close>

theorem updateScannedApexKeys_correct:
  assumes "updateScannedApexKeys kps keys = (r, keys')"
  shows "(\<forall>n k. map_of keys n = Some k \<longrightarrow> map_of keys' n = Some k) \<and>
    (Ok r \<longleftrightarrow> (\<exists>f. (\<forall>n k. map_of keys n = Some k \<longrightarrow> f n = k) \<and> (\<forall>(n, k) \<in> set kps. f n = k))) \<and>
    (Ok r \<longrightarrow> (\<forall>(n, k) \<in> set kps. map_of keys' n = Some k) \<and>
      (\<forall>n. map_of keys' n \<noteq> None \<longleftrightarrow> map_of keys n \<noteq> None \<or> n \<in> fst ` set kps))"
proof -
  have "Ok r \<longleftrightarrow> r = Success" by (auto simp: Ok_iff)
  with updateScannedApexKeys_mono [OF assms] updateScannedApexKeys_Success_iff [of kps keys]
    updateScannedApexKeys_ok [of kps keys keys'] assms
  show ?thesis by auto
qed

theorem updateScannedApexKeys_correct_witness:
  "\<not> Ok (fst (updateScannedApexKeys [(''a'', ''1''), (''a'', ''2'')] []))"
  using updateScannedApexKeys_correct [OF prod.collapse [symmetric],
    of "[(''a'', ''1''), (''a'', ''2'')]" "[]"] by auto

text \<open>C29. Collecting the keys of the built-in partitions changes only the table of keys, and
  keeps every key recorded before, also when it fails half way.
\<close>

theorem collectApexKeys_keeps:
  assumes "collectApexKeys E w = (r, w')"
  shows "asks (w\<lparr>gScannedApexKeys := gScannedApexKeys w'\<rparr>) w' \<and>
    (\<forall>n k. getApexKey (gScannedApexKeys w) n = Inr k \<longrightarrow> getApexKey (gScannedApexKeys w') n = Inr k)"
  using collect_dirs_frame [OF assms [unfolded collectApexKeys_def]]
  by (auto simp: getApexKey_def split: option.splits)

theorem collectApexKeys_keeps_witness:
  "getApexKey (gScannedApexKeys (snd (collectApexKeys sample_env
     (sample_world\<lparr>gScannedApexKeys := [(''n'', ''k'')]\<rparr>)))) ''n'' = Inr ''k''"
  using collectApexKeys_keeps [OF prod.collapse [symmetric], of sample_env
    "sample_world\<lparr>gScannedApexKeys := [(''n'', ''k'')]\<rparr>"]
  by (auto simp: getApexKey_def [of "[_]"])

end
