(* ===== verification/Apex_Verity.thy ===== *)
theory Apex_Verity
  imports Apex_Key
begin

text \<open>
  The AVB part of \<open>apexd/apex_file.cpp\<close>: \<open>ApexFile::VerifyApexVerity\<close> reads the AVB
  footer at the end of the image, the vbmeta block it points to, checks its signature
  and the key it was made with, and returns the verity parameters.
\<close>

definition msg_seek_footer :: string where "msg_seek_footer = ''Couldn't seek to AVB footer''"
definition msg_read_footer :: string where "msg_read_footer = ''Couldn't read AVB footer''"
definition msg_footer :: string where "msg_footer = ''AVB footer verification failed.''"
definition msg_compare_key :: string where
  "msg_compare_key = ''Failed to compare the bundled public key with key''"
definition msg_no_prop :: string where "msg_no_prop = ''Cannot find prop apex.key from ''"
definition msg_key_name :: string where "msg_key_name = ''Key mismatch: apex name is ''"
definition msg_verifying :: string where "msg_verifying = ''Error verifying ''"
definition msg_bad_header :: string where "msg_bad_header = ''Error verifying, invalid vbmeta header: ''"
definition msg_bad_version :: string where "msg_bad_version = ''Error verifying, unsupported version: ''"
definition msg_unknown_result :: string where
  "msg_unknown_result = ''Unknown vmbeta_image_verify return value''"
definition msg_public_key :: string where "msg_public_key = ''couldn't verify public key: ''"
definition msg_vbmeta_size :: string where
  "msg_vbmeta_size = ''VbMeta size in footer exceeds kVbMetaMaxSize.''"
definition msg_vbmeta_read :: string where "msg_vbmeta_read = ''Couldn't read AVB meta-data''"
definition msg_descriptor :: string where "msg_descriptor = ''Couldn't validate AvbDescriptor.''"
definition msg_no_descriptor :: string where
  "msg_no_descriptor = ''Couldn't find any AVB hashtree descriptors.''"
definition msg_open_apex :: string where "msg_open_apex = ''Failed to open ''"

definition kApexKeyProp :: string where "kApexKeyProp = ''apex.key''"
definition kVbMetaMaxSize :: uint64 where "kVbMetaMaxSize = 64 * 1024"

section \<open>Hexadecimal digests\<close>

definition hex_digit :: "nat \<Rightarrow> char" where
  "hex_digit d = (if d < 10 then char_of (48 + d) else char_of (87 + d))"

definition bytes_to_hex :: "string \<Rightarrow> string" where
  "bytes_to_hex bytes =
     concat (map (\<lambda>c. [hex_digit (of_char c div 16), hex_digit (of_char c mod 16)]) bytes)"

definition getSalt :: "AvbHashtreeDescriptor \<Rightarrow> string \<Rightarrow> string" where
  "getSalt d trailingData =
     bytes_to_hex (take (unat (salt_len d)) (drop (unat (partition_name_len d)) trailingData))"

definition getDigest :: "AvbHashtreeDescriptor \<Rightarrow> string \<Rightarrow> string" where
  "getDigest d trailingData =
     bytes_to_hex (take (unat (root_digest_len d))
       (drop (unat (partition_name_len d) + unat (salt_len d)) trailingData))"

section \<open>Reading the image\<close>

text \<open>
  \<open>read\<close> and \<open>ReadFullyAtOffset\<close> from an open file: all the bytes asked for, or a
  failure. Offsets are \<open>off_t\<close>, 64 bits signed.
\<close>

definition pread_eff :: "node \<Rightarrow> int64 \<Rightarrow> nat \<Rightarrow> errno + string" where
  "pread_eff fd offset len = (case fd of
      Reg _ c \<Rightarrow>
        if 0 \<le> sint offset \<and> nat (sint offset) + len \<le> length c
        then Inr (take len (drop (nat (sint offset)) c)) else Inl EIO
    | Directory _ \<Rightarrow> Inl EISDIR
    | Special _ \<Rightarrow> Inl EIO)"

definition pread :: "env \<Rightarrow> path \<Rightarrow> node \<Rightarrow> int64 \<Rightarrow> nat \<Rightarrow> world \<Rightarrow> (errno + string) \<times> world" where
  "pread E path fd offset len = query E (SysRead path) (\<lambda>_. pread_eff fd offset len)"

text \<open>
  The footer is at the end of the image. The result of \<open>lseek\<close> is stored in an \<open>int\<close>, so
  an offset whose low 32 bits are all ones reads as the error value \<open>-1\<close>.
\<close>

definition getAvbFooter :: "env \<Rightarrow> ApexFile \<Rightarrow> node \<Rightarrow> world \<Rightarrow> AvbFooter status_or \<times> world" where
  "getAvbFooter E apex fd w =
     (let offset = GetImageSize apex + scast (GetImageOffset apex)
            - of_nat (avb_footer_size E) :: int64;
          ret = (if sint offset < 0 then -1 else ucast offset :: int32)
      in if ret = -1 then (Inl (Err msg_seek_footer), w)
         else let (r, w1) = pread E (GetPath apex) fd offset (avb_footer_size E) w
              in (case r of
                    Inl e \<Rightarrow> Inl (PErr msg_read_footer '''' e)
                  | Inr footer_data \<Rightarrow>
                      (case avb_footer E footer_data of
                         None \<Rightarrow> Inl (Err msg_footer)
                       | Some footer \<Rightarrow> Inr footer), w1))"

section \<open>Checking the signature\<close>

definition verifyPublicKey :: "string \<Rightarrow> string \<Rightarrow> status" where
  "verifyPublicKey key public_key_content =
     (if length public_key_content \<noteq> length key \<or> public_key_content \<noteq> key
      then Inl (Err msg_compare_key) else Success)"

text \<open>A \<open>const char*\<close> is read up to its first NUL.\<close>

definition c_string :: "string \<Rightarrow> string" where
  "c_string s = takeWhile (\<lambda>c. of_char c \<noteq> (0::nat)) s"

definition getPublicKeyName :: "env \<Rightarrow> ApexFile \<Rightarrow> string \<Rightarrow> string status_or" where
  "getPublicKeyName E apex data =
     (case avb_property E data kApexKeyProp of
        None \<Rightarrow> Inl (ErrAt msg_no_prop (GetPath apex))
      | Some keyName \<Rightarrow>
          if length keyName = 0 then Inl (ErrAt msg_no_prop (GetPath apex))
          else if c_string keyName \<noteq> manifest_name (GetManifest apex)
          then Inl (ErrAt msg_key_name (manifest_name (GetManifest apex)))
          else Inr (c_string keyName))"

definition verifyVbMetaSignature :: "env \<Rightarrow> (string \<times> string) list \<Rightarrow> ApexFile \<Rightarrow> string \<Rightarrow> status" where
  "verifyVbMetaSignature E keys apex data =
     (let (res, pk) = avb_verify E data
      in case res of
           AVB_OK \<Rightarrow>
             (case getPublicKeyName E apex data of
                Inl e \<Rightarrow> Inl e
              | Inr key_name \<Rightarrow>
                  let public_key = getApexKey keys key_name;
                      st = (case public_key of
                          Inr k \<Rightarrow> Inr (verifyPublicKey pk k)
                        | Inl e \<Rightarrow>
                            if kDebugAllowBundledKey E
                            then Inr (verifyPublicKey pk (GetBundledPublicKey apex))
                            else Inl e)
                  in case st of
                       Inl e \<Rightarrow> Inl e
                     | Inr (Inr _) \<Rightarrow> Success
                     | Inr (Inl e) \<Rightarrow> Inl (WrapAt msg_verifying (GetPath apex) (Wrap msg_public_key e)))
         | AVB_OK_NOT_SIGNED \<Rightarrow> Inl (ErrAt msg_verifying (GetPath apex))
         | AVB_HASH_MISMATCH \<Rightarrow> Inl (ErrAt msg_verifying (GetPath apex))
         | AVB_SIGNATURE_MISMATCH \<Rightarrow> Inl (ErrAt msg_verifying (GetPath apex))
         | AVB_INVALID_VBMETA_HEADER \<Rightarrow> Inl (ErrAt msg_bad_header (GetPath apex))
         | AVB_UNSUPPORTED_VERSION \<Rightarrow> Inl (ErrAt msg_bad_version (GetPath apex))
         | AVB_OTHER \<Rightarrow> Inl (Err msg_unknown_result))"

definition verifyVbMeta :: "env \<Rightarrow> ApexFile \<Rightarrow> node \<Rightarrow> AvbFooter \<Rightarrow> world \<Rightarrow> string status_or \<times> world" where
  "verifyVbMeta E apex fd footer w =
     (if vbmeta_size footer > kVbMetaMaxSize then (Inl (Err msg_vbmeta_size), w)
      else let offset = scast (GetImageOffset apex) + vbmeta_offset footer :: int64;
               (r, w1) = pread E (GetPath apex) fd offset (unat (vbmeta_size footer)) w
           in (case r of
                 Inl e \<Rightarrow> Inl (PErr msg_vbmeta_read '''' e)
               | Inr vbmeta \<Rightarrow>
                   (case verifyVbMetaSignature E (gScannedApexKeys w1) apex vbmeta of
                      Inl e \<Rightarrow> Inl e
                    | Inr _ \<Rightarrow> Inr vbmeta), w1))"

section \<open>Descriptors\<close>

fun find_hashtree :: "env \<Rightarrow> string list \<Rightarrow> string status_or" where
  "find_hashtree E [] = Inl (Err msg_no_descriptor)"
| "find_hashtree E (d # ds) =
     (case avb_descriptor_tag E d of
        None \<Rightarrow> Inl (Err msg_descriptor)
      | Some tag \<Rightarrow> if tag \<noteq> avb_tag_hashtree E then find_hashtree E ds else Inr d)"

definition findDescriptor :: "env \<Rightarrow> string \<Rightarrow> string status_or" where
  "findDescriptor E vbmeta = find_hashtree E (avb_descriptors E vbmeta)"

definition verifyDescriptor :: "env \<Rightarrow> string \<Rightarrow> AvbHashtreeDescriptor status_or" where
  "verifyDescriptor E d = (case avb_hashtree E d of
      None \<Rightarrow> Inl (Err msg_descriptor)
    | Some v \<Rightarrow> Inr v)"

definition VerifyApexVerity :: "env \<Rightarrow> ApexFile \<Rightarrow> world \<Rightarrow> ApexVerityData status_or \<times> world" where
  "VerifyApexVerity E apex w =
     (let (fd, w1) = sys_open E (GetPath apex) w
      in case fd of
           Inl e \<Rightarrow> (Inl (PErr msg_open_apex (GetPath apex) e), w1)
         | Inr node \<Rightarrow>
             (let (footer, w2) = getAvbFooter E apex node w1
              in case footer of
                   Inl e \<Rightarrow> (Inl e, w2)
                 | Inr ft \<Rightarrow>
                     (let (vbmeta_data, w3) = verifyVbMeta E apex node ft w2
                      in (case vbmeta_data of
                            Inl e \<Rightarrow> Inl e
                          | Inr vbmeta \<Rightarrow>
                              (case findDescriptor E vbmeta of
                                 Inl e \<Rightarrow> Inl e
                               | Inr descriptor \<Rightarrow>
                                   (case verifyDescriptor E descriptor of
                                      Inl e \<Rightarrow> Inl e
                                    | Inr d \<Rightarrow>
                                        let trailingData = drop (sizeof_hashtree E) descriptor
                                        in Inr \<lparr>verity_desc = d,
                                             verity_salt = getSalt d trailingData,
                                             verity_root_digest = getDigest d trailingData\<rparr>)),
                          w3))))"

section \<open>What a successful verification means\<close>

text \<open>The key in the signature is the one a package name is bound to.\<close>

definition trusted_key :: "env \<Rightarrow> (string \<times> string) list \<Rightarrow> ApexFile \<Rightarrow> string \<Rightarrow> bool" where
  "trusted_key E keys apex pk \<longleftrightarrow>
     (case map_of keys (manifest_name (GetManifest apex)) of
        Some k \<Rightarrow> pk = k
      | None \<Rightarrow> kDebugAllowBundledKey E \<and> pk = GetBundledPublicKey apex)"

text \<open>A vbmeta block with a valid signature, naming this package, by a trusted key.\<close>

definition signed_vbmeta :: "env \<Rightarrow> (string \<times> string) list \<Rightarrow> ApexFile \<Rightarrow> string \<Rightarrow> bool" where
  "signed_vbmeta E keys apex vbmeta \<longleftrightarrow>
     (\<exists>pk prop. avb_verify E vbmeta = (AVB_OK, pk) \<and>
        avb_property E vbmeta kApexKeyProp = Some prop \<and> prop \<noteq> '''' \<and>
        c_string prop = manifest_name (GetManifest apex) \<and> trusted_key E keys apex pk)"

definition authentic :: "env \<Rightarrow> (string \<times> string) list \<Rightarrow> ApexFile \<Rightarrow> string \<Rightarrow> ApexVerityData \<Rightarrow> bool" where
  "authentic E keys apex content v \<longleftrightarrow>
     (\<exists>footer vbmeta d foot_at meta_at.
        avb_footer E (take (avb_footer_size E) (drop foot_at content)) = Some footer \<and>
        int foot_at = sint (GetImageSize apex + scast (GetImageOffset apex)
            - of_nat (avb_footer_size E) :: int64) \<and>
        vbmeta_size footer \<le> kVbMetaMaxSize \<and>
        int meta_at = sint (scast (GetImageOffset apex) + vbmeta_offset footer :: int64) \<and>
        vbmeta = take (unat (vbmeta_size footer)) (drop meta_at content) \<and>
        length vbmeta = unat (vbmeta_size footer) \<and>
        signed_vbmeta E keys apex vbmeta \<and>
        d \<in> set (avb_descriptors E vbmeta) \<and> avb_descriptor_tag E d = Some (avb_tag_hashtree E) \<and>
        avb_hashtree E d = Some (verity_desc v) \<and>
        verity_salt v = getSalt (verity_desc v) (drop (sizeof_hashtree E) d) \<and>
        verity_root_digest v = getDigest (verity_desc v) (drop (sizeof_hashtree E) d))"

lemma pread_Inr: "pread E p fd off len w = (Inr s, w') \<Longrightarrow>
    \<exists>m c. fd = Reg m c \<and> 0 \<le> sint off \<and> s = take len (drop (nat (sint off)) c) \<and> length s = len"
  by (auto simp: pread_def query_eq pread_eff_def split: option.splits node.splits if_splits)

lemma verifyVbMetaSignature_Success:
  "verifyVbMetaSignature E keys apex vbmeta = Success \<longleftrightarrow> signed_vbmeta E keys apex vbmeta"
proof (cases "avb_verify E vbmeta")
  case (Pair res pk)
  show ?thesis
    by (cases res)
      (auto simp: verifyVbMetaSignature_def signed_vbmeta_def Pair getPublicKeyName_def
        getApexKey_def trusted_key_def verifyPublicKey_def Let_def
        split: option.splits if_splits sum.splits)
qed

lemma find_hashtree_Inr: "find_hashtree E ds = Inr d \<Longrightarrow>
    d \<in> set ds \<and> avb_descriptor_tag E d = Some (avb_tag_hashtree E)"
  by (induction E ds rule: find_hashtree.induct) (auto split: option.splits if_splits)

lemma getAvbFooter_asks: "getAvbFooter E a fd w = (r, w') \<Longrightarrow> asks w w'"
  by (auto simp: getAvbFooter_def pread_def query_eq Let_def split: prod.splits if_splits)

lemma verifyVbMeta_asks: "verifyVbMeta E a fd ft w = (r, w') \<Longrightarrow> asks w w'"
  by (auto simp: verifyVbMeta_def pread_def query_eq Let_def split: prod.splits if_splits)

lemma VerifyApexVerity_asks: "VerifyApexVerity E a w = (r, w') \<Longrightarrow> asks w w'"
  by (auto simp: VerifyApexVerity_def sys_open_def query_eq Let_def
      dest!: getAvbFooter_asks verifyVbMeta_asks elim!: asksE split: prod.splits sum.splits)

lemma getAvbFooter_Inr:
  "getAvbFooter E a fd w = (Inr ft, w') \<Longrightarrow> \<exists>m c foot_at. fd = Reg m c \<and>
     int foot_at = sint (GetImageSize a + scast (GetImageOffset a) - of_nat (avb_footer_size E) :: int64) \<and>
     avb_footer E (take (avb_footer_size E) (drop foot_at c)) = Some ft"
  by (auto simp: getAvbFooter_def Let_def split: prod.splits sum.splits option.splits if_splits
      dest!: pread_Inr intro!: exI [of _ "nat _"])

lemma verifyVbMeta_Inr:
  "verifyVbMeta E a (Reg m c) ft w = (Inr vbmeta, w') \<Longrightarrow> vbmeta_size ft \<le> kVbMetaMaxSize \<and>
     (\<exists>meta_at. int meta_at = sint (scast (GetImageOffset a) + vbmeta_offset ft :: int64) \<and>
        vbmeta = take (unat (vbmeta_size ft)) (drop meta_at c)) \<and>
     length vbmeta = unat (vbmeta_size ft) \<and> signed_vbmeta E (gScannedApexKeys w) a vbmeta"
  by (auto simp: verifyVbMeta_def Let_def not_less pread_def query_eq
      split: prod.splits sum.splits if_splits simp flip: verifyVbMetaSignature_Success)
    (auto simp: pread_eff_def split: option.splits if_splits intro!: exI [of _ "nat _"])

lemma VerifyApexVerity_Inr:
  assumes ok: "VerifyApexVerity E apex w = (Inr v, w')"
    and img: "node_at w (GetPath apex) = Some n"
  shows "\<exists>m content. n = Reg m content \<and> authentic E (gScannedApexKeys w) apex content v"
proof -
  obtain fd w1 where o: "sys_open E (GetPath apex) w = (fd, w1)" by (cases "sys_open E (GetPath apex) w")
  then obtain h where w1: "w1 = w\<lparr>hist := h\<rparr>" by (auto simp: sys_open_def query_eq)
  from ok o obtain node where fd: "fd = Inr node" by (cases fd) (auto simp: VerifyApexVerity_def)
  with o img have node: "node = n"
    by (auto simp: sys_open_def query_eq stat_eff_def split: option.splits)
  obtain footer w2 where g: "getAvbFooter E apex node w1 = (footer, w2)"
    by (cases "getAvbFooter E apex node w1")
  with ok o fd obtain ft where ft: "footer = Inr ft" by (cases footer) (auto simp: VerifyApexVerity_def)
  from getAvbFooter_asks [OF g] w1 obtain h2 where w2: "w2 = w\<lparr>hist := h2\<rparr>" by (auto elim: asksE)
  from getAvbFooter_Inr [OF g [unfolded ft]] obtain m c foot_at where
    reg: "node = Reg m c" and foot: "int foot_at = sint (GetImageSize apex +
        scast (GetImageOffset apex) - of_nat (avb_footer_size E) :: int64)"
      "avb_footer E (take (avb_footer_size E) (drop foot_at c)) = Some ft" by auto
  obtain vb w3 where vm: "verifyVbMeta E apex node ft w2 = (vb, w3)"
    by (cases "verifyVbMeta E apex node ft w2")
  with ok o fd g ft obtain vbmeta where vb: "vb = Inr vbmeta"
    by (cases vb) (auto simp: VerifyApexVerity_def)
  from verifyVbMeta_Inr [OF vm [unfolded vb reg]] obtain meta_at where
    meta: "vbmeta_size ft \<le> kVbMetaMaxSize" "int meta_at = sint (scast (GetImageOffset apex) + vbmeta_offset ft :: int64)"
      "vbmeta = take (unat (vbmeta_size ft)) (drop meta_at c)"
      "length vbmeta = unat (vbmeta_size ft)" "signed_vbmeta E (gScannedApexKeys w) apex vbmeta"
    by (auto simp: w2)
  from ok o fd g ft vm vb obtain d where
    d: "findDescriptor E vbmeta = Inr d" "avb_hashtree E d = Some (verity_desc v)"
      "verity_salt v = getSalt (verity_desc v) (drop (sizeof_hashtree E) d)"
      "verity_root_digest v = getDigest (verity_desc v) (drop (sizeof_hashtree E) d)"
    by (auto simp: VerifyApexVerity_def verifyDescriptor_def Let_def split: sum.splits option.splits)
  from find_hashtree_Inr [OF d(1) [unfolded findDescriptor_def]] foot meta d(2-4)
  have "authentic E (gScannedApexKeys w) apex c v"
    unfolding authentic_def by blast
  with reg node show ?thesis by blast
qed

text \<open>Printed bytes can be read back, and two different digests never print alike.\<close>

lemma hex_digit_inject: "m < 16 \<Longrightarrow> n < 16 \<Longrightarrow> hex_digit m = hex_digit n \<longleftrightarrow> m = n"
  by (auto simp: hex_digit_def dest!: arg_cong [where f = "of_char :: char \<Rightarrow> nat"] split: if_splits)

lemma hex_byte_inject:
  "[hex_digit (of_char c div 16), hex_digit (of_char c mod 16)] =
   [hex_digit (of_char d div 16), hex_digit (of_char d mod 16)] \<longleftrightarrow> c = d"
proof -
  have "(of_char c :: nat) div 16 < 16" "(of_char d :: nat) div 16 < 16"
    using nat_of_char_less_256 [of c] nat_of_char_less_256 [of d] by linarith+
  moreover have "c = d" if "(of_char c :: nat) div 16 = of_char d div 16"
    "(of_char c :: nat) mod 16 = of_char d mod 16"
  proof -
    from that have "(of_char c :: nat) = of_char d" by (metis div_mult_mod_eq)
    then show ?thesis by simp
  qed
  ultimately show ?thesis by (auto simp: hex_digit_inject)
qed

lemma length_bytes_to_hex: "length (bytes_to_hex s) = 2 * length s"
  by (induction s) (auto simp: bytes_to_hex_def)

lemma bytes_to_hex_inject: "bytes_to_hex s = bytes_to_hex t \<longleftrightarrow> s = t"
proof (induction s arbitrary: t)
  case Nil
  show ?case using length_bytes_to_hex [of t] by (auto simp: bytes_to_hex_def)
next
  case (Cons c s)
  show ?case
  proof (cases t)
    case Nil
    then show ?thesis using length_bytes_to_hex [of "c # s"] by (auto simp: bytes_to_hex_def)
  next
    case (Cons d t')
    with Cons.IH [of t'] hex_byte_inject [of c d] show ?thesis
      by (auto simp: bytes_to_hex_def)
  qed
qed

section \<open>Properties\<close>

text \<open>C15. A successful verification means that the file holds a vbmeta block, at the place its
  footer names, with a valid signature made by the key recorded for the package's name
  (or, on a build that allows it and only for a package without a recorded key, the
  bundled one), and that the verity parameters returned come from a hash-tree descriptor
  of that block. Verifying changes nothing.
\<close>

theorem VerifyApexVerity_authentic:
  assumes "VerifyApexVerity E apex w = (Inr v, w')"
    and "node_at w (GetPath apex) = Some n"
  shows "asks w w' \<and> (\<exists>m content. n = Reg m content \<and>
    authentic E (gScannedApexKeys w) apex content v)"
  using VerifyApexVerity_asks [OF assms(1)] VerifyApexVerity_Inr [OF assms] by blast

theorem VerifyApexVerity_authentic_witness:
  "\<exists>v w'. VerifyApexVerity sample_avb_env sample_apex sample_avb_world = (Inr v, w') \<and>
     authentic sample_avb_env [(''n'', ''k'')] sample_apex ''VVVVFFFF'' v"
proof -
  have "Ok (fst (VerifyApexVerity sample_avb_env sample_apex sample_avb_world))" by code_simp
  then obtain v w' where r: "VerifyApexVerity sample_avb_env sample_apex sample_avb_world = (Inr v, w')"
    by (metis Ok_iff prod.collapse)
  have n: "node_at sample_avb_world (GetPath sample_apex) = Some (Reg 420 ''VVVVFFFF'')"
    by (simp add: node_at_def mount_over_def sample_avb_world_def sample_world_def sample_apex_def)
  from VerifyApexVerity_authentic [OF r n] r show ?thesis
    by (auto simp: sample_avb_world_def)
qed

text \<open>The digest and the salt that reach the device-mapper table are hexadecimal text that
  determines the bytes: two different digests never print alike.
\<close>

theorem verity_digest_faithful:
  assumes "getDigest d s = getDigest d t"
    and "unat (partition_name_len d) + unat (salt_len d) + unat (root_digest_len d) \<le> length s"
  shows "take (unat (root_digest_len d)) (drop (unat (partition_name_len d) + unat (salt_len d)) s) =
    take (unat (root_digest_len d)) (drop (unat (partition_name_len d) + unat (salt_len d)) t) \<and>
    length (getDigest d s) = 2 * unat (root_digest_len d)"
  using assms unfolding getDigest_def bytes_to_hex_inject length_bytes_to_hex
  by (elim conjI) (unfold length_take length_drop, linarith)

theorem verity_digest_faithful_witness:
  "length (getDigest sample_desc ''sd'') = 2"
  using verity_digest_faithful [of sample_desc "''sd''" "''sd''"] by (simp add: sample_desc_def)

end
