(* ===== verification/Apex_Shim.thy ===== *)
theory Apex_Shim
  imports Apex_Verity
begin

text \<open>
  \<open>apexd/apex_shim.cpp\<close>: the CTS shim package may hold almost nothing, and an update of
  it must be one of the files whose SHA-512 the system's shim lists.
\<close>

definition msg_open_sha :: string where "msg_open_sha = ''Failed to open ''"
definition msg_read_sha :: string where "msg_read_sha = ''Failed to read ''"
definition msg_stat_entry :: string where "msg_stat_entry = ''Failed to stat ''"
definition msg_not_file :: string where "msg_not_file = '' is not a file''"
definition msg_permissions :: string where "msg_permissions = '' has illegal permissions''"
definition msg_illegal_file :: string where "msg_illegal_file = ''Illegal file ''"
definition msg_scan_shim :: string where "msg_scan_shim = ''Failed to scan ''"
definition msg_not_empty :: string where "msg_not_empty = '' is not empty''"
definition msg_should_contain :: string where "msg_should_contain = '' should contain ''"
definition msg_illegal_entry :: string where "msg_illegal_entry = ''Illegal entry ''"
definition msg_hooks :: string where
  "msg_hooks = ''Shim apex is not allowed to have pre or post install hooks''"
definition msg_unexpected_hash :: string where "msg_unexpected_hash = '' has unexpected SHA512 hash ''"

definition kApexCtsShimPackage :: string where "kApexCtsShimPackage = ''com.android.apex.cts.shim''"
definition kHashFileName :: string where "kHashFileName = ''hash.txt''"
definition kBufSize :: nat where "kBufSize = 1024"
definition kApexManifestFileName :: string where "kApexManifestFileName = ''apex_manifest.json''"
definition kEtcFolderName :: string where "kEtcFolderName = ''etc''"
definition kLostFoundFolderName :: string where "kLostFoundFolderName = ''lost+found''"
definition kFordbiddenFilePermissions :: mode where "kFordbiddenFilePermissions = 73"
definition kSystemShimApexName :: string where "kSystemShimApexName = ''com.android.apex.cts.shim.apex''"

section \<open>Hashing a file\<close>

text \<open>
  An \<open>ifstream\<close>: its state bits and the bytes ahead. A stream that is not good reads
  nothing; a short read sets \<open>eofbit\<close> and \<open>failbit\<close>. A stream whose file could not be
  opened has \<open>failbit\<close> set, but not \<open>badbit\<close>.
\<close>

record ifstream =
  eofbit :: bool
  failbit :: bool
  badbit :: bool
  ahead :: string

definition is_read :: "nat \<Rightarrow> ifstream \<Rightarrow> string \<times> ifstream" where
  "is_read n s =
     (if eofbit s \<or> failbit s \<or> badbit s then ('''', s\<lparr>failbit := True\<rparr>)
      else if length (ahead s) < n
      then (ahead s, s\<lparr>eofbit := True, failbit := True, ahead := ''''\<rparr>)
      else (take n (ahead s), s\<lparr>ahead := drop n (ahead s)\<rparr>))"

definition is_open :: "env \<Rightarrow> path \<Rightarrow> world \<Rightarrow> ifstream \<times> world" where
  "is_open E path w =
     (let (fd, w1) = sys_open E path w
      in case fd of
           Inl _ \<Rightarrow> (\<lparr>eofbit = False, failbit = True, badbit = False, ahead = ''''\<rparr>, w1)
         | Inr _ \<Rightarrow>
             (let (content, w2) = sys_read E path w1
              in (\<lparr>eofbit = False, failbit = False, badbit = False,
                   ahead = (case content of Inl _ \<Rightarrow> '''' | Inr c \<Rightarrow> c)\<rparr>, w2)))"

text \<open>The bytes hashed so far, until \<open>eof\<close>; \<open>None\<close> for a loop that never ends.\<close>

partial_function (option) sha512_loop :: "path \<Rightarrow> ifstream \<Rightarrow> string \<Rightarrow> string status_or option" where
  "sha512_loop path apex hashed =
     (if eofbit apex then Some (Inr hashed)
      else let (buf, apex1) = is_read kBufSize apex
           in if badbit apex1 then Some (Inl (ErrAt msg_read_sha path))
              else sha512_loop path apex1 (hashed @ buf))"

declare sha512_loop.simps [code]

definition CalculateSha512 :: "env \<Rightarrow> path \<Rightarrow> world \<Rightarrow> (string status_or \<times> world) option" where
  "CalculateSha512 E path w =
     (let (apex, w1) = is_open E path w
      in if badbit apex then Some (Inl (ErrAt msg_open_sha path), w1)
         else (case sha512_loop path apex '''' of
             None \<Rightarrow> None
           | Some (Inl e) \<Rightarrow> Some (Inl e, w1)
           | Some (Inr hashed) \<Rightarrow> Some (Inr (bytes_to_hex (sha512 E hashed)), w1)))"

definition ReadSha512 :: "env \<Rightarrow> path \<Rightarrow> world \<Rightarrow> string list status_or \<times> world" where
  "ReadSha512 E path w =
     (let file_path = slash (slash path kEtcFolderName) kHashFileName;
          (hash, w1) = ReadFileToString E file_path w
      in (case hash of
            Inl e \<Rightarrow> Inl (PErr msg_read_sha file_path e)
          | Inr h \<Rightarrow> Inr (Split h (CHR 0x0A)), w1))"

section \<open>What a shim may contain\<close>

definition IsRegularFile :: "env \<Rightarrow> path \<Rightarrow> world \<Rightarrow> status \<times> world" where
  "IsRegularFile E path w =
     (let (st, w1) = sys_stat E path w
      in (case st of
            Inl e \<Rightarrow> Inl (PErr msg_stat_entry path e)
          | Inr n \<Rightarrow>
              if \<not> is_reg n then Inl (ErrAt msg_not_file path)
              else if and (node_mode n) kFordbiddenFilePermissions \<noteq> 0
              then Inl (ErrAt msg_permissions path)
              else Success, w1))"

definition IsHashTxt :: "env \<Rightarrow> path \<Rightarrow> world \<Rightarrow> status \<times> world" where
  "IsHashTxt E path w =
     (let (st, w1) = IsRegularFile E path w
      in if \<not> Ok st then (st, w1)
         else if basename path \<noteq> kHashFileName then (Inl (ErrAt msg_illegal_file path), w1)
         else (Success, w1))"

text \<open>\<open>fs::is_empty\<close>: of a directory, no entries; of a regular file, no bytes.\<close>

definition is_empty_eff :: "path \<Rightarrow> world \<Rightarrow> errno + bool" where
  "is_empty_eff p w = (case node_at w p of
      None \<Rightarrow> Inl (missing w p)
    | Some (Directory _) \<Rightarrow> Inr (list_dir w p = [])
    | Some (Reg _ c) \<Rightarrow> Inr (c = '''')
    | Some (Special _) \<Rightarrow> Inl EINVAL)"

definition fs_is_empty :: "env \<Rightarrow> path \<Rightarrow> world \<Rightarrow> (errno + bool) \<times> world" where
  "fs_is_empty E p = query E (SysOpenDir p) (is_empty_eff p)"

text \<open>A loop over a directory that stops at the first entry its test rejects.\<close>

fun each_entry :: "env \<Rightarrow> path \<Rightarrow> (path \<Rightarrow> world \<Rightarrow> status \<times> world) \<Rightarrow> path list \<Rightarrow> world \<Rightarrow>
    status \<times> world" where
  "each_entry E dir test [] w = (Success, w)"
| "each_entry E dir test (p # ps) w =
     (let (st, w1) = test p w
      in if \<not> Ok st then (st, w1)
         else (let (r, w2) = query E (SysReadDir dir) (\<lambda>_. Inr ()) w1
               in case r of
                    Inl e \<Rightarrow> (Inl (PErr msg_scan_shim dir e), w2)
                  | Inr _ \<Rightarrow> each_entry E dir test ps w2))"

definition IsWhitelistedTopLevelEntry :: "env \<Rightarrow> path \<Rightarrow> world \<Rightarrow> status \<times> world" where
  "IsWhitelistedTopLevelEntry E path w =
     (if basename path = kLostFoundFolderName then
        (let (e, w1) = fs_is_empty E path w
         in (case e of
               Inl x \<Rightarrow> Inl (PErr msg_scan_shim path x)
             | Inr True \<Rightarrow> Success
             | Inr False \<Rightarrow> Inl (ErrAt msg_not_empty path), w1))
      else if basename path = kEtcFolderName then
        (let (iter, w1) = query E (SysOpenDir path) (open_dir_eff path) w
         in case iter of
              Inl e \<Rightarrow> (Inl (PErr msg_scan_shim path e), w1)
            | Inr entries \<Rightarrow>
                (let (e, w2) = fs_is_empty E path w1
                 in case e of
                      Inl x \<Rightarrow> (Inl (PErr msg_scan_shim path x), w2)
                    | Inr True \<Rightarrow> (Inl (ErrAt msg_should_contain path), w2)
                    | Inr False \<Rightarrow> each_entry E path (IsHashTxt E) entries w2))
      else if basename path = kApexManifestFileName then IsRegularFile E path w
      else (Inl (ErrAt msg_illegal_entry path), w))"

definition IsShimApex :: "ApexFile \<Rightarrow> bool" where
  "IsShimApex apex \<longleftrightarrow> manifest_name (GetManifest apex) = kApexCtsShimPackage"

definition ValidateShimApex :: "env \<Rightarrow> path \<Rightarrow> ApexFile \<Rightarrow> world \<Rightarrow> status \<times> world" where
  "ValidateShimApex E mountPoint apex w =
     (if preinstallhook (GetManifest apex) \<noteq> '''' \<or> postinstallhook (GetManifest apex) \<noteq> ''''
      then (Inl (Err msg_hooks), w)
      else (let (iter, w1) = query E (SysOpenDir mountPoint) (open_dir_eff mountPoint) w
            in case iter of
                 Inl e \<Rightarrow> (Inl (PErr msg_scan_shim mountPoint e), w1)
               | Inr entries \<Rightarrow> each_entry E mountPoint (IsWhitelistedTopLevelEntry E) entries w1))"

definition ValidateUpdate :: "env \<Rightarrow> path \<Rightarrow> path \<Rightarrow> world \<Rightarrow> (status \<times> world) option" where
  "ValidateUpdate E system_apex_path new_apex_path w =
     (let (allowed, w1) = ReadSha512 E system_apex_path w
      in case allowed of
           Inl e \<Rightarrow> Some (Inl e, w1)
         | Inr as \<Rightarrow>
             (case CalculateSha512 E new_apex_path w1 of
                None \<Rightarrow> None
              | Some (Inl e, w2) \<Rightarrow> Some (Inl e, w2)
              | Some (Inr actual, w2) \<Rightarrow>
                  Some (if actual \<notin> set as then Inl (ErrAt msg_unexpected_hash new_apex_path)
                        else Success, w2)))"

section \<open>Hashing returns, or does not\<close>

lemma sha512_loop_good:
  "sha512_loop path \<lparr>eofbit = False, failbit = False, badbit = False, ahead = c\<rparr> acc =
     Some (Inr (acc @ c))"
proof (induction "length c" arbitrary: c acc rule: less_induct)
  case less
  show ?case
  proof (cases "length c < kBufSize")
    case True
    then show ?thesis
      by (subst sha512_loop.simps) (simp add: is_read_def, subst sha512_loop.simps, simp)
  next
    case False
    then have "length (drop kBufSize c) < length c" by (simp add: kBufSize_def)
    from less.hyps [OF this, of "acc @ take kBufSize c"] False show ?thesis
      by (subst sha512_loop.simps) (simp add: is_read_def)
  qed
qed

lemma sha512_loop_failed: "failbit s \<Longrightarrow> \<not> eofbit s \<Longrightarrow> \<not> badbit s \<Longrightarrow> sha512_loop path s acc = None"
proof (rule ccontr)
  assume s: "failbit s" "\<not> eofbit s" "\<not> badbit s" and "sha512_loop path s acc \<noteq> None"
  then obtain y where y: "sha512_loop path s acc = Some y" by auto
  have "sha512_loop path s acc = Some y \<Longrightarrow> \<not> (failbit s \<and> \<not> eofbit s \<and> \<not> badbit s)" for path s acc y
    by (erule sha512_loop.raw_induct [rotated]) (fastforce simp: is_read_def split: if_splits)
  from this [OF y] s show False by simp
qed

lemma CalculateSha512_eq:
  "CalculateSha512 E path w =
     (case sys_open E path w of
        (Inl _, w1) \<Rightarrow> None
      | (Inr _, w1) \<Rightarrow>
          (case sys_read E path w1 of
             (Inl _, w2) \<Rightarrow> Some (Inr (bytes_to_hex (sha512 E '''')), w2)
           | (Inr c, w2) \<Rightarrow> Some (Inr (bytes_to_hex (sha512 E c)), w2)))"
  by (auto simp: CalculateSha512_def is_open_def Let_def sha512_loop_good sha512_loop_failed
      split: prod.splits sum.splits)

section \<open>What a valid shim contains\<close>

definition plain_file :: "world \<Rightarrow> path \<Rightarrow> bool" where
  "plain_file w p \<longleftrightarrow> (\<exists>m c. node_at w p = Some (Reg m c) \<and> and m kFordbiddenFilePermissions = 0)"

definition shim_entry :: "world \<Rightarrow> path \<Rightarrow> bool" where
  "shim_entry w p \<longleftrightarrow>
     basename p = kLostFoundFolderName \<and> is_empty_eff p w = Inr True \<or>
     basename p = kEtcFolderName \<and> (\<exists>m. node_at w p = Some (Directory m)) \<and> list_dir w p \<noteq> [] \<and>
       (\<forall>q \<in> set (list_dir w p). basename q = kHashFileName \<and> plain_file w q) \<or>
     basename p = kApexManifestFileName \<and> plain_file w p"

lemma asks_plain [simp]: "asks w w' \<Longrightarrow> plain_file w' = plain_file w"
  by (auto simp: plain_file_def asks_fields fun_eq_iff)

lemma missing_asks: "asks w w' \<Longrightarrow> missing w' = missing w"
  by (auto elim!: asksE)

lemma is_empty_eff_asks: "asks w w' \<Longrightarrow> is_empty_eff p w' = is_empty_eff p w"
  by (simp add: is_empty_eff_def asks_fields missing_asks cong: option.case_cong node.case_cong)

lemma asks_shim_entry [simp]: "asks w w' \<Longrightarrow> shim_entry w' p = shim_entry w p"
  by (auto simp: shim_entry_def asks_fields is_empty_eff_asks)

lemmas shim_hist [simp] = asks_plain [OF asks_hist] asks_shim_entry [OF asks_hist]

lemma each_entry_spec:
  assumes test: "\<And>p w st w'. test p w = (st, w') \<Longrightarrow> asks w w' \<and> (Ok st \<longrightarrow> Q p w)"
    and Q: "\<And>p w w'. asks w w' \<Longrightarrow> Q p w' = Q p w"
  shows "each_entry E d test ps w = (r, w') \<Longrightarrow> asks w w' \<and> (Ok r \<longrightarrow> (\<forall>p \<in> set ps. Q p w))"
proof (induction ps arbitrary: w)
  case (Cons p ps)
  obtain st w1 where t: "test p w = (st, w1)" by (cases "test p w")
  note t1 = test [OF t]
  obtain r2 w2 where q: "query E (SysReadDir d) (\<lambda>_. Inr ()) w1 = (r2, w2)" by fastforce
  have a: "asks w w2" using t1 query_asks [OF q] by (blast intro: asks_trans)
  show ?case
  proof (cases "Ok st \<and> Ok r2")
    case True
    with Cons.prems t q have "each_entry E d test ps w2 = (r, w')" by (auto simp: Ok_iff)
    from Cons.IH [OF this] a True t1 Q [OF a] show ?thesis by (auto intro: asks_trans)
  next
    case False
    with Cons.prems t q t1 a show ?thesis by (auto simp: Ok_def split: sum.splits)
  qed
qed simp

lemma IsRegularFile_spec: "IsRegularFile E p w = (r, w') \<Longrightarrow> asks w w' \<and> (Ok r \<longrightarrow> plain_file w p)"
  by (auto simp: IsRegularFile_def plain_file_def sys_stat_def query_eq stat_eff_def Let_def
      elim!: is_reg.elims split: prod.splits sum.splits option.splits if_splits)

lemma IsHashTxt_spec: "IsHashTxt E p w = (r, w') \<Longrightarrow>
    asks w w' \<and> (Ok r \<longrightarrow> basename p = kHashFileName \<and> plain_file w p)"
  by (auto simp: IsHashTxt_def Let_def dest: IsRegularFile_spec split: prod.splits if_splits)

lemma IsWhitelistedTopLevelEntry_spec:
  assumes "IsWhitelistedTopLevelEntry E p w = (r, w')"
  shows "asks w w' \<and> (Ok r \<longrightarrow> shim_entry w p)"
proof (cases "basename p = kEtcFolderName \<and> basename p \<noteq> kLostFoundFolderName")
  case True
  let ?Q = "\<lambda>q w. basename q = kHashFileName \<and> plain_file w q"
  have each: "asks w1 w2 \<and> (Ok r1 \<longrightarrow> (\<forall>q \<in> set ps. ?Q q w1))"
    if "each_entry E p (IsHashTxt E) ps w1 = (r1, w2)" for ps w1 r1 w2
    by (rule each_entry_spec [where Q = ?Q, OF IsHashTxt_spec _ that]) simp_all
  from assms True show ?thesis
    by (auto simp: IsWhitelistedTopLevelEntry_def query_eq fs_is_empty_def Let_def open_dir_eff_def
        shim_entry_def is_empty_eff_def
        elim!: is_dir.elims dest!: each split: prod.splits sum.splits option.splits bool.splits
        node.splits if_splits) (auto simp: asks_def)
next
  case False
  with assms show ?thesis
    by (auto simp: IsWhitelistedTopLevelEntry_def query_eq fs_is_empty_def Let_def shim_entry_def
        dest: IsRegularFile_spec
        split: prod.splits sum.splits option.splits bool.splits if_splits)
qed

lemma ValidateShimApex_spec:
  assumes "ValidateShimApex E d apex w = (r, w')"
  shows "asks w w' \<and> (Ok r \<longrightarrow> preinstallhook (GetManifest apex) = '''' \<and>
    postinstallhook (GetManifest apex) = '''' \<and> (\<exists>m. node_at w d = Some (Directory m)) \<and>
    (\<forall>p \<in> set (list_dir w d). shim_entry w p))"
proof -
  have each: "asks w1 w2 \<and> (Ok r1 \<longrightarrow> (\<forall>q \<in> set ps. shim_entry w1 q))"
    if "each_entry E d (IsWhitelistedTopLevelEntry E) ps w1 = (r1, w2)" for ps w1 r1 w2
    by (rule each_entry_spec [where Q = "\<lambda>p w. shim_entry w p", OF IsWhitelistedTopLevelEntry_spec _ that])
      simp_all
  from assms show ?thesis
    by (auto simp: ValidateShimApex_def query_eq Let_def open_dir_eff_def
        elim!: is_dir.elims dest!: each split: prod.splits sum.splits option.splits if_splits)
      (auto simp: asks_def)
qed

section \<open>Properties\<close>

text \<open>C33. A mounted shim that is accepted has no hooks and holds nothing but an empty
  \<open>lost+found\<close>, a non-empty \<open>etc\<close> of non-executable regular files named \<open>hash.txt\<close>, and a
  non-executable manifest file; checking it changes nothing.
\<close>

theorem ValidateShimApex_restricts:
  assumes "ValidateShimApex E mp apex w = (r, w')" and "Ok r"
  shows "asks w w' \<and> preinstallhook (GetManifest apex) = '''' \<and>
    postinstallhook (GetManifest apex) = '''' \<and> (\<forall>p \<in> set (list_dir w mp). shim_entry w p)"
  using ValidateShimApex_spec [OF assms(1)] assms(2) by blast

definition sample_shim_world :: world where
  "sample_shim_world = sample_world\<lparr>fs := [(''/apex'', Directory 493), (''/apex/s'', Directory 493),
     (''/apex/s/etc'', Directory 493), (''/apex/s/etc/hash.txt'', Reg 420 ''abcd''),
     (''/apex/s/lost+found'', Directory 448), (''/apex/s/apex_manifest.json'', Reg 420 ''{}''),
     (''/d.apex'', Reg 420 ''zz'')]\<rparr>"

theorem ValidateShimApex_restricts_witness:
  "\<exists>r w'. ValidateShimApex sample_env ''/apex/s'' sample_apex sample_shim_world = (r, w') \<and> Ok r \<and>
     (\<forall>p \<in> set (list_dir sample_shim_world ''/apex/s''). shim_entry sample_shim_world p)"
proof -
  have "Ok (fst (ValidateShimApex sample_env ''/apex/s'' sample_apex sample_shim_world))"
    by code_simp
  then obtain r w' where "ValidateShimApex sample_env ''/apex/s'' sample_apex sample_shim_world = (r, w')"
    "Ok r" by (metis prod.collapse)
  with ValidateShimApex_restricts show ?thesis by blast
qed

text \<open>C27. Without failing calls, an update of the shim is accepted exactly when the printed
  SHA-512 of the new file is a line of the system shim's hash file. When the new file
  cannot be opened the check does not fail: \<open>CalculateSha512\<close> tests \<open>badbit\<close>, which a
  failed open does not set, and then reads for ever.
\<close>

theorem ValidateUpdate_correct:
  assumes "\<And>h ev. fault E h ev = None" and "\<And>h p. \<not> dev_node E h p"
    and "node_at w (slash (slash sys kEtcFolderName) kHashFileName) = Some (Reg m hashes)"
  shows "case node_at w new of
      None \<Rightarrow> ValidateUpdate E sys new w = None
    | Some (Reg m c) \<Rightarrow> (\<exists>r w'. ValidateUpdate E sys new w = Some (r, w') \<and> asks w w' \<and>
        (Ok r \<longleftrightarrow> bytes_to_hex (sha512 E c) \<in> set (Split hashes (CHR 0x0A))))
    | Some _ \<Rightarrow> \<exists>r w'. ValidateUpdate E sys new w = Some (r, w') \<and>
        (Ok r \<longleftrightarrow> bytes_to_hex (sha512 E '''') \<in> set (Split hashes (CHR 0x0A)))"
proof -
  let ?f = "slash (slash sys kEtcFolderName) kHashFileName"
  have r: "ReadSha512 E sys w = (Inr (Split hashes (CHR 0x0A)),
      w\<lparr>hist := SysRead ?f # SysOpen ?f # hist w\<rparr>)"
    using assms(3) by (simp add: ReadSha512_def ReadFileToString_def sys_open_def sys_read_def
        query_def stat_eff_def read_eff_def assms(1) Let_def)
  show ?thesis
    by (auto simp: ValidateUpdate_def r CalculateSha512_eq sys_open_def sys_read_def query_def
        stat_eff_def read_eff_def assms(1,2) split: option.splits node.splits)
qed

theorem ValidateUpdate_correct_witness:
  "ValidateUpdate sample_env ''/apex/s'' ''/missing'' sample_shim_world = None"
proof -
  have "node_at sample_shim_world (slash (slash ''/apex/s'' kEtcFolderName) kHashFileName) =
      Some (Reg 420 ''abcd'')" by code_simp
  moreover have "node_at sample_shim_world ''/missing'' = None" by code_simp
  ultimately show ?thesis
    using ValidateUpdate_correct [of sample_env sample_shim_world "''/apex/s''" 420 "''abcd''" "''/missing''"]
    by (simp add: sample_env_def)
qed

end
