(* ===== verification/Mount.thy ===== *)
theory Mount
  imports Apexd_Loop Apex_Shim
begin

text \<open>
  The part of \<open>apexd/apexd.cpp\<close> that mounts and unmounts packages: verity devices, the
  check of a whole image, \<open>MountPackageImpl\<close> with the clean-up of every failure,
  \<open>Unmount\<close>, temporary mounts, and \<open>apexd/apexd_private.cpp\<close>.
\<close>

definition msg_wait_device :: string where "msg_wait_device = ''Failed to wait for device ''"
definition msg_delete_device :: string where "msg_delete_device = ''Failed to delete device ''"
definition msg_get_path :: string where "msg_get_path = ''Unable to get path for dm-verity device ''"
definition msg_create_verity :: string where "msg_create_verity = ''Couldn't create verity device.''"
definition msg_verity_path :: string where "msg_verity_path = ''Couldn't get verity device path!''"
definition msg_open_device :: string where "msg_open_device = ''Can't open ''"
definition msg_verify_device :: string where "msg_verify_device = ''Can't verify ''"
definition msg_not_updatable :: string where
  "msg_not_updatable = ''Unable to mount non-flattened apex package ''"
definition msg_no_loop_device :: string where "msg_no_loop_device = ''Could not create loop device for ''"
definition msg_verity_data :: string where "msg_verity_data = ''Failed to verify Apex Verity data for ''"
definition msg_verity_device :: string where "msg_verity_device = ''Failed to create Apex Verity device ''"
definition msg_verify_mounted :: string where "msg_verify_mounted = ''Failed to verify ''"
definition msg_mount :: string where "msg_mount = ''Mounting failed for package ''"
definition msg_flattened :: string where "msg_flattened = ''Cannot activate flattened APEX ''"
definition msg_mount_flattened :: string where
  "msg_mount_flattened = ''Mounting failed for flattened package ''"
definition msg_mount_point :: string where "msg_mount_point = ''Could not create mount point ''"
definition msg_mount_point_full :: string where "msg_mount_point_full = '' is not empty''"
definition msg_unmount :: string where "msg_unmount = ''Failed to unmount directory ''"
definition msg_mountpoint :: string where "msg_mountpoint = ''Could not create mountpoint ''"
definition msg_bind :: string where "msg_bind = ''Could not bind-mount ''"
definition msg_did_not_find :: string where "msg_did_not_find = ''Did not find ''"
definition msg_active :: string where "msg_active = '' is active''"
definition msg_unmount_active :: string where "msg_unmount_active = ''Failed to unmount ''"

definition kMkdirMode :: mode where "kMkdirMode = 493"
definition kLoopDeviceSetupAttempts :: nat where "kLoopDeviceSetupAttempts = 3"

section \<open>Bootstrap packages and loop devices\<close>

definition kBootstrapApexes :: "string list" where
  "kBootstrapApexes = [''com.android.runtime'', ''com.android.tzdata'']"

definition isBootstrapApex :: "ApexFile \<Rightarrow> bool" where
  "isBootstrapApex apex \<longleftrightarrow> manifest_name (GetManifest apex) \<in> set kBootstrapApexes"

fun count_loop_devices :: "env \<Rightarrow> path list \<Rightarrow> nat \<Rightarrow> world \<Rightarrow> nat \<times> world" where
  "count_loop_devices E [] n w = (n, w)"
| "count_loop_devices E (path # paths) n w =
     (let (apexFile, w1) = Open E path w
      in case apexFile of
           Inl _ \<Rightarrow> count_loop_devices E paths n w1
         | Inr a \<Rightarrow>
             if IsFlattened a then count_loop_devices E paths n w1
             else count_loop_devices E paths (if isBootstrapApex a then n + 2 else n + 1) w1)"

definition preAllocateLoopDevices :: "env \<Rightarrow> world \<Rightarrow> (status \<times> world) option" where
  "preAllocateLoopDevices E w =
     (let (scan, w1) = FindApexes E kApexPackageBuiltinDirs w
      in case scan of
           Inl e \<Rightarrow> Some (Inl e, w1)
         | Inr paths \<Rightarrow>
             (let (n, w2) = count_loop_devices E paths 0 w1
              in if n = 0 \<or> \<not> kUpdatable E then Some (Success, w2)
                 else loop_preAllocateLoopDevices E n w2))"

section \<open>Verity devices\<close>

definition createVerityTable :: "ApexVerityData \<Rightarrow> path \<Rightarrow> bool \<Rightarrow> DmTable" where
  "createVerityTable verity_data loop restart_on_corruption =
     (let desc = verity_desc verity_data
      in \<lparr>dm_start = 0, dm_length = image_size desc div 512, dm_version = dm_verity_version desc,
          dm_block_device = loop, dm_hash_device = loop,
          dm_data_block_size = data_block_size desc, dm_hash_block_size = hash_block_size desc,
          dm_num_data_blocks = image_size desc div ucast (data_block_size desc),
          dm_hash_start_block = tree_offset desc div ucast (hash_block_size desc),
          dm_hash_algorithm = hash_algorithm desc,
          dm_root_digest = verity_root_digest verity_data, dm_salt = verity_salt verity_data,
          dm_ignore_zero_blocks = True, dm_restart_on_corruption = restart_on_corruption,
          dm_readonly = True\<rparr>)"

text \<open>Calls of libdm: each is recorded, and the environment answers it.\<close>

definition dm_GetState :: "env \<Rightarrow> string \<Rightarrow> world \<Rightarrow> DmDeviceState \<times> world" where
  "dm_GetState E name w = (dm_state E (hist w) name, w\<lparr>hist := Dm (DmGetState name) # hist w\<rparr>)"

definition dm_DeleteDevice :: "env \<Rightarrow> string \<Rightarrow> world \<Rightarrow> bool \<times> world" where
  "dm_DeleteDevice E name w = (dm_deletes E (hist w) name, w\<lparr>hist := Dm (DmDelete name) # hist w\<rparr>)"

definition dm_CreateDevice :: "env \<Rightarrow> string \<Rightarrow> DmTable \<Rightarrow> world \<Rightarrow> bool \<times> world" where
  "dm_CreateDevice E name t w =
     (dm_creates E (hist w) name t, w\<lparr>hist := Dm (DmCreate name t) # hist w\<rparr>)"

definition dm_GetDmDevicePathByName :: "env \<Rightarrow> string \<Rightarrow> world \<Rightarrow> path option \<times> world" where
  "dm_GetDmDevicePathByName E name w =
     (dm_path E (hist w) name, w\<lparr>hist := Dm (DmGetPath name) # hist w\<rparr>)"

datatype WaitForDeviceMode = kWaitToBeCreated | kWaitToBeDeleted

text \<open>The loop with its remaining tries; the last one is not followed by a sleep.\<close>

fun wait_tries :: "env \<Rightarrow> path \<Rightarrow> WaitForDeviceMode \<Rightarrow> nat \<Rightarrow> world \<Rightarrow> status \<times> world" where
  "wait_tries E device mode 0 w = (Inl (ErrAt msg_wait_device device), w)"
| "wait_tries E device mode (Suc n) w =
     (let (status, w1) = PathExists E device w
      in if status = Inr (mode = kWaitToBeCreated) then (Success, w1)
         else wait_tries E device mode n (if n > 0 then w1\<lparr>hist := Sleep # hist w1\<rparr> else w1))"

definition waitForDevice :: "env \<Rightarrow> path \<Rightarrow> WaitForDeviceMode \<Rightarrow> world \<Rightarrow> status \<times> world" where
  "waitForDevice E device mode w =
     wait_tries E device mode (if mode = kWaitToBeCreated then 10 else 15) w"

definition DeleteVerityDevice_path :: "env \<Rightarrow> string \<Rightarrow> path \<Rightarrow> world \<Rightarrow> status \<times> world" where
  "DeleteVerityDevice_path E name path w =
     (let (ok, w1) = dm_DeleteDevice E name w
      in if \<not> ok then (Inl (ErrAt msg_delete_device name), w1)
         else waitForDevice E path kWaitToBeDeleted w1)"

definition DeleteVerityDevice :: "env \<Rightarrow> string \<Rightarrow> world \<Rightarrow> status \<times> world" where
  "DeleteVerityDevice E name w =
     (let (path, w1) = dm_GetDmDevicePathByName E name w
      in case path of
           None \<Rightarrow> (Inl (ErrAt msg_get_path name), w1)
         | Some p \<Rightarrow> DeleteVerityDevice_path E name p w1)"

text \<open>
  A \<open>DmVerityDevice\<close> is its name and path, or nothing once it is cleared; its
  destructor deletes the device. The path is empty until it is known.
\<close>

type_synonym DmVerityDevice = "(string \<times> path) option"

definition destroy_DmVerityDevice :: "env \<Rightarrow> DmVerityDevice \<Rightarrow> world \<Rightarrow> world" where
  "destroy_DmVerityDevice E dev w = (case dev of
      None \<Rightarrow> w
    | Some (name, path) \<Rightarrow> snd (DeleteVerityDevice_path E name path w))"

definition createVerityDevice :: "env \<Rightarrow> string \<Rightarrow> DmTable \<Rightarrow> world \<Rightarrow> (string \<times> path) status_or \<times> world" where
  "createVerityDevice E name table w =
     (let (state, w1) = dm_GetState E name w;
          w2 = (if state \<noteq> DM_INVALID then snd (DeleteVerityDevice E name w1) else w1);
          (ok, w3) = dm_CreateDevice E name table w2
      in if \<not> ok then (Inl (Err msg_create_verity), w3)
         else (let (dev_path, w4) = dm_GetDmDevicePathByName E name w3
               in case dev_path of
                    None \<Rightarrow> (Inl (Err msg_verity_path),
                        destroy_DmVerityDevice E (Some (name, '''')) w4)
                  | Some p \<Rightarrow> (Inr (name, p), w4)))"

text \<open>
  \<open>readVerityDevice\<close>: the device is read from its start in blocks of 4 MiB and one
  shorter block at the end.
\<close>

definition kReadBufSize :: nat where "kReadBufSize = 1024 * 4096"

function read_blocks :: "env \<Rightarrow> path \<Rightarrow> nat \<Rightarrow> nat \<Rightarrow> world \<Rightarrow> status \<times> world" where
  "read_blocks E device offset bytes_left w =
     (if bytes_left = 0 then (Success, w)
      else let to_read = min bytes_left kReadBufSize;
               ok = reads_device E (hist w) device offset to_read;
               w1 = w\<lparr>hist := SysRead device # hist w\<rparr>
           in if \<not> ok then (Inl (ErrAt msg_verify_device device), w1)
              else read_blocks E device (offset + to_read) (bytes_left - to_read) w1)"
  by pat_completeness auto
termination
  by (relation "measure (\<lambda>(E, device, offset, bytes_left, w). bytes_left)")
    (auto simp: kReadBufSize_def)

declare read_blocks.simps [simp del]

definition readVerityDevice :: "env \<Rightarrow> path \<Rightarrow> uint64 \<Rightarrow> world \<Rightarrow> status \<times> world" where
  "readVerityDevice E verity_device device_size w =
     (let (fd, w1) = sys_open E verity_device w
      in case fd of
           Inl e \<Rightarrow> (Inl (PErr msg_open_device verity_device e), w1)
         | Inr _ \<Rightarrow> read_blocks E verity_device 0 (unat device_size) w1)"


section \<open>Mounting\<close>

definition VerifyMountedImage :: "env \<Rightarrow> ApexFile \<Rightarrow> path \<Rightarrow> world \<Rightarrow> status \<times> world" where
  "VerifyMountedImage E apex mountPoint w =
     (let (status, w1) = VerifyManifestMatches E apex mountPoint w
      in if \<not> Ok status then (status, w1)
         else if IsShimApex apex then ValidateShimApex E mountPoint apex w1
         else (Success, w1))"

text \<open>The retry loop around \<open>createLoopDevice\<close>, with the attempts that are left.\<close>

fun create_loop_attempts :: "env \<Rightarrow> ApexFile \<Rightarrow> nat \<Rightarrow> world \<Rightarrow> path status_or \<times> world" where
  "create_loop_attempts E apex 0 w = (Inl (ErrAt msg_no_loop_device (GetPath apex)), w)"
| "create_loop_attempts E apex (Suc n) w =
     (let (ret, w1) = createLoopDevice E (GetPath apex) (GetImageOffset apex) (GetImageSize apex) w
      in case ret of
           Inr name \<Rightarrow> (Inr name, w1)
         | Inl e \<Rightarrow>
             if n = 0 then (Inl (WrapAt msg_no_loop_device (GetPath apex) e), w1)
             else create_loop_attempts E apex n w1)"

text \<open>The last steps, on the loop or verity device: mount it and check what is mounted.\<close>

definition mount_device :: "env \<Rightarrow> ApexFile \<Rightarrow> path \<Rightarrow> path \<Rightarrow> world \<Rightarrow> status \<times> world" where
  "mount_device E apex mountPoint blockDevice w =
     (let (r, w1) = sys_mount_dev E blockDevice mountPoint w
      in case r of
           Inl e \<Rightarrow> (Inl (PErr msg_mount (GetPath apex) e), w1)
         | Inr _ \<Rightarrow>
             (let (status, w2) = VerifyMountedImage E apex mountPoint w1
              in case status of
                   Inl e \<Rightarrow> (Inl (WrapAt msg_verify_mounted (GetPath apex) e),
                       snd (sys_umount E mountPoint w2))
                 | Inr _ \<Rightarrow> (Success, w2)))"

text \<open>The steps after the devices are made; their owner destroys them if this fails.\<close>

definition mount_verified :: "env \<Rightarrow> ApexFile \<Rightarrow> path \<Rightarrow> path \<Rightarrow> bool \<Rightarrow> uint64 \<Rightarrow> world \<Rightarrow> status \<times> world" where
  "mount_verified E apex mountPoint blockDevice read_image imageSize w =
     (let (deviceStatus, w1) = waitForDevice E blockDevice kWaitToBeCreated w
      in if \<not> Ok deviceStatus then (deviceStatus, w1)
         else (let (verityStatus, w2) =
                 (if read_image then readVerityDevice E blockDevice imageSize w1 else (Success, w1))
               in if \<not> Ok verityStatus then (verityStatus, w2)
                  else mount_device E apex mountPoint blockDevice w2))"

definition mount_on_verity :: "env \<Rightarrow> ApexFile \<Rightarrow> path \<Rightarrow> string \<Rightarrow> bool \<Rightarrow> path \<Rightarrow> ApexVerityData \<Rightarrow>
    world \<Rightarrow> status \<times> world" where
  "mount_on_verity E apex mountPoint dm_name verifyImage loop verityData w =
     (let (verityDevRes, w1) =
        createVerityDevice E dm_name (createVerityTable verityData loop (\<not> verifyImage)) w
      in case verityDevRes of
           Inl e \<Rightarrow> (Inl (WrapAt msg_verity_device (GetPath apex) e), w1)
         | Inr (name, dev_path) \<Rightarrow>
             (let (readAheadStatus, w2) = configureReadAhead E dev_path w1;
                  (st, w3) =
                    (if \<not> Ok readAheadStatus then (readAheadStatus, w2)
                     else mount_verified E apex mountPoint dev_path verifyImage
                       (image_size (verity_desc verityData)) w2)
              in (st, if Ok st then w3 else destroy_DmVerityDevice E (Some (name, dev_path)) w3)))"

definition mount_on_loop :: "env \<Rightarrow> ApexFile \<Rightarrow> path \<Rightarrow> string \<Rightarrow> bool \<Rightarrow> path \<Rightarrow> world \<Rightarrow> status \<times> world" where
  "mount_on_loop E apex mountPoint dm_name verifyImage loop w =
     (let (verityData, w1) = VerifyApexVerity E apex w
      in case verityData of
           Inl e \<Rightarrow> (Inl (WrapAt msg_verity_data (GetPath apex) e), w1)
         | Inr v \<Rightarrow>
             let mountOnVerity = gForceDmVerityOnSystem E \<or> \<not> isPathForBuiltinApexes (GetPath apex)
             in if mountOnVerity
                then mount_on_verity E apex mountPoint dm_name verifyImage loop v w1
                else mount_verified E apex mountPoint loop False (image_size (verity_desc v)) w1)"

definition mountNonFlattened :: "env \<Rightarrow> ApexFile \<Rightarrow> path \<Rightarrow> string \<Rightarrow> bool \<Rightarrow> world \<Rightarrow>
    MountedApexData status_or \<times> world" where
  "mountNonFlattened E apex mountPoint dm_name verifyImage w =
     (if \<not> kUpdatable E then (Inl (ErrAt msg_not_updatable (GetPath apex)), w)
      else (let (ret, w1) = create_loop_attempts E apex kLoopDeviceSetupAttempts w
            in case ret of
                 Inl e \<Rightarrow> (Inl e, w1)
               | Inr loop \<Rightarrow>
                   (let (st, w2) = mount_on_loop E apex mountPoint dm_name verifyImage loop w1
                    in case st of
                         Inl e \<Rightarrow> (Inl e, MaybeCloseBad E loop w2)
                       | Inr _ \<Rightarrow>
                           (Inr (MountedApexData loop (GetPath apex) mountPoint dm_name), w2))))"

definition mountFlattened :: "env \<Rightarrow> ApexFile \<Rightarrow> path \<Rightarrow> world \<Rightarrow> MountedApexData status_or \<times> world" where
  "mountFlattened E apex mountPoint w =
     (if \<not> isPathForBuiltinApexes (GetPath apex) then (Inl (ErrAt msg_flattened (GetPath apex)), w)
      else (let (r, w1) = sys_mount_bind E (GetPath apex) mountPoint w
            in (case r of
                  Inr _ \<Rightarrow> Inr (MountedApexData '''' (GetPath apex) mountPoint '''')
                | Inl e \<Rightarrow> Inl (PErr msg_mount_flattened (GetPath apex) e), w1)))"

definition MountPackageImpl :: "env \<Rightarrow> ApexFile \<Rightarrow> path \<Rightarrow> string \<Rightarrow> bool \<Rightarrow> world \<Rightarrow>
    MountedApexData status_or \<times> world" where
  "MountPackageImpl E apex mountPoint dm_name verifyImage w =
     (let (exists, w1) = PathExists E mountPoint w
      in case exists of
           Inl e \<Rightarrow> (Inl e, w1)
         | Inr ex \<Rightarrow>
             (let (made, w2) = (if ex then (Inr (), w1) else sys_mkdir E mountPoint kMkdirMode w1)
              in case made of
                   Inl e \<Rightarrow> (Inl (PErr msg_mount_point mountPoint e), w2)
                 | Inr _ \<Rightarrow>
                     (let (empty, w3) = IsEmptyDirectory E mountPoint w2;
                          (ret, w4) =
                            (if \<not> empty then (Inl (ErrAt msg_mount_point_full mountPoint), w3)
                             else if IsFlattened apex then mountFlattened E apex mountPoint w3
                             else mountNonFlattened E apex mountPoint dm_name verifyImage w3)
                      in (ret, if Ok ret then w4 else snd (sys_rmdir E mountPoint w4)))))"

section \<open>Mount points and temporary mounts\<close>

definition GetPackageMountPoint :: "ApexManifest \<Rightarrow> path" where
  "GetPackageMountPoint m = slash kApexRoot (GetPackageId m)"

definition GetActiveMountPoint :: "ApexManifest \<Rightarrow> path" where
  "GetActiveMountPoint m = slash kApexRoot (manifest_name m)"

definition GetPackageTempMountPoint :: "ApexManifest \<Rightarrow> path" where
  "GetPackageTempMountPoint m = GetPackageMountPoint m @ ''.tmp''"

definition VerifyAndTempMountPackage :: "env \<Rightarrow> ApexFile \<Rightarrow> path \<Rightarrow> world \<Rightarrow>
    MountedApexData status_or \<times> world" where
  "VerifyAndTempMountPackage E apex mountPoint w =
     MountPackageImpl E apex mountPoint (GetPackageId (GetManifest apex) @ ''.tmp'') True w"

definition Unmount :: "env \<Rightarrow> MountedApexData \<Rightarrow> world \<Rightarrow> status \<times> world" where
  "Unmount E data w =
     (let (r, w1) = sys_umount E (mount_point data) w
      in if r \<noteq> Inr () \<and> r \<noteq> Inl EINVAL \<and> r \<noteq> Inl ENOENT
         then (Inl (ErrAt msg_unmount (mount_point data)), w1)
         else
           let w2 = snd (sys_rmdir E (mount_point data) w1);
               w3 = (if device_name data \<noteq> '''' then snd (DeleteVerityDevice E (device_name data) w2)
                     else w2);
               w4 = (if loop_name data \<noteq> '''' then DestroyLoopDevice E (loop_name data) (\<lambda>_ _ w. w) w3
                     else w3)
           in (Success, w4))"

text \<open>
  The check may not return (\<open>None\<close>); when it does, the temporary mount is taken away
  whatever it says.
\<close>

definition RunVerifyFnInsideTempMount :: "env \<Rightarrow> ApexFile \<Rightarrow> (path \<Rightarrow> world \<Rightarrow> (status \<times> world) option) \<Rightarrow>
    world \<Rightarrow> (status \<times> world) option" where
  "RunVerifyFnInsideTempMount E apex verify_fn w =
     (let temp_mount_point = GetPackageTempMountPoint (GetManifest apex);
          (mount_status, w1) = VerifyAndTempMountPackage E apex temp_mount_point w
      in case mount_status of
           Inl e \<Rightarrow> Some (Inl e, w1)
         | Inr data \<Rightarrow>
             (case verify_fn temp_mount_point w1 of
                None \<Rightarrow> None
              | Some (st, w2) \<Rightarrow> Some (st, snd (Unmount E data w2))))"

section \<open>Bind mounts and packages in the database\<close>

definition BindMount :: "env \<Rightarrow> path \<Rightarrow> path \<Rightarrow> world \<Rightarrow> status \<times> world" where
  "BindMount E target source w =
     (let (st, w1) = sys_stat E target w;
          (exists, is_directory) =
            (case st of Inl e \<Rightarrow> if e = ENOENT then (False, False) else (True, True)
             | Inr n \<Rightarrow> (True, is_dir n));
          (exists, w2) =
            (if exists \<and> \<not> is_directory then (False, snd (sys_unlink E target w1)) else (exists, w1));
          (made, w3) = (if \<not> exists then sys_mkdir E target kMkdirMode w2 else (Inr (), w2))
      in case made of
           Inl e \<Rightarrow> (Inl (PErr msg_mountpoint target e), w3)
         | Inr _ \<Rightarrow>
             (let w4 = (if exists then snd (sys_umount E target w3) else w3);
                  (r, w5) = sys_mount_bind E source target w4
              in (case r of Inr _ \<Rightarrow> Success | Inl e \<Rightarrow> Inl (PErr msg_bind target e), w5)))"

text \<open>The last entry of the package that has the path, and its flag.\<close>

definition find_mounted :: "apex_db \<Rightarrow> string \<Rightarrow> path \<Rightarrow> (MountedApexData \<times> bool) option" where
  "find_mounted db package path =
     foldl (\<lambda>r (d, l). if full_path d = path then Some (d, l) else r) None
       (ForallMountedApexes db package)"

definition UnmountPackage :: "env \<Rightarrow> ApexFile \<Rightarrow> bool \<Rightarrow> world \<Rightarrow> status \<times> world" where
  "UnmountPackage E apex allow_latest w =
     (let manifest = GetManifest apex
      in case find_mounted (gMountedApexes w) (manifest_name manifest) (GetPath apex) of
           None \<Rightarrow> (Inl (ErrAt msg_did_not_find (GetPath apex)), w)
         | Some (data, latest) \<Rightarrow>
             if latest \<and> \<not> allow_latest then (Inl (ErrAt msg_active (GetPath apex)), w)
             else
               let mp = GetActiveMountPoint manifest;
                   (r, w1) = (if latest then sys_umount E mp w else (Inr (), w))
               in case r of
                    Inl e \<Rightarrow> (Inl (PErr msg_unmount_active mp e), w1)
                  | Inr _ \<Rightarrow>
                      let w2 = (if latest then snd (sys_rmdir E mp w1) else w1);
                          w3 = w2\<lparr>gMountedApexes := RemoveMountedApex (manifest_name manifest)
                                    (GetPath apex) (gMountedApexes w2)\<rparr>
                      in Unmount E data w3)"

definition MountPackage :: "env \<Rightarrow> ApexFile \<Rightarrow> path \<Rightarrow> world \<Rightarrow> (status \<times> world) option" where
  "MountPackage E apex mountPoint w =
     (let (ret, w1) =
        MountPackageImpl E apex mountPoint (GetPackageId (GetManifest apex)) False w
      in case ret of
           Inl e \<Rightarrow> Some (Inl e, w1)
         | Inr data \<Rightarrow>
             (case AddMountedApex (manifest_name (GetManifest apex)) False data (gMountedApexes w1) of
                None \<Rightarrow> None
              | Some db \<Rightarrow> Some (Success, w1\<lparr>gMountedApexes := db\<rparr>)))"

definition private_UnmountPackage :: "env \<Rightarrow> ApexFile \<Rightarrow> world \<Rightarrow> status \<times> world" where
  "private_UnmountPackage E apex w = UnmountPackage E apex False w"

definition IsMounted :: "apex_db \<Rightarrow> string \<Rightarrow> path \<Rightarrow> bool" where
  "IsMounted db name path \<longleftrightarrow> list_ex (\<lambda>(d, _). full_path d = path) (ForallMountedApexes db name)"

end
