(* ===== verification/Mount_Safety.thy ===== *)
theory Mount_Safety
  imports Mount
begin

text \<open>
  What mounting a package means for the devices of the system: which loop devices are
  attached and which verity devices are live is read off the history. A failed mount
  leaves none behind; a successful one goes through a verity device with the digest of
  a signed descriptor.
\<close>

section \<open>Live devices\<close>

fun dm_live :: "env \<Rightarrow> event list \<Rightarrow> string \<Rightarrow> DmTable option" where
  "dm_live E [] n = None"
| "dm_live E (ev # h) n = (case ev of
      Dm (DmCreate m t) \<Rightarrow> if m = n \<and> dm_creates E h m t then Some t else dm_live E h n
    | Dm (DmDelete m) \<Rightarrow> if m = n \<and> dm_deletes E h m then None else dm_live E h n
    | Restarted \<Rightarrow> None
    | _ \<Rightarrow> dm_live E h n)"

fun inert :: "event \<Rightarrow> bool" where
  "inert (SysIoctl p (LOOP_SET_FD f)) = False"
| "inert (SysIoctl p (LOOP_SET_STATUS64 off sz)) = False"
| "inert (SysIoctl p LOOP_CLR_FD) = False"
| "inert (Dm (DmCreate n t)) = False"
| "inert (Dm (DmDelete n)) = False"
| "inert Restarted = False"
| "inert ev = True"

definition devices :: "env \<Rightarrow> event list \<Rightarrow>
    (path \<Rightarrow> (path \<times> (uint64 \<times> uint64) option) option) \<times> (string \<Rightarrow> DmTable option)" where
  "devices E h = (attached E h, dm_live E h)"

lemma attached_inert: "inert ev \<Longrightarrow> attached E (ev # h) = attached E h"
  by (rule ext) (cases ev rule: inert.cases; simp)

lemma dm_live_inert: "inert ev \<Longrightarrow> dm_live E (ev # h) = dm_live E h"
  by (rule ext) (cases ev rule: inert.cases; simp)

lemma devices_inert [simp]: "inert ev \<Longrightarrow> devices E (ev # h) = devices E h"
  by (simp add: devices_def attached_inert dm_live_inert)

definition quiet :: "env \<Rightarrow> world \<Rightarrow> world \<Rightarrow> bool" where
  "quiet E w w' \<longleftrightarrow> asks w w' \<and> devices E (hist w') = devices E (hist w)"

lemma quiet_refl [simp]: "quiet E w w"
  by (simp add: quiet_def)

lemma quiet_trans [trans]: "quiet E w1 w2 \<Longrightarrow> quiet E w2 w3 \<Longrightarrow> quiet E w1 w3"
  by (auto simp: quiet_def intro: asks_trans)

lemma quietE: "quiet E w w' \<Longrightarrow>
    (\<And>h. w' = w\<lparr>hist := h\<rparr> \<Longrightarrow> devices E h = devices E (hist w) \<Longrightarrow> P) \<Longrightarrow> P"
  by (auto simp: quiet_def elim!: asksE)

lemma quiet_hist [simp]: "quiet E w (w\<lparr>hist := h\<rparr>) \<longleftrightarrow> devices E h = devices E (hist w)"
  by (simp add: quiet_def)

lemma quiet_asks: "quiet E w w' \<Longrightarrow> asks w w'"
  by (simp add: quiet_def)

lemma query_quiet: "query E ev f w = (r, w') \<Longrightarrow> inert ev \<Longrightarrow> quiet E w w'"
  by (auto simp: query_eq)

lemma sys_stat_quiet: "sys_stat E p w = (r, w') \<Longrightarrow> quiet E w w'"
  by (auto simp: sys_stat_def query_eq)

lemma sys_open_quiet: "sys_open E p w = (r, w') \<Longrightarrow> quiet E w w'"
  by (auto simp: sys_open_def query_eq)

lemma ReadFileToString_quiet: "ReadFileToString E p w = (r, w') \<Longrightarrow> quiet E w w'"
  by (auto simp: ReadFileToString_def sys_open_def sys_read_def query_eq Let_def
      split: prod.splits sum.splits)

lemma PathExists_quiet: "PathExists E p w = (r, w') \<Longrightarrow> quiet E w w'"
  by (auto simp: PathExists_def Let_def sys_stat_quiet split: prod.splits if_splits)

lemma walk_from_quiet:
  assumes "\<And>p s w s' w'. fn p s w = (s', w') \<Longrightarrow> quiet E w w'"
  shows "walk_from E d fn ps s w = (s', r, w') \<Longrightarrow> quiet E w w'"
proof (induction ps arbitrary: s w)
  case (Cons p ps)
  obtain s1 w1 where f: "fn p s w = (s1, w1)" by (cases "fn p s w")
  note q1 = assms [OF f]
  obtain r2 w2 where q: "query E (SysReadDir d) (\<lambda>_. Inr ()) w1 = (r2, w2)" by fastforce
  have q2: "quiet E w w2" using q1 query_quiet [OF q] quiet_trans by simp
  show ?case
  proof (cases r2)
    case (Inl e)
    with Cons.prems f q q2 show ?thesis by simp
  next
    case (Inr u)
    with Cons.prems f q have "walk_from E d fn ps s1 w2 = (s', r, w')" by simp
    from Cons.IH [OF this] q2 show ?thesis by (blast intro: quiet_trans)
  qed
qed simp

lemma WalkDir_quiet:
  assumes "\<And>p s w s' w'. fn p s w = (s', w') \<Longrightarrow> quiet E w w'"
    and "WalkDir E d fn s w = (s', r, w')"
  shows "quiet E w w'"
proof -
  obtain r1 w1 where q: "query E (SysOpenDir d) (open_dir_eff d) w = (r1, w1)" by fastforce
  have q1: "quiet E w w1" by (rule query_quiet [OF q]) simp
  show ?thesis
  proof (cases r1)
    case (Inl e)
    with assms(2) q q1 show ?thesis by (simp add: WalkDir_def)
  next
    case (Inr ps)
    obtain s2 r2 w2 where wf: "walk_from E d fn ps s w1 = (s2, r2, w2)"
      by (cases "walk_from E d fn ps s w1")
    with assms(2) q Inr have w': "w' = w2" by (cases r2) (simp_all add: WalkDir_def)
    have "quiet E w1 w2" by (rule walk_from_quiet [where fn = fn, OF _ wf]) (rule assms(1))
    with q1 show ?thesis unfolding w' by (rule quiet_trans)
  qed
qed

lemma ReadDir_quiet: "ReadDir E d flt w = (r, w') \<Longrightarrow> quiet E w w'"
proof -
  let ?fn = "\<lambda>p ret w. (if flt p (node_at w p) then ret @ [p] else ret, w)"
  assume r: "ReadDir E d flt w = (r, w')"
  obtain ret st w1 where wd: "WalkDir E d ?fn [] w = (ret, st, w1)" by (rule prod_cases3)
  have w': "w' = w1" using r unfolding ReadDir_def wd by (cases st) simp_all
  show ?thesis unfolding w' by (rule WalkDir_quiet [where fn = ?fn, OF _ wd]) simp
qed

lemma IsEmptyDirectory_quiet: "IsEmptyDirectory E p w = (b, w') \<Longrightarrow> quiet E w w'"
  by (auto simp: IsEmptyDirectory_def Let_def dest: ReadDir_quiet split: prod.splits)

lemma VerifyApexVerity_quiet: "VerifyApexVerity E a w = (r, w') \<Longrightarrow> quiet E w w'"
proof -
  have g: "getAvbFooter E a fd w1 = (r1, w2) \<Longrightarrow> quiet E w1 w2" for fd w1 r1 w2
    by (auto simp: getAvbFooter_def pread_def query_eq Let_def split: prod.splits if_splits)
  have v: "verifyVbMeta E a fd ft w1 = (r1, w2) \<Longrightarrow> quiet E w1 w2" for fd ft w1 r1 w2
    by (auto simp: verifyVbMeta_def pread_def query_eq Let_def split: prod.splits if_splits)
  assume "VerifyApexVerity E a w = (r, w')"
  then show ?thesis
    by (auto simp: VerifyApexVerity_def sys_open_def query_eq Let_def
        dest!: g v elim!: quietE split: prod.splits sum.splits)
qed

lemma each_entry_quiet:
  assumes "\<And>p w st w'. test p w = (st, w') \<Longrightarrow> quiet E w w'"
  shows "each_entry E d test ps w = (r, w') \<Longrightarrow> quiet E w w'"
proof (induction ps arbitrary: w)
  case (Cons p ps)
  obtain st w1 where t: "test p w = (st, w1)" by (cases "test p w")
  obtain r2 w2 where q: "query E (SysReadDir d) (\<lambda>_. Inr ()) w1 = (r2, w2)" by fastforce
  have q2: "quiet E w w1" "quiet E w w2"
    using assms [OF t] query_quiet [OF q] quiet_trans by simp_all
  show ?case
    using Cons.prems Cons.IH [of w2] t q q2
    by (auto split: if_splits sum.splits intro: quiet_trans)
qed simp

lemma IsRegularFile_quiet: "IsRegularFile E p w = (r, w') \<Longrightarrow> quiet E w w'"
  by (auto simp: IsRegularFile_def Let_def dest: sys_stat_quiet split: prod.splits)

lemma IsHashTxt_quiet: "IsHashTxt E p w = (r, w') \<Longrightarrow> quiet E w w'"
  by (auto simp: IsHashTxt_def Let_def dest: IsRegularFile_quiet split: prod.splits if_splits)

lemma each_hash_quiet: "each_entry E d (IsHashTxt E) ps w = (r, w') \<Longrightarrow> quiet E w w'"
  by (rule each_entry_quiet [where test = "IsHashTxt E"], rule IsHashTxt_quiet)

lemma IsWhitelistedTopLevelEntry_quiet: "IsWhitelistedTopLevelEntry E p w = (r, w') \<Longrightarrow> quiet E w w'"
  by (auto simp: IsWhitelistedTopLevelEntry_def fs_is_empty_def query_eq Let_def
      dest: IsRegularFile_quiet dest!: each_hash_quiet elim!: quietE
      split: prod.splits sum.splits bool.splits if_splits)

lemma each_top_quiet: "each_entry E d (IsWhitelistedTopLevelEntry E) ps w = (r, w') \<Longrightarrow> quiet E w w'"
  by (rule each_entry_quiet [where test = "IsWhitelistedTopLevelEntry E"],
    rule IsWhitelistedTopLevelEntry_quiet)

lemma ValidateShimApex_quiet: "ValidateShimApex E d a w = (r, w') \<Longrightarrow> quiet E w w'"
  by (auto simp: ValidateShimApex_def query_eq Let_def dest!: each_top_quiet elim!: quietE
      split: prod.splits sum.splits if_splits)

lemma VerifyMountedImage_quiet: "VerifyMountedImage E a p w = (r, w') \<Longrightarrow> quiet E w w'"
  by (auto simp: VerifyMountedImage_def VerifyManifestMatches_def Let_def
      dest!: ReadFileToString_quiet ValidateShimApex_quiet elim!: quietE
      split: prod.splits if_splits)

lemma wait_tries_quiet: "wait_tries E d m n w = (r, w') \<Longrightarrow> quiet E w w'"
proof (induction n arbitrary: w)
  case (Suc n)
  obtain st w1 where p: "PathExists E d w = (st, w1)" by (cases "PathExists E d w")
  have q: "quiet E w w1" "quiet E w (if n > 0 then w1\<lparr>hist := Sleep # hist w1\<rparr> else w1)"
    using PathExists_quiet [OF p] by (auto elim!: quietE)
  with Suc.prems Suc.IH p show ?case
    by (auto split: if_splits intro: quiet_trans)
qed simp

lemma waitForDevice_quiet: "waitForDevice E d m w = (r, w') \<Longrightarrow> quiet E w w'"
  unfolding waitForDevice_def by (rule wait_tries_quiet)

lemma read_blocks_quiet: "read_blocks E d off n w = (r, w') \<Longrightarrow> quiet E w w'"
proof (induction n arbitrary: off w rule: less_induct)
  case (less n)
  let ?k = "min n kReadBufSize" and ?w1 = "w\<lparr>hist := SysRead d # hist w\<rparr>"
  show ?case
  proof (cases "n \<noteq> 0 \<and> reads_device E (hist w) d off ?k")
    case True
    with less.prems have "read_blocks E d (off + ?k) (n - ?k) ?w1 = (r, w')"
      by (subst (asm) read_blocks.simps) (simp add: Let_def)
    from less.IH [OF _ this] True have "quiet E ?w1 w'" by (simp add: kReadBufSize_def)
    then show ?thesis by (rule quiet_trans [rotated]) simp
  next
    case False
    with less.prems show ?thesis
      by (subst (asm) read_blocks.simps) (auto simp: Let_def split: if_splits)
  qed
qed

lemma readVerityDevice_quiet: "readVerityDevice E d n w = (r, w') \<Longrightarrow> quiet E w w'"
  by (auto simp: readVerityDevice_def Let_def dest!: sys_open_quiet read_blocks_quiet
      split: prod.splits sum.splits elim!: quietE)

lemma configureReadAhead_quiet: "configureReadAhead E d w = (r, w') \<Longrightarrow> quiet E w w'"
  by (auto simp: configureReadAhead_def sys_open_def query_eq Let_def
      split: prod.splits sum.splits if_splits)

lemmas quiet_steps = PathExists_quiet IsEmptyDirectory_quiet VerifyApexVerity_quiet
  VerifyMountedImage_quiet waitForDevice_quiet readVerityDevice_quiet configureReadAhead_quiet

section \<open>Making and destroying devices\<close>

text \<open>What the clean-up code relies on: its own calls work.\<close>

definition cleanup_works :: "env \<Rightarrow> bool" where
  "cleanup_works E \<longleftrightarrow> (\<forall>h d. fault E h (SysIoctl d LOOP_CLR_FD) = None) \<and>
     (\<forall>h p. fault E h (SysUmount p) = None) \<and> (\<forall>h n. dm_deletes E h n)"

text \<open>Nothing is attached or live that was not before.\<close>

definition no_new_devices :: "env \<Rightarrow> world \<Rightarrow> world \<Rightarrow> bool" where
  "no_new_devices E w w' \<longleftrightarrow>
     (\<forall>d. attached E (hist w') d = None \<or> attached E (hist w') d = attached E (hist w) d) \<and>
     (\<forall>n. dm_live E (hist w') n = None \<or> dm_live E (hist w') n = dm_live E (hist w) n)"

lemma no_new_devices_refl [simp]: "no_new_devices E w w"
  by (simp add: no_new_devices_def)

lemma no_new_devices_trans: "no_new_devices E w1 w2 \<Longrightarrow> no_new_devices E w2 w3 \<Longrightarrow> no_new_devices E w1 w3"
  unfolding no_new_devices_def by metis

lemma no_new_devices_same: "devices E (hist w') = devices E (hist w) \<Longrightarrow> no_new_devices E w w'"
  by (simp add: no_new_devices_def devices_def)

lemma same_loops_attached: "same_loops E w w' \<Longrightarrow> attached E (hist w') = attached E (hist w)"
  by (simp add: same_loops_def)

lemma dm_live_loops [simp]:
  "dm_live E (SysIoctl p c # h) = dm_live E h" "dm_live E (SysOpen p # h) = dm_live E h"
  "dm_live E (SysWrite p x # h) = dm_live E h" "dm_live E (Sleep # h) = dm_live E h"
  by (auto simp: fun_eq_iff)

lemma open_loop_dm: "open_loop E d n w = (r, w') \<Longrightarrow> dm_live E (hist w') = dm_live E (hist w)"
proof (induction n arbitrary: w)
  case (Suc n)
  then show ?case
    by (auto simp: sys_open_def query_eq Let_def split: prod.splits sum.splits if_splits)
qed simp

lemma configureReadAhead_dm: "configureReadAhead E d w = (r, w') \<Longrightarrow>
    dm_live E (hist w') = dm_live E (hist w)"
  by (drule configureReadAhead_quiet) (auto elim!: quietE simp: devices_def)

lemma createLoopDevice_dm:
  "createLoopDevice E f off sz w = (r, w') \<Longrightarrow> dm_live E (hist w') = dm_live E (hist w)"
  by (auto simp: createLoopDevice_def setup_loop_def sys_open_def sys_ioctl_def MaybeCloseBad_def
      query_def Let_def dest!: open_loop_dm configureReadAhead_dm
      split: prod.splits sum.splits option.splits)

lemma create_loop_attempts_spec:
  assumes "create_loop_attempts E apex n w = (r, w')"
  shows "asks w w' \<and> dm_live E (hist w') = dm_live E (hist w) \<and>
    (\<forall>d. cleanup_works E \<longrightarrow> r \<noteq> Inr d \<longrightarrow>
       attached E (hist w') d = None \<or> attached E (hist w') d = attached E (hist w) d) \<and>
    (\<forall>d. r = Inr d \<longrightarrow>
       attached E (hist w') d = Some (GetPath apex, Some (scast (GetImageOffset apex), GetImageSize apex)))"
  using assms(1)
proof (induction n arbitrary: w)
  case (Suc n)
  obtain r1 w1 where c: "createLoopDevice E (GetPath apex) (GetImageOffset apex) (GetImageSize apex) w = (r1, w1)"
    by (cases "createLoopDevice E (GetPath apex) (GetImageOffset apex) (GetImageSize apex) w")
  have rel: "cleanup_works E \<Longrightarrow> reliable E (SysIoctl d LOOP_CLR_FD)" for d
    by (simp add: cleanup_works_def reliable_def)
  note s = createLoopDevice_spec [OF c] and dm = createLoopDevice_dm [OF c]
  show ?case
  proof (cases r1)
    case (Inr d)
    with Suc.prems c s dm show ?thesis by auto
  next
    case (Inl e)
    then have s1: "asks w w1"
      "\<And>d. cleanup_works E \<Longrightarrow> attached E (hist w1) d = None \<or> attached E (hist w1) d = attached E (hist w) d"
      using s rel by auto
    show ?thesis
    proof (cases "n = 0")
      case True
      with Suc.prems c Inl s1 dm show ?thesis by auto
    next
      case False
      with Suc.prems c Inl have "create_loop_attempts E apex n w1 = (r, w')" by simp
      note IH = Suc.IH [OF this]
      have "asks w w'" using s1(1) IH asks_trans by blast
      moreover have "attached E (hist w') d = None \<or> attached E (hist w') d = attached E (hist w) d"
        if "cleanup_works E" "r \<noteq> Inr d" for d
        using IH s1(2) [of d] that by auto
      ultimately show ?thesis using IH dm by simp
    qed
  qed
qed auto

lemma attached_Dm [simp]: "attached E (Dm c # h) = attached E h"
  by (auto simp: fun_eq_iff)

lemma DeleteVerityDevice_path_spec:
  assumes "DeleteVerityDevice_path E n p w = (r, w')"
  shows "asks w w' \<and> attached E (hist w') = attached E (hist w) \<and>
    dm_live E (hist w') = (dm_live E (hist w))(n := if dm_deletes E (hist w) n then None
      else dm_live E (hist w) n)"
proof -
  have w: "waitForDevice E p kWaitToBeDeleted w1 = (r1, w2) \<Longrightarrow> asks w1 w2 \<and>
      attached E (hist w2) = attached E (hist w1) \<and> dm_live E (hist w2) = dm_live E (hist w1)" for w1 r1 w2
    using waitForDevice_quiet by (auto simp: quiet_def devices_def)
  from assms show ?thesis
    by (auto simp: DeleteVerityDevice_path_def dm_DeleteDevice_def Let_def fun_eq_iff
        dest!: w elim!: asksE split: prod.splits if_splits)
qed

lemma destroy_spec:
  "asks w (destroy_DmVerityDevice E (Some (n, p)) w) \<and>
   attached E (hist (destroy_DmVerityDevice E (Some (n, p)) w)) = attached E (hist w) \<and>
   dm_live E (hist (destroy_DmVerityDevice E (Some (n, p)) w)) =
     (dm_live E (hist w))(n := if dm_deletes E (hist w) n then None else dm_live E (hist w) n)"
  using DeleteVerityDevice_path_spec [of E n p w "fst (DeleteVerityDevice_path E n p w)"
      "snd (DeleteVerityDevice_path E n p w)"]
  by (simp add: destroy_DmVerityDevice_def)

lemma DeleteVerityDevice_spec:
  assumes "DeleteVerityDevice E n w = (r, w')"
  shows "asks w w' \<and> attached E (hist w') = attached E (hist w) \<and>
    (\<forall>m. m \<noteq> n \<longrightarrow> dm_live E (hist w') m = dm_live E (hist w) m) \<and>
    (dm_live E (hist w') n = None \<or> dm_live E (hist w') n = dm_live E (hist w) n)"
proof -
  have d: "dm_live E (Dm (DmGetPath n) # h) = dm_live E h" for h by (simp add: dm_live_inert)
  from assms show ?thesis
    by (auto simp: DeleteVerityDevice_def dm_GetDmDevicePathByName_def Let_def d
        dest!: DeleteVerityDevice_path_spec elim!: asksE split: prod.splits option.splits)
qed

lemma createVerityDevice_spec:
  assumes "createVerityDevice E n t w = (r, w')"
  shows "asks w w' \<and> attached E (hist w') = attached E (hist w) \<and>
    (\<forall>m. m \<noteq> n \<longrightarrow> dm_live E (hist w') m = dm_live E (hist w) m) \<and>
    (case r of
       Inr (m, p) \<Rightarrow> m = n \<and> dm_live E (hist w') n = Some t \<and> (\<exists>h. dm_path E h n = Some p)
     | Inl _ \<Rightarrow> (\<forall>h. dm_deletes E h n) \<longrightarrow>
         dm_live E (hist w') n = None \<or> dm_live E (hist w') n = dm_live E (hist w) n)"
proof -
  have d: "dm_live E (Dm (DmGetPath n) # h) = dm_live E h" "dm_live E (Dm (DmGetState n) # h) = dm_live E h"
    for h by (simp_all add: dm_live_inert)
  define w1 where "w1 = w\<lparr>hist := Dm (DmGetState n) # hist w\<rparr>"
  define w2 where "w2 = (if dm_state E (hist w) n \<noteq> DM_INVALID then snd (DeleteVerityDevice E n w1) else w1)"
  have w2: "asks w w2 \<and> attached E (hist w2) = attached E (hist w) \<and>
      (\<forall>m. m \<noteq> n \<longrightarrow> dm_live E (hist w2) m = dm_live E (hist w) m) \<and>
      (dm_live E (hist w2) n = None \<or> dm_live E (hist w2) n = dm_live E (hist w) n)"
    using DeleteVerityDevice_spec [of E n w1 "fst (DeleteVerityDevice E n w1)"
        "snd (DeleteVerityDevice E n w1)"]
    by (auto simp: w2_def w1_def d elim!: asksE)
  from assms have "w' = (if dm_creates E (hist w2) n t \<and>
      dm_path E (Dm (DmCreate n t) # hist w2) n = None
      then destroy_DmVerityDevice E (Some (n, ''''))
        (w2\<lparr>hist := Dm (DmGetPath n) # Dm (DmCreate n t) # hist w2\<rparr>)
      else if dm_creates E (hist w2) n t
      then w2\<lparr>hist := Dm (DmGetPath n) # Dm (DmCreate n t) # hist w2\<rparr>
      else w2\<lparr>hist := Dm (DmCreate n t) # hist w2\<rparr>)"
    and r: "r = (if \<not> dm_creates E (hist w2) n t then Inl (Err msg_create_verity)
      else case dm_path E (Dm (DmCreate n t) # hist w2) n of None \<Rightarrow> Inl (Err msg_verity_path)
        | Some p \<Rightarrow> Inr (n, p))"
    by (auto simp: createVerityDevice_def dm_GetState_def dm_CreateDevice_def
        dm_GetDmDevicePathByName_def Let_def w1_def [symmetric] w2_def [symmetric]
        split: if_splits option.splits)
  with w2 destroy_spec [of "w2\<lparr>hist := Dm (DmGetPath n) # Dm (DmCreate n t) # hist w2\<rparr>" E n "''''"]
  show ?thesis
    by (auto simp: d elim!: asksE split: option.splits if_splits)
qed

section \<open>Mounting on a device\<close>

text \<open>Only the mount table and the history change.\<close>

definition only_mnts :: "world \<Rightarrow> world \<Rightarrow> bool" where
  "only_mnts w w' \<longleftrightarrow> w'\<lparr>mnts := mnts w, hist := hist w\<rparr> = w"

lemma only_mnts_upd [simp]: "only_mnts w (w\<lparr>mnts := m, hist := h\<rparr>)" "only_mnts w (w\<lparr>hist := h\<rparr>)"
  by (simp_all add: only_mnts_def)

lemma only_mnts_refl [simp]: "only_mnts w w"
  by (simp add: only_mnts_def)

lemma only_mnts_asks: "asks w w' \<Longrightarrow> only_mnts w w'"
  by (auto simp: asks_def)

lemma only_mnts_trans: "only_mnts w1 w2 \<Longrightarrow> only_mnts w2 w3 \<Longrightarrow> only_mnts w1 w3"
  by (cases w1; cases w2; cases w3) (auto simp: only_mnts_def)

lemma only_mnts_only_fs: "only_mnts w w' \<Longrightarrow> mnts w' = mnts w \<Longrightarrow> asks w w'"
  by (cases w; cases w') (auto simp: only_mnts_def asks_def)

text \<open>The image a device shows, mounted and checked against its package.\<close>

definition image_mounted :: "env \<Rightarrow> ApexFile \<Rightarrow> path \<Rightarrow> path \<Rightarrow> world \<Rightarrow> world \<Rightarrow> bool" where
  "image_mounted E apex mp dev w w' \<longleftrightarrow>
     (\<exists>img h w1 w2. ext4_image E h dev = Some img \<and> mnts w' = (mp, img) # mnts w \<and>
        VerifyMountedImage E apex mp w1 = (Success, w2) \<and> only_mnts w w1 \<and> mnts w1 = (mp, img) # mnts w)"

lemma image_mounted_asks: "image_mounted E apex mp dev w1 w' \<Longrightarrow> asks w w1 \<Longrightarrow> image_mounted E apex mp dev w w'"
proof -
  assume a: "asks w w1" and "image_mounted E apex mp dev w1 w'"
  then obtain img h w2 w3 where "ext4_image E h dev = Some img" "mnts w' = (mp, img) # mnts w1"
    "VerifyMountedImage E apex mp w2 = (Success, w3)" "only_mnts w1 w2" "mnts w2 = (mp, img) # mnts w1"
    unfolding image_mounted_def by blast
  moreover from this(4) have "only_mnts w w2" using only_mnts_trans [OF only_mnts_asks [OF a]] by blast
  ultimately show ?thesis
    unfolding image_mounted_def asks_fields(2) [OF a] by blast
qed

lemma sys_mount_dev_spec:
  assumes "sys_mount_dev E dev mp w = (r, w')"
  shows "devices E (hist w') = devices E (hist w) \<and> (case r of
      Inl _ \<Rightarrow> asks w w'
    | Inr _ \<Rightarrow> \<exists>img. ext4_image E (hist w) dev = Some img \<and>
        w' = w\<lparr>mnts := (mp, img) # mnts w, hist := SysMount dev mp # hist w\<rparr>)"
  using assms
  by (auto simp: sys_mount_dev_def mnt_call_def mount_dev_eff_def
      split: option.splits sum.splits if_splits)

lemma sys_umount_spec:
  assumes "sys_umount E mp w = (r, w')"
  shows "devices E (hist w') = devices E (hist w) \<and> only_mnts w w' \<and>
    (mnts w = (mp, img) # m \<longrightarrow> fault E (hist w) (SysUmount mp) = None \<longrightarrow> mnts w' = m)"
  using assms
  by (auto simp: sys_umount_def mnt_call_def umount_eff_def
      split: option.splits sum.splits if_splits)

lemma mount_device_spec:
  assumes "mount_device E apex mp dev w = (r, w')"
  shows "only_mnts w w' \<and> devices E (hist w') = devices E (hist w) \<and>
    (Ok r \<longrightarrow> image_mounted E apex mp dev w w') \<and> (\<not> Ok r \<longrightarrow> cleanup_works E \<longrightarrow> mnts w' = mnts w)"
proof -
  obtain r1 w1 where m: "sys_mount_dev E dev mp w = (r1, w1)" by (cases "sys_mount_dev E dev mp w")
  note m1 = sys_mount_dev_spec [OF m]
  show ?thesis
  proof (cases r1)
    case (Inl e)
    with assms m m1 show ?thesis by (auto simp: mount_device_def asks_fields intro: only_mnts_asks)
  next
    case (Inr u)
    with m1 obtain img where img: "ext4_image E (hist w) dev = Some img"
      and w1: "w1 = w\<lparr>mnts := (mp, img) # mnts w, hist := SysMount dev mp # hist w\<rparr>" by auto
    obtain st w2 where v: "VerifyMountedImage E apex mp w1 = (st, w2)"
      by (cases "VerifyMountedImage E apex mp w1")
    obtain h where w2: "w2 = w1\<lparr>hist := h\<rparr>" "devices E h = devices E (hist w1)"
      using VerifyMountedImage_quiet [OF v] by (auto elim: quietE)
    obtain r3 w3 where um: "sys_umount E mp w2 = (r3, w3)" by (cases "sys_umount E mp w2")
    have dev2: "devices E (hist w2) = devices E (hist w)" by (simp add: w2 w1)
    have om1: "only_mnts w w1" by (simp add: w1)
    have om: "only_mnts w w2" by (rule only_mnts_trans [OF om1]) (simp add: w2)
    show ?thesis
    proof (cases st)
      case (Inr u')
      with assms m \<open>r1 = Inr u\<close> v have "r = Success" "w' = w2" by (auto simp: mount_device_def)
      moreover have "image_mounted E apex mp dev w w2"
        unfolding image_mounted_def
        using img v Inr om1 by (intro exI [of _ img] exI [of _ "hist w"] exI [of _ w1] exI [of _ w2])
          (simp add: w2 w1)
      ultimately show ?thesis using om dev2 by simp
    next
      case (Inl e)
      with assms m \<open>r1 = Inr u\<close> v um have r: "\<not> Ok r" "w' = w3" by (auto simp: mount_device_def)
      have "mnts w2 = (mp, img) # mnts w" by (simp add: w2 w1)
      with sys_umount_spec [OF um] om dev2 r show ?thesis
        by (auto simp: cleanup_works_def intro: only_mnts_trans)
    qed
  qed
qed

text \<open>The whole device was read, when the image had to be verified.\<close>

definition device_read :: "env \<Rightarrow> path \<Rightarrow> uint64 \<Rightarrow> bool" where
  "device_read E dev n \<longleftrightarrow> (\<exists>w w'. readVerityDevice E dev n w = (Success, w'))"

lemma mount_verified_spec:
  assumes "mount_verified E apex mp dev rd n w = (r, w')"
  shows "only_mnts w w' \<and> devices E (hist w') = devices E (hist w) \<and>
    (Ok r \<longrightarrow> image_mounted E apex mp dev w w' \<and> (rd \<longrightarrow> device_read E dev n)) \<and>
    (\<not> Ok r \<longrightarrow> cleanup_works E \<longrightarrow> mnts w' = mnts w)"
proof -
  obtain r1 w1 where a: "waitForDevice E dev kWaitToBeCreated w = (r1, w1)"
    by (cases "waitForDevice E dev kWaitToBeCreated w")
  obtain r2 w2 where b: "(if rd then readVerityDevice E dev n w1 else (Success, w1)) = (r2, w2)"
    by fastforce
  have q1: "quiet E w w1" by (rule waitForDevice_quiet [OF a])
  have q2: "quiet E w w2"
    using b q1 by (auto split: if_splits intro: quiet_trans readVerityDevice_quiet)
  have d: "devices E (hist w1) = devices E (hist w)" "devices E (hist w2) = devices E (hist w)"
    "asks w w1" "asks w w2"
    using q1 q2 by (auto simp: quiet_def)
  show ?thesis
  proof (cases "Ok r1 \<and> Ok r2")
    case False
    with assms a b d show ?thesis
      by (auto simp: mount_verified_def asks_fields intro: only_mnts_asks split: if_splits)
  next
    case True
    with assms a b have m: "mount_device E apex mp dev w2 = (r, w')" by (simp add: mount_verified_def)
    have "rd \<longrightarrow> device_read E dev n"
      using True b unfolding device_read_def Ok_iff by (cases rd) auto
    then show ?thesis
      using mount_device_spec [OF m] d
      by (auto simp: asks_fields intro: only_mnts_trans only_mnts_asks image_mounted_asks)
  qed
qed


section \<open>Mounting a package\<close>

text \<open>
  The verity device a package is mounted on: its table has the digest and salt of an
  authentic descriptor and reads through the package's loop device.
\<close>

definition verity_backed :: "env \<Rightarrow> world \<Rightarrow> ApexFile \<Rightarrow> string \<Rightarrow> path \<Rightarrow> bool \<Rightarrow> ApexVerityData \<Rightarrow> path \<Rightarrow> bool" where
  "verity_backed E w' apex name loop verifyImage v dev \<longleftrightarrow>
     dm_live E (hist w') name = Some (createVerityTable v loop (\<not> verifyImage)) \<and>
     (\<exists>h. dm_path E h name = Some dev) \<and>
     (verifyImage \<longrightarrow> device_read E dev (image_size (verity_desc v)))"

lemma mount_on_verity_spec:
  assumes "mount_on_verity E apex mp dm vi loop v w = (r, w')"
  shows "only_mnts w w' \<and> attached E (hist w') = attached E (hist w) \<and>
    (Ok r \<longrightarrow> (\<exists>dev. verity_backed E w' apex dm loop vi v dev \<and> image_mounted E apex mp dev w w')) \<and>
    (\<not> Ok r \<longrightarrow> cleanup_works E \<longrightarrow> mnts w' = mnts w \<and> no_new_devices E w w')"
proof -
  let ?t = "createVerityTable v loop (\<not> vi)"
  obtain r1 w1 where c: "createVerityDevice E dm ?t w = (r1, w1)" by (cases "createVerityDevice E dm ?t w")
  note cs = createVerityDevice_spec [OF c]
  then have a1: "asks w w1" "attached E (hist w1) = attached E (hist w)" by auto
  show ?thesis
  proof (cases r1)
    case (Inl e)
    have "no_new_devices E w w1" if "cleanup_works E"
      using cs that Inl by (auto simp: no_new_devices_def cleanup_works_def) metis
    with assms c Inl a1 show ?thesis
      by (auto simp: mount_on_verity_def asks_fields intro: only_mnts_asks)
  next
    case (Inr np)
    then obtain p where np: "np = (dm, p)" using cs by (cases np) auto
    obtain r2 w2 where ra: "configureReadAhead E p w1 = (r2, w2)" by (cases "configureReadAhead E p w1")
    note q2 = configureReadAhead_quiet [OF ra]
    obtain r3 w3 where m: "(if \<not> Ok r2 then (r2, w2) else mount_verified E apex mp p vi
        (image_size (verity_desc v)) w2) = (r3, w3)" by fastforce
    from assms c Inr np ra m have r: "r = r3"
      "w' = (if Ok r3 then w3 else destroy_DmVerityDevice E (Some (dm, p)) w3)"
      by (auto simp: mount_on_verity_def Let_def)
    have m3: "only_mnts w2 w3 \<and> devices E (hist w3) = devices E (hist w2) \<and>
      (Ok r3 \<longrightarrow> image_mounted E apex mp p w2 w3 \<and> (vi \<longrightarrow> device_read E p (image_size (verity_desc v)))) \<and>
      (\<not> Ok r3 \<longrightarrow> cleanup_works E \<longrightarrow> mnts w3 = mnts w2)"
      using m mount_verified_spec [of E apex mp p vi _ w2 r3 w3]
      by (auto split: if_splits intro: only_mnts_asks)
    have a2: "asks w w2" using a1 q2 asks_trans by (auto simp: quiet_def)
    have om: "only_mnts w w3" using m3 only_mnts_trans [OF only_mnts_asks [OF a2]] by blast
    have dev: "devices E (hist w3) = devices E (hist w1)" using m3 q2 by (simp add: quiet_def)
    then have dm3: "dm_live E (hist w3) = dm_live E (hist w1)"
      "attached E (hist w3) = attached E (hist w1)" by (simp_all add: devices_def)
    show ?thesis
    proof (cases "Ok r3")
      case True
      have "verity_backed E w3 apex dm loop vi v p"
        using cs Inr np dm3 m3 True by (auto simp: verity_backed_def)
      moreover have "image_mounted E apex mp p w w3"
        using m3 True image_mounted_asks [OF _ a2] by blast
      ultimately show ?thesis using r True om dm3 a1 by auto
    next
      case False
      note d = destroy_spec [of w3 E dm p]
      have "no_new_devices E w w'" if cw: "cleanup_works E"
      proof -
        have "dm_live E (hist w') n = (if n = dm then None else dm_live E (hist w1) n)" for n
          using d r False cw dm3 by (simp add: cleanup_works_def)
        with d r False dm3 a1 cs show ?thesis by (simp add: no_new_devices_def)
      qed
      moreover have "mnts w' = mnts w" if "cleanup_works E"
        using m3 False that asks_fields(2) [OF conjunct1 [OF d]] r asks_fields(2) [OF a2] by simp
      moreover have "only_mnts w w'"
        using om d r False by (auto intro: only_mnts_trans only_mnts_asks)
      ultimately show ?thesis using r False d dm3 a1 by auto
    qed
  qed
qed

definition on_verity :: "env \<Rightarrow> ApexFile \<Rightarrow> bool" where
  "on_verity E apex \<longleftrightarrow> gForceDmVerityOnSystem E \<or> \<not> isPathForBuiltinApexes (GetPath apex)"

text \<open>
  A package mounted from a loop device: the image is authentic, and unless the file is
  on a partition that is verified itself, it is read through a verity device.
\<close>

definition loop_backed :: "env \<Rightarrow> world \<Rightarrow> world \<Rightarrow> ApexFile \<Rightarrow> path \<Rightarrow> string \<Rightarrow> bool \<Rightarrow> path \<Rightarrow> bool" where
  "loop_backed E w w' apex mp name verifyImage loop \<longleftrightarrow>
     (\<exists>v dev w1 w2. VerifyApexVerity E apex w1 = (Inr v, w2) \<and> asks w w1 \<and>
        (if on_verity E apex then verity_backed E w' apex name loop verifyImage v dev
         else dev = loop) \<and>
        image_mounted E apex mp dev w w')"

lemma mount_on_loop_spec:
  assumes "mount_on_loop E apex mp dm vi loop w = (r, w')"
  shows "only_mnts w w' \<and> attached E (hist w') = attached E (hist w) \<and>
    (Ok r \<longrightarrow> loop_backed E w w' apex mp dm vi loop) \<and>
    (\<not> Ok r \<longrightarrow> cleanup_works E \<longrightarrow> mnts w' = mnts w \<and> no_new_devices E w w')"
proof -
  obtain r1 w1 where ver: "VerifyApexVerity E apex w = (r1, w1)" by (cases "VerifyApexVerity E apex w")
  note q = VerifyApexVerity_quiet [OF ver]
  then have a: "asks w w1" "devices E (hist w1) = devices E (hist w)" by (auto simp: quiet_def)
  then have at: "attached E (hist w1) = attached E (hist w)" by (simp add: devices_def)
  have om: "only_mnts w1 w2 \<Longrightarrow> only_mnts w w2" for w2
    by (rule only_mnts_trans [OF only_mnts_asks [OF a(1)]])
  have nn: "no_new_devices E w1 w2 \<Longrightarrow> no_new_devices E w w2" for w2
    using a(2) by (simp add: no_new_devices_def devices_def)
  show ?thesis
  proof (cases r1)
    case (Inl e)
    with assms ver a at show ?thesis
      by (auto simp: mount_on_loop_def asks_fields intro: only_mnts_asks no_new_devices_same)
  next
    case (Inr v)
    show ?thesis
    proof (cases "on_verity E apex")
      case True
      with assms ver Inr have "mount_on_verity E apex mp dm vi loop v w1 = (r, w')"
        by (simp add: mount_on_loop_def on_verity_def)
      note s = mount_on_verity_spec [OF this]
      have "loop_backed E w w' apex mp dm vi loop" if "Ok r"
        using s that ver Inr True image_mounted_asks [OF _ a(1)]
        unfolding loop_backed_def by (metis asks_refl)
      with s om nn at a(1) show ?thesis by (simp add: asks_fields)
    next
      case False
      with assms ver Inr have "mount_verified E apex mp loop False (image_size (verity_desc v)) w1 = (r, w')"
        by (simp add: mount_on_loop_def on_verity_def)
      note s = mount_verified_spec [OF this]
      have "loop_backed E w w' apex mp dm vi loop" if "Ok r"
        using s that ver Inr False image_mounted_asks [OF _ a(1)]
        unfolding loop_backed_def by (metis asks_refl)
      moreover have "no_new_devices E w w'" using s a(2) by (intro no_new_devices_same) simp
      ultimately show ?thesis using s om at a(1) by (auto simp: asks_fields devices_def)
    qed
  qed
qed

lemma mountNonFlattened_spec:
  assumes "mountNonFlattened E apex mp dm vi w = (r, w')"
  shows "only_mnts w w' \<and> (case r of
      Inl _ \<Rightarrow> cleanup_works E \<longrightarrow> mnts w' = mnts w \<and> no_new_devices E w w'
    | Inr d \<Rightarrow> \<exists>loop w1. d = MountedApexData loop (GetPath apex) mp dm \<and> asks w w1 \<and>
        attached E (hist w') loop =
          Some (GetPath apex, Some (scast (GetImageOffset apex), GetImageSize apex)) \<and>
        loop_backed E w1 w' apex mp dm vi loop)"
proof (cases "kUpdatable E")
  case False
  with assms show ?thesis by (auto simp: mountNonFlattened_def only_mnts_asks)
next
  case True
  obtain r1 w1 where c: "create_loop_attempts E apex kLoopDeviceSetupAttempts w = (r1, w1)"
    by (cases "create_loop_attempts E apex kLoopDeviceSetupAttempts w")
  note cs = create_loop_attempts_spec [OF c]
  show ?thesis
  proof (cases r1)
    case (Inl e)
    with assms True c cs show ?thesis
      by (auto simp: mountNonFlattened_def no_new_devices_def asks_fields intro: only_mnts_asks)
  next
    case (Inr loop)
    obtain r2 w2 where m: "mount_on_loop E apex mp dm vi loop w1 = (r2, w2)"
      by (cases "mount_on_loop E apex mp dm vi loop w1")
    note ms = mount_on_loop_spec [OF m]
    have a: "asks w w1" using cs by blast
    have om: "only_mnts w w2" using ms only_mnts_trans [OF only_mnts_asks [OF a]] by blast
    show ?thesis
    proof (cases r2)
      case (Inr u)
      with assms True c \<open>r1 = Inr loop\<close> m have "r = Inr (MountedApexData loop (GetPath apex) mp dm)" "w' = w2"
        by (auto simp: mountNonFlattened_def)
      with ms cs om a Inr \<open>r1 = Inr loop\<close> show ?thesis by auto
    next
      case (Inl e)
      with assms True c \<open>r1 = Inr loop\<close> m have r: "r = Inl e" "w' = MaybeCloseBad E loop w2"
        by (auto simp: mountNonFlattened_def)
      have mn: "mnts w2 = mnts w" if "cleanup_works E" using ms Inl that asks_fields(2) [OF a] by simp
      have cb: "asks w2 w'" "dm_live E (hist w') = dm_live E (hist w2)"
        using MaybeCloseBad_asks [of w2 E loop]
        by (auto simp: r MaybeCloseBad_def sys_ioctl_def query_def split: option.splits)
      have "attached E (hist w') d = None \<or> attached E (hist w') d = attached E (hist w) d"
        if "cleanup_works E" for d
        using cs ms that by (cases "d = loop") (auto simp: r MaybeCloseBad_attached cleanup_works_def \<open>r1 = Inr loop\<close>)
      moreover have "dm_live E (hist w') n = None \<or> dm_live E (hist w') n = dm_live E (hist w) n"
        if "cleanup_works E" for n
        using cb(2) ms Inl that cs by (auto simp: no_new_devices_def)
      ultimately show ?thesis
        using r om mn asks_fields(2) [OF cb(1)] only_mnts_trans [OF om only_mnts_asks [OF cb(1)]]
        by (simp add: no_new_devices_def)
    qed
  qed
qed

lemma mountFlattened_spec:
  assumes "mountFlattened E apex mp w = (r, w')"
  shows "only_mnts w w' \<and> devices E (hist w') = devices E (hist w) \<and> (case r of
      Inl _ \<Rightarrow> mnts w' = mnts w
    | Inr d \<Rightarrow> d = MountedApexData '''' (GetPath apex) mp '''' \<and> isPathForBuiltinApexes (GetPath apex) \<and>
        mnts w' = (mp, subtree w (GetPath apex)) # mnts w)"
  using assms
  by (auto simp: mountFlattened_def sys_mount_bind_def mnt_call_def mount_bind_eff_def
      split: prod.splits option.splits sum.splits if_splits)

lemma only_mnts_fs: "only_mnts w w' \<Longrightarrow> fs w' = fs w"
  by (cases w; cases w') (auto simp: only_mnts_def)

text \<open>The mount point is made before and may be removed after; nothing else in the tree changes.\<close>

definition mount_result :: "env \<Rightarrow> world \<Rightarrow> world \<Rightarrow> ApexFile \<Rightarrow> path \<Rightarrow> string \<Rightarrow> bool \<Rightarrow>
    MountedApexData \<Rightarrow> bool" where
  "mount_result E w w' apex mp dm vi d \<longleftrightarrow>
     (if IsFlattened apex then
        d = MountedApexData '''' (GetPath apex) mp '''' \<and> isPathForBuiltinApexes (GetPath apex) \<and>
        devices E (hist w') = devices E (hist w) \<and> (\<exists>img. mnts w' = (mp, img) # mnts w)
      else \<exists>loop w1. d = MountedApexData loop (GetPath apex) mp dm \<and> only_fs (\<lambda>p. p = mp) w w1 \<and>
        attached E (hist w') loop =
          Some (GetPath apex, Some (scast (GetImageOffset apex), GetImageSize apex)) \<and>
        loop_backed E w1 w' apex mp dm vi loop)"

lemma MountPackageImpl_spec:
  assumes "MountPackageImpl E apex mp dm vi w = (r, w')"
  shows "case r of
      Inl _ \<Rightarrow> cleanup_works E \<longrightarrow> only_fs (\<lambda>p. p = mp) w w' \<and> no_new_devices E w w'
    | Inr d \<Rightarrow> mount_result E w w' apex mp dm vi d \<and>
        only_fs (\<lambda>p. p = mp) w (w'\<lparr>mnts := mnts w\<rparr>)"
proof -
  obtain ex w1 where p: "PathExists E mp w = (ex, w1)" by (cases "PathExists E mp w")
  have q1: "quiet E w w1" by (rule PathExists_quiet [OF p])
  note o1 = asks_only_fs [OF quiet_asks [OF q1], of "\<lambda>p. p = mp"]
  show ?thesis
  proof (cases ex)
    case (Inl e)
    with assms p q1 o1 show ?thesis
      by (auto simp: MountPackageImpl_def quiet_def intro: no_new_devices_same)
  next
    case (Inr b)
    obtain made w2 where mk: "(if b then (Inr (), w1) else sys_mkdir E mp kMkdirMode w1) = (made, w2)"
      by fastforce
    have o12: "only_fs (\<lambda>p. p = mp) w1 w2"
      using mk sys_mkdir_frame [of mp w1 E kMkdirMode] by (auto split: if_splits intro: only_fs_refl)
    have d2: "devices E (hist w2) = devices E (hist w)"
      using mk q1 by (auto simp: sys_mkdir_def fs_call_eq quiet_def split: if_splits sum.splits)
    note o2 = only_fs_chain [OF o1 o12]
    show ?thesis
    proof (cases made)
      case (Inl e)
      with assms p Inr mk o2 d2 show ?thesis
        by (auto simp: MountPackageImpl_def intro: no_new_devices_same)
    next
      case (Inr u)
      obtain em w3 where e: "IsEmptyDirectory E mp w2 = (em, w3)" by (cases "IsEmptyDirectory E mp w2")
      note q3 = IsEmptyDirectory_quiet [OF e]
      have o3: "only_fs (\<lambda>p. p = mp) w w3" using only_fs_chain [OF o2 asks_only_fs [OF quiet_asks [OF q3]]] .
      have d3: "devices E (hist w3) = devices E (hist w)" using q3 d2 by (simp add: quiet_def)
      obtain ret w4 where m: "(if \<not> em then (Inl (ErrAt msg_mount_point_full mp), w3)
          else if IsFlattened apex then mountFlattened E apex mp w3
          else mountNonFlattened E apex mp dm vi w3) = (ret, w4)" by fastforce
      from assms p \<open>ex = Inr b\<close> mk Inr e m have r: "r = ret"
        "w' = (if Ok ret then w4 else snd (sys_rmdir E mp w4))"
        by (auto simp: MountPackageImpl_def Let_def)
      have om: "only_mnts w3 w4"
        using m mountFlattened_spec [of E apex mp w3 ret w4] mountNonFlattened_spec [of E apex mp dm vi w3 ret w4]
        by (auto split: if_splits)
      show ?thesis
      proof (cases ret)
        case (Inl e)
        have c: "mnts w4 = mnts w3 \<and> no_new_devices E w3 w4" if "cleanup_works E"
          using m that Inl mountFlattened_spec [of E apex mp w3 ret w4]
            mountNonFlattened_spec [of E apex mp dm vi w3 ret w4]
          by (auto split: if_splits intro: no_new_devices_same)
        have "only_fs (\<lambda>p. p = mp) w w'" if "cleanup_works E"
          using r Inl asks_only_fs [OF only_mnts_only_fs [OF om]] c [OF that] o3
            sys_rmdir_frame [of mp w4 E] only_fs_chain by (metis Ok_simps(1))
        moreover have "devices E (hist w') = devices E (hist w4)"
          using r Inl by (auto simp: sys_rmdir_def fs_call_def split: option.splits sum.splits)
        then have "no_new_devices E w w'" if "cleanup_works E"
          using c [OF that] d3 by (simp add: no_new_devices_def devices_def)
        ultimately show ?thesis using r Inl by simp
      next
        case (Inr d)
        then have w4: "w' = w4" "r = Inr d" using r by simp_all
        have em: "em" using m Inr by (auto split: if_splits)
        have fsf: "only_fs (\<lambda>p. p = mp) w (w'\<lparr>mnts := mnts w\<rparr>)"
          using o3 om w4 by (cases w; cases w3; cases w4) (auto simp: only_fs_def only_mnts_def)
        have "mount_result E w w' apex mp dm vi d"
        proof (cases "IsFlattened apex")
          case True
          with m em mountFlattened_spec [of E apex mp w3 ret w4] w4 Inr d3 only_fs_state [OF o3]
          show ?thesis by (auto simp: mount_result_def)
        next
          case False
          with m em have "mountNonFlattened E apex mp dm vi w3 = (ret, w4)" by simp
          from mountNonFlattened_spec [OF this] Inr obtain loop w5 where
            "d = MountedApexData loop (GetPath apex) mp dm" "asks w3 w5"
            "attached E (hist w4) loop =
               Some (GetPath apex, Some (scast (GetImageOffset apex), GetImageSize apex))"
            "loop_backed E w5 w4 apex mp dm vi loop" by auto
          with False w4 only_fs_chain [OF o3 asks_only_fs [OF \<open>asks w3 w5\<close>]] show ?thesis
            by (auto simp: mount_result_def)
        qed
        with fsf w4 show ?thesis by simp
      qed
    qed
  qed
qed

section \<open>Properties\<close>

lemma VerifyMountedImage_manifest:
  assumes "VerifyMountedImage E apex mp w = (Success, w')" and "mnts w = (mp, img) # ms"
  shows "\<exists>m c mf. map_of img (''/'' @ kManifestFilename) = Some (Reg m c) \<and>
    ParseManifest E c = Inr mf \<and> manifest_equals E (GetManifest apex) mf"
proof -
  have "mount_over w (slash mp kManifestFilename) = Some (mp, img)"
    by (simp add: mount_over_def assms(2) under_def)
  then have "node_at w (slash mp kManifestFilename) = map_of img (''/'' @ kManifestFilename)"
    by (simp add: node_at_def)
  moreover have "\<exists>m c mf. node_at w (slash mp kManifestFilename) = Some (Reg m c) \<and>
      ParseManifest E c = Inr mf \<and> manifest_equals E (GetManifest apex) mf"
    using assms(1)
    by (auto simp: VerifyMountedImage_def VerifyManifestMatches_def Let_def dest!: ReadFileToString_Inr
        split: prod.splits sum.splits if_splits)
  ultimately show ?thesis by simp
qed

text \<open>C7. When mounting a package fails at any step, and the clean-up's own calls work, the
  mount table is as before, no loop device is attached and no verity device is live that
  was not before, and nothing but the mount point directory can differ in the tree.
\<close>

theorem mount_failure_leaves_nothing:
  assumes "MountPackageImpl E apex mp dm vi w = (Inl e, w')" and "cleanup_works E"
  shows "only_fs (\<lambda>p. p = mp) w w' \<and> mnts w' = mnts w \<and> no_new_devices E w w'"
  using MountPackageImpl_spec [OF assms(1)] assms(2) by (auto dest: only_fs_state)

text \<open>
  What a device-mapper table must be for a descriptor, in natural numbers: data and hashes
  on the loop device, the algorithm, block sizes, digest and salt of the descriptor, the image
  in sectors and in blocks, and the first block of the hash tree.
\<close>

definition verifies_descriptor :: "DmTable \<Rightarrow> ApexVerityData \<Rightarrow> path \<Rightarrow> bool" where
  "verifies_descriptor t v loop \<longleftrightarrow>
     dm_block_device t = loop \<and> dm_hash_device t = loop \<and>
     dm_root_digest t = verity_root_digest v \<and> dm_salt t = verity_salt v \<and>
     dm_hash_algorithm t = hash_algorithm (verity_desc v) \<and>
     dm_version t = dm_verity_version (verity_desc v) \<and>
     dm_data_block_size t = data_block_size (verity_desc v) \<and>
     dm_hash_block_size t = hash_block_size (verity_desc v) \<and>
     dm_start t = 0 \<and> unat (dm_length t) = unat (image_size (verity_desc v)) div 512 \<and>
     unat (dm_num_data_blocks t) =
       unat (image_size (verity_desc v)) div unat (data_block_size (verity_desc v)) \<and>
     unat (dm_hash_start_block t) =
       unat (tree_offset (verity_desc v)) div unat (hash_block_size (verity_desc v)) \<and>
     dm_readonly t"

lemma unat_widened: "unat (ucast (x :: uint32) :: uint64) = unat x"
proof -
  have "unat x < 2 ^ 32" using unsigned_less [of x] by simp
  then show ?thesis by (simp add: unsigned_ucast_eq take_bit_nat_eq_self_iff)
qed

lemma createVerityTable_verifies: "verifies_descriptor (createVerityTable v loop b) v loop"
  by (simp add: verifies_descriptor_def createVerityTable_def Let_def unat_div_distrib unat_widened)

text \<open>C6. A package that is not flattened and was mounted with success is authentic: its file
  carries a vbmeta block signed with the recorded key. A loop device is attached to the
  package file at the image's place. If the file is not on a built-in partition, or verity is
  forced there, the mounted image was read from a live verity device whose table is the one
  of a descriptor of that block over the loop device, and which was read in full if the image
  had to be verified; otherwise it was read from the loop device itself. The mounted image
  holds the manifest of the package.
\<close>

theorem mount_success_verified:
  assumes "MountPackageImpl E apex mp dm vi w = (Inr d, w')" and "\<not> IsFlattened apex"
    and "node_at w (GetPath apex) = Some n" and "GetPath apex \<noteq> mp"
  shows "\<exists>img v m content mm mc mf dev. n = Reg m content \<and>
    authentic E (gScannedApexKeys w) apex content v \<and> mnts w' = (mp, img) # mnts w \<and>
    attached E (hist w') (loop_name d) =
      Some (GetPath apex, Some (scast (GetImageOffset apex), GetImageSize apex)) \<and>
    (\<exists>h. ext4_image E h dev = Some img) \<and>
    (if gForceDmVerityOnSystem E \<or> \<not> isPathForBuiltinApexes (GetPath apex)
     then (\<exists>t. dm_live E (hist w') dm = Some t \<and> verifies_descriptor t v (loop_name d) \<and>
             dm_restart_on_corruption t = (\<not> vi)) \<and>
       (\<exists>h. dm_path E h dm = Some dev) \<and> (vi \<longrightarrow> device_read E dev (image_size (verity_desc v)))
     else dev = loop_name d) \<and>
    map_of img (''/'' @ kManifestFilename) = Some (Reg mm mc) \<and> ParseManifest E mc = Inr mf \<and>
    manifest_equals E (GetManifest apex) mf"
proof -
  from MountPackageImpl_spec [OF assms(1)] assms(2) obtain loop w1 where
    d: "d = MountedApexData loop (GetPath apex) mp dm" and o1: "only_fs (\<lambda>p. p = mp) w w1"
    and at: "attached E (hist w') loop =
      Some (GetPath apex, Some (scast (GetImageOffset apex), GetImageSize apex))"
    and lb: "loop_backed E w1 w' apex mp dm vi loop"
    by (auto simp: mount_result_def)
  from lb obtain v dev w2 w3 where ver: "VerifyApexVerity E apex w2 = (Inr v, w3)"
    and a2: "asks w1 w2"
    and vb: "if on_verity E apex then verity_backed E w' apex dm loop vi v dev else dev = loop"
    and im: "image_mounted E apex mp dev w1 w'"
    unfolding loop_backed_def by blast
  have node: "node_at w2 (GetPath apex) = Some n"
    using assms(3,4) o1 only_fs_state [OF o1] mount_over_cong [of w1 w]
    by (simp add: asks_fields(3) [OF a2] node_at_def only_fs_lookup cong: option.case_cong)
  have keys: "gScannedApexKeys w2 = gScannedApexKeys w"
    using only_fs_state [OF o1] asks_fields(8) [OF a2] by simp
  from VerifyApexVerity_Inr [OF ver node] keys obtain m content where
    auth: "n = Reg m content" "authentic E (gScannedApexKeys w) apex content v" by auto
  from im only_fs_state [OF o1] obtain img h w4 w5 where i: "ext4_image E h dev = Some img"
    "mnts w' = (mp, img) # mnts w" "VerifyMountedImage E apex mp w4 = (Success, w5)"
    "mnts w4 = (mp, img) # mnts w" unfolding image_mounted_def by auto
  from VerifyMountedImage_manifest [OF i(3,4)] obtain mm mc mf where
    "map_of img (''/'' @ kManifestFilename) = Some (Reg mm mc)" "ParseManifest E mc = Inr mf"
    "manifest_equals E (GetManifest apex) mf" by blast
  note man = this
  have "if gForceDmVerityOnSystem E \<or> \<not> isPathForBuiltinApexes (GetPath apex)
     then (\<exists>t. dm_live E (hist w') dm = Some t \<and> verifies_descriptor t v (loop_name d) \<and>
             dm_restart_on_corruption t = (\<not> vi)) \<and>
       (\<exists>h. dm_path E h dm = Some dev) \<and> (vi \<longrightarrow> device_read E dev (image_size (verity_desc v)))
     else dev = loop_name d"
    using vb createVerityTable_verifies [of v loop "\<not> vi"]
    by (auto simp: on_verity_def verity_backed_def d) (simp_all add: createVerityTable_def Let_def)
  with auth i(1,2) at man d show ?thesis
    by (intro exI [of _ img] exI [of _ v] exI [of _ m] exI [of _ content] exI [of _ mm]
        exI [of _ mc] exI [of _ mf] exI [of _ dev] conjI) (blast | simp)+
qed

text \<open>A device with one free loop device, and a package file that can be mounted on \<open>/apex/n@1\<close>.\<close>

definition sample_mount_env :: env where
  "sample_mount_env = sample_avb_env\<lparr>
     dev_node := (\<lambda>_ p. prefix ''/dev/'' p \<or> prefix ''/sys/'' p),
     ext4_image := (\<lambda>_ _. Some [('''', Directory 493), (''/apex_manifest.json'', Reg 420 ''n;1;;'')])\<rparr>"

definition sample_mount_world :: world where
  "sample_mount_world = sample_avb_world\<lparr>fs := [('''', Directory 493), (''/apex'', Directory 493),
     (''/x.apex'', Reg 420 ''VVVVFFFF'')]\<rparr>"

theorem mount_success_verified_witness:
  "\<exists>d w' img. MountPackageImpl sample_mount_env sample_apex ''/apex/n@1'' ''n@1'' False
       sample_mount_world = (Inr d, w') \<and> mnts w' = [(''/apex/n@1'', img)] \<and>
     dm_live sample_mount_env (hist w') ''n@1'' \<noteq> None"
proof -
  have "Ok (fst (MountPackageImpl sample_mount_env sample_apex ''/apex/n@1'' ''n@1'' False
      sample_mount_world))" by code_simp
  then obtain d w' where r: "MountPackageImpl sample_mount_env sample_apex ''/apex/n@1'' ''n@1'' False
      sample_mount_world = (Inr d, w')" by (metis Ok_iff prod.collapse)
  have "node_at sample_mount_world (GetPath sample_apex) = Some (Reg 420 ''VVVVFFFF'')" by code_simp
  moreover have "\<not> isPathForBuiltinApexes (GetPath sample_apex)" by code_simp
  moreover have "\<not> IsFlattened sample_apex" "GetPath sample_apex \<noteq> ''/apex/n@1''"
    "mnts sample_mount_world = []"
    by (simp_all add: sample_apex_def sample_mount_world_def sample_avb_world_def sample_world_def)
  ultimately obtain img v where "mnts w' = [(''/apex/n@1'', img)]"
    "dm_live sample_mount_env (hist w') ''n@1'' = Some v"
    using mount_success_verified [OF r] by auto
  with r show ?thesis by blast
qed

theorem mount_failure_leaves_nothing_witness:
  "\<exists>e w'. MountPackageImpl sample_env sample_apex ''/apex/n@1'' ''n@1'' True sample_mount_world =
     (Inl e, w') \<and> no_new_devices sample_env sample_mount_world w'"
proof -
  have "\<not> Ok (fst (MountPackageImpl sample_env sample_apex ''/apex/n@1'' ''n@1'' True
      sample_mount_world))" by code_simp
  then obtain e w' where r: "MountPackageImpl sample_env sample_apex ''/apex/n@1'' ''n@1'' True
      sample_mount_world = (Inl e, w')" by (metis not_Ok_iff prod.collapse)
  have "cleanup_works sample_env" by (simp add: cleanup_works_def sample_env_def)
  from mount_failure_leaves_nothing [OF r this] r show ?thesis by blast
qed

text \<open>C35. Reading a device succeeds exactly when it opens and every byte of it up to the given
  size can be read: no block is skipped, the last short one included.
\<close>

theorem readVerityDevice_whole:
  assumes "\<And>h off len. reads_device E h dev off len \<longleftrightarrow> (\<forall>i. off \<le> i \<and> i < off + len \<longrightarrow> good i)"
    and "readVerityDevice E dev sz w = (r, w')"
  shows "Ok r \<longleftrightarrow> Ok (fst (sys_open E dev w)) \<and> (\<forall>i < unat sz. good i)"
proof -
  have blocks: "read_blocks E dev off n w = (r, w') \<Longrightarrow> Ok r \<longleftrightarrow> (\<forall>i. off \<le> i \<and> i < off + n \<longrightarrow> good i)"
    for off n w r w'
  proof (induction n arbitrary: off w rule: less_induct)
    case (less n)
    let ?k = "min n kReadBufSize"
    show ?case
    proof (cases "n = 0")
      case True
      with less.prems show ?thesis by (subst (asm) read_blocks.simps) auto
    next
      case n: False
      have k: "0 < ?k" "?k \<le> n" using n by (auto simp: kReadBufSize_def)
      show ?thesis
      proof (cases "\<forall>i. off \<le> i \<and> i < off + ?k \<longrightarrow> good i")
        case False
        then have "Ok r = False" using less.prems n assms(1)
          by (subst (asm) read_blocks.simps) (auto simp: Let_def)
        with False k show ?thesis by (auto intro: less_le_trans)
      next
        case True
        then have "reads_device E (hist w) dev off ?k" using assms(1) by blast
        with less.prems n have
          rec: "read_blocks E dev (off + ?k) (n - ?k) (w\<lparr>hist := SysRead dev # hist w\<rparr>) = (r, w')"
          by (subst (asm) read_blocks.simps) (simp add: Let_def)
        have "n - ?k < n" using k by simp
        from less.IH [OF this rec] have "Ok r \<longleftrightarrow> (\<forall>i. off + ?k \<le> i \<and> i < off + n \<longrightarrow> good i)"
          using k by simp
        moreover have "(\<forall>i. off \<le> i \<and> i < off + n \<longrightarrow> good i) \<longleftrightarrow>
            (\<forall>i. off + ?k \<le> i \<and> i < off + n \<longrightarrow> good i)"
        proof (intro iffI allI impI)
          fix i assume "\<forall>i. off \<le> i \<and> i < off + n \<longrightarrow> good i" "off + ?k \<le> i \<and> i < off + n"
          then show "good i" by simp
        next
          fix i assume "\<forall>i. off + ?k \<le> i \<and> i < off + n \<longrightarrow> good i" "off \<le> i \<and> i < off + n"
          with True show "good i" by (cases "i < off + ?k") simp_all
        qed
        ultimately show ?thesis by simp
      qed
    qed
  qed
  from assms(2) show ?thesis
    by (auto simp: readVerityDevice_def Let_def dest!: blocks split: prod.splits sum.splits)
qed

theorem readVerityDevice_whole_witness:
  "\<not> Ok (fst (readVerityDevice (sample_env\<lparr>reads_device := \<lambda>_ _ off len. len = 0 \<or> off + len \<le> 5\<rparr>)
     ''/dev/block/dm-1'' 6 sample_mount_world))"
proof -
  let ?E = "sample_env\<lparr>reads_device := \<lambda>_ _ off len. len = 0 \<or> off + len \<le> 5\<rparr>"
  have "len = 0 \<or> off + len \<le> 5 \<longleftrightarrow> (\<forall>i. off \<le> i \<and> i < off + len \<longrightarrow> i < 5)" for off len :: nat
  proof
    assume "\<forall>i. off \<le> i \<and> i < off + len \<longrightarrow> i < 5"
    from this [THEN spec, of "off + len - 1"] show "len = 0 \<or> off + len \<le> 5" by linarith
  qed auto
  then have "reads_device ?E h dev off len \<longleftrightarrow> (\<forall>i. off \<le> i \<and> i < off + len \<longrightarrow> i < 5)" for h dev off len
    by (simp add: sample_env_def)
  from readVerityDevice_whole [OF this prod.collapse [symmetric], of "''/dev/block/dm-1''" 6 sample_mount_world]
  have "Ok (fst (readVerityDevice ?E ''/dev/block/dm-1'' 6 sample_mount_world)) \<longrightarrow> (\<forall>i < 6. i < (5::nat))"
    by simp
  moreover have "\<not> (\<forall>i < 6. i < (5::nat))" by (auto intro: exI [of _ 5])
  ultimately show ?thesis by blast
qed

text \<open>C36. Waiting for a device node ends after at most 9 sleeps for its creation and 14 for its
  deletion, changes nothing but the history, and succeeds only on the awaited answer.
\<close>

theorem waitForDevice_bounded:
  assumes "waitForDevice E dev mode w = (r, w')"
  shows "asks w w' \<and>
    length (filter (\<lambda>ev. ev = Sleep) (hist w')) \<le>
      length (filter (\<lambda>ev. ev = Sleep) (hist w)) + (if mode = kWaitToBeCreated then 9 else 14) \<and>
    (Ok r \<longrightarrow> (\<exists>w1 w2. PathExists E dev w1 = (Inr (mode = kWaitToBeCreated), w2) \<and> asks w w1))"
proof -
  have pe: "length (filter (\<lambda>ev. ev = Sleep) (hist w2)) = length (filter (\<lambda>ev. ev = Sleep) (hist w1))"
    if "PathExists E dev w1 = (s, w2)" for w1 s w2
    using that by (auto simp: PathExists_def sys_stat_def query_eq Let_def split: prod.splits if_splits)
  have "wait_tries E dev mode n w = (r, w') \<Longrightarrow> asks w w' \<and>
    length (filter (\<lambda>ev. ev = Sleep) (hist w')) \<le> length (filter (\<lambda>ev. ev = Sleep) (hist w)) + (n - 1) \<and>
    (Ok r \<longrightarrow> (\<exists>w1 w2. PathExists E dev w1 = (Inr (mode = kWaitToBeCreated), w2) \<and> asks w w1))" for n w
  proof (induction n arbitrary: w)
    case (Suc n)
    obtain s w1 where p: "PathExists E dev w = (s, w1)" by (cases "PathExists E dev w")
    note a = PathExists_asks [OF p] and l = pe [OF p]
    show ?case
    proof (cases "s = Inr (mode = kWaitToBeCreated)")
      case True
      with Suc.prems p a l show ?thesis by (auto intro: exI [of _ w])
    next
      case False
      let ?w2 = "if n > 0 then w1\<lparr>hist := Sleep # hist w1\<rparr> else w1"
      from False Suc.prems p have "wait_tries E dev mode n ?w2 = (r, w')" by auto
      note IH = Suc.IH [OF this]
      have a2: "asks w ?w2" using a by (auto elim: asksE)
      have "length (filter (\<lambda>ev. ev = Sleep) (hist w')) \<le>
          length (filter (\<lambda>ev. ev = Sleep) (hist w)) + (Suc n - 1)"
        using IH l by (auto split: if_splits)
      with IH a2 show ?thesis by (blast intro: asks_trans)
    qed
  qed auto
  from this [OF assms [unfolded waitForDevice_def]] show ?thesis by (auto split: if_splits)
qed

theorem waitForDevice_bounded_witness:
  "asks sample_world (snd (waitForDevice sample_env ''/dev/block/loop0'' kWaitToBeCreated sample_world))"
  using waitForDevice_bounded [OF prod.collapse [symmetric]] by blast

end
