(* ===== verification/Staging.thy ===== *)
theory Staging
  imports Mount
begin

text \<open>
  The part of \<open>apexd/apexd.cpp\<close> that verifies packages and stages them: the packages that
  are active, the checks at boot and at installation, and \<open>stagePackages\<close>, which links new
  packages into \<open>/data/apex/active\<close> and removes the files they replace.
\<close>

definition msg_unlink :: string where "msg_unlink = ''Failed to unlink ''"
definition msg_empty_set :: string where "msg_empty_set = ''Empty set of inputs''"
definition msg_flattened_upgrade :: string where "msg_flattened_upgrade = ''Can't upgrade flattened apex''"
definition msg_upgrade :: string where "msg_upgrade = ''Attempted to upgrade apex package ''"
definition msg_many_packages :: string where
  "msg_many_packages = ''More than one APEX package found in the same session directory.''"
definition msg_link :: string where "msg_link = ''Unable to link ''"
definition msg_cant_access :: string where "msg_cant_access = ''Can't access ''"
definition msg_cant_unlink :: string where "msg_cant_unlink = ''Can't unlink ''"
definition msg_no_package :: string where "msg_no_package = ''Cannot find matching package for: ''"

section \<open>Active packages\<close>

fun open_latest :: "env \<Rightarrow> (string \<times> MountedApexData \<times> bool) list \<Rightarrow> world \<Rightarrow> ApexFile list \<times> world" where
  "open_latest E [] w = ([], w)"
| "open_latest E ((_, data, latest) # ds) w =
     (if \<not> latest then open_latest E ds w
      else (let (apexFile, w1) = Open E (full_path data) w;
                (rest, w2) = open_latest E ds w1
            in (case apexFile of Inl _ \<Rightarrow> rest | Inr a \<Rightarrow> a # rest, w2)))"

definition getActivePackages :: "env \<Rightarrow> world \<Rightarrow> ApexFile list \<times> world" where
  "getActivePackages E w = open_latest E (ForallMountedApexesAll (gMountedApexes w)) w"

text \<open>\<open>ret.insert\<close> keeps the first entry of a key. The version is kept as \<open>uint64_t\<close>.\<close>

definition GetActivePackagesMap :: "env \<Rightarrow> world \<Rightarrow> (string \<times> uint64) list \<times> world" where
  "GetActivePackagesMap E w =
     (let (active_packages, w1) = getActivePackages E w
      in (map (\<lambda>a. (manifest_name (GetManifest a), manifest_version (GetManifest a))) active_packages,
          w1))"

fun open_good :: "env \<Rightarrow> path list \<Rightarrow> world \<Rightarrow> ApexFile list \<times> world" where
  "open_good E [] w = ([], w)"
| "open_good E (path # paths) w =
     (let (apex_file, w1) = Open E path w;
          (rest, w2) = open_good E paths w1
      in (case apex_file of Inl _ \<Rightarrow> rest | Inr a \<Rightarrow> a # rest, w2))"

fun factory_packages :: "env \<Rightarrow> path list \<Rightarrow> world \<Rightarrow> ApexFile list \<times> world" where
  "factory_packages E [] w = ([], w)"
| "factory_packages E (dir # dirs) w =
     (let (apex_files, w1) = FindApexFilesByName E dir False w
      in case apex_files of
           Inl _ \<Rightarrow> factory_packages E dirs w1
         | Inr paths \<Rightarrow>
             (let (as, w2) = open_good E paths w1;
                  (rest, w3) = factory_packages E dirs w2
              in (as @ rest, w3)))"

definition getFactoryPackages :: "env \<Rightarrow> world \<Rightarrow> ApexFile list \<times> world" where
  "getFactoryPackages E w = factory_packages E kApexPackageBuiltinDirs w"

definition getActivePackage :: "env \<Rightarrow> string \<Rightarrow> world \<Rightarrow> ApexFile status_or \<times> world" where
  "getActivePackage E packageName w =
     (let (packages, w1) = getActivePackages E w
      in (case find (\<lambda>a. manifest_name (GetManifest a) = packageName) packages of
            Some a \<Rightarrow> Inr a
          | None \<Rightarrow> Inl (ErrAt msg_no_package packageName), w1))"

section \<open>Verifying packages\<close>

fun open_all :: "env \<Rightarrow> path list \<Rightarrow> world \<Rightarrow> ApexFile list status_or \<times> world" where
  "open_all E [] w = (Inr [], w)"
| "open_all E (path # paths) w =
     (let (apex_file, w1) = Open E path w
      in case apex_file of
           Inl e \<Rightarrow> (Inl e, w1)
         | Inr a \<Rightarrow>
             (let (rest, w2) = open_all E paths w1
              in (case rest of Inl e \<Rightarrow> Inl e | Inr as \<Rightarrow> Inr (a # as), w2)))"

text \<open>\<open>HandlePackages\<close>: open all packages, then dispatch.\<close>

definition HandlePackages :: "env \<Rightarrow> path list \<Rightarrow>
    (ApexFile list \<Rightarrow> world \<Rightarrow> ('a status_or \<times> world) option) \<Rightarrow> world \<Rightarrow>
    ('a status_or \<times> world) option" where
  "HandlePackages E paths fn w =
     (let (apex_files, w1) = open_all E paths w
      in case apex_files of Inl e \<Rightarrow> Some (Inl e, w1) | Inr as \<Rightarrow> fn as w1)"

definition ValidateStagingShimApex :: "env \<Rightarrow> ApexFile \<Rightarrow> world \<Rightarrow> (status \<times> world) option" where
  "ValidateStagingShimApex E to w =
     (let (system_shim, w1) = Open E (slash kApexPackageSystemDir kSystemShimApexName) w
      in case system_shim of
           Inl e \<Rightarrow> Some (Inl e, w1)
         | Inr shim \<Rightarrow>
             RunVerifyFnInsideTempMount E shim
               (\<lambda>system_apex_path. ValidateUpdate E system_apex_path (GetPath to)) w1)"

definition VerifyPackageBoot :: "env \<Rightarrow> ApexFile \<Rightarrow> world \<Rightarrow> (status \<times> world) option" where
  "VerifyPackageBoot E apex_file w =
     (if IsFlattened apex_file then Some (Inl (Err msg_flattened_upgrade), w)
      else (let (verity_or, w1) = VerifyApexVerity E apex_file w
            in case verity_or of
                 Inl e \<Rightarrow> Some (Inl e, w1)
               | Inr _ \<Rightarrow>
                   if IsShimApex apex_file then ValidateStagingShimApex E apex_file w1
                   else Some (Success, w1)))"

definition VerifyPackageInstall :: "env \<Rightarrow> ApexFile \<Rightarrow> world \<Rightarrow> (status \<times> world) option" where
  "VerifyPackageInstall E apex_file w =
     (case VerifyPackageBoot E apex_file w of
        None \<Rightarrow> None
      | Some (Inl e, w1) \<Rightarrow> Some (Inl e, w1)
      | Some (Inr _, w1) \<Rightarrow>
          if \<not> kUpdatable E then Some (Inl (ErrAt msg_upgrade (GetPath apex_file)), w1)
          else (let (verity_or, w2) = VerifyApexVerity E apex_file w1
                in RunVerifyFnInsideTempMount E apex_file (\<lambda>_ w. Some (Success, w)) w2))"

fun verify_each :: "(ApexFile \<Rightarrow> world \<Rightarrow> (status \<times> world) option) \<Rightarrow> ApexFile list \<Rightarrow> world \<Rightarrow>
    (status \<times> world) option" where
  "verify_each verify_apex_fn [] w = Some (Success, w)"
| "verify_each verify_apex_fn (a # as) w =
     (case verify_apex_fn a w of
        None \<Rightarrow> None
      | Some (Inl e, w1) \<Rightarrow> Some (Inl e, w1)
      | Some (Inr _, w1) \<Rightarrow> verify_each verify_apex_fn as w1)"

definition verifyPackages :: "env \<Rightarrow> path list \<Rightarrow> (ApexFile \<Rightarrow> world \<Rightarrow> (status \<times> world) option) \<Rightarrow>
    world \<Rightarrow> (ApexFile list status_or \<times> world) option" where
  "verifyPackages E paths verify_apex_fn w =
     (if paths = [] then Some (Inl (Err msg_empty_set), w)
      else HandlePackages E paths
        (\<lambda>apexes w. case verify_each verify_apex_fn apexes w of
             None \<Rightarrow> None
           | Some (Inl e, w1) \<Rightarrow> Some (Inl e, w1)
           | Some (Inr _, w1) \<Rightarrow> Some (Inr apexes, w1)) w)"

definition session_dir_path :: "int32 \<Rightarrow> path" where
  "session_dir_path sid = kStagedSessionsDir @ ''/session_'' @ to_string (sint sid)"

definition verifySessionDir :: "env \<Rightarrow> int32 \<Rightarrow> world \<Rightarrow> (ApexFile status_or \<times> world) option" where
  "verifySessionDir E sid w =
     (let (scan, w1) = FindApexFilesByName E (session_dir_path sid) False w
      in case scan of
           Inl e \<Rightarrow> Some (Inl e, w1)
         | Inr paths \<Rightarrow>
             if length paths > 1 then Some (Inl (Err msg_many_packages), w1)
             else (case verifyPackages E paths (VerifyPackageInstall E) w1 of
                 None \<Rightarrow> None
               | Some (Inl e, w2) \<Rightarrow> Some (Inl e, w2)
               | Some (Inr verified, w2) \<Rightarrow> Some (Inr (hd verified), w2)))"

section \<open>Staging packages\<close>

fun remove_previous :: "env \<Rightarrow> string list \<Rightarrow> path list \<Rightarrow> path list \<Rightarrow> world \<Rightarrow> status \<times> world" where
  "remove_previous E affected_packages files_to_keep [] w = (Success, w)"
| "remove_previous E affected_packages files_to_keep (path # paths) w =
     (let (apex_file, w1) = Open E path w
      in case apex_file of
           Inl e \<Rightarrow> (Inl e, w1)
         | Inr a \<Rightarrow>
             if manifest_name (GetManifest a) \<notin> set affected_packages
             then remove_previous E affected_packages files_to_keep paths w1
             else if GetPath a \<in> set files_to_keep
             then remove_previous E affected_packages files_to_keep paths w1
             else (let (r, w2) = sys_unlink E (GetPath a) w1
                   in case r of
                        Inl e \<Rightarrow> (Inl (PErr msg_unlink (GetPath a) e), w2)
                      | Inr _ \<Rightarrow> remove_previous E affected_packages files_to_keep paths w2))"

definition RemovePreviouslyActiveApexFiles :: "env \<Rightarrow> string list \<Rightarrow> path list \<Rightarrow> world \<Rightarrow> status \<times> world" where
  "RemovePreviouslyActiveApexFiles E affected_packages files_to_keep w =
     (let (files, w1) = FindApexFilesByName E kActiveApexPackagesDataDir False w
      in case files of
           Inl e \<Rightarrow> (Inl e, w1)
         | Inr paths \<Rightarrow> remove_previous E affected_packages files_to_keep paths w1)"

definition StageDestPath :: "ApexFile \<Rightarrow> path" where
  "StageDestPath a =
     slash kActiveApexPackagesDataDir (GetPackageId (GetManifest a)) @ kApexPackageSuffix"

definition needs_staging :: "env \<Rightarrow> (string \<times> uint64) list \<Rightarrow> path \<Rightarrow> world \<Rightarrow> bool \<times> world" where
  "needs_staging E packages_with_code path w =
     (let (apex_file, w1) = Open E path w
      in case apex_file of
           Inl _ \<Rightarrow> (True, w1)
         | Inr a \<Rightarrow>
             (let (acc, w2) = sys_access E (StageDestPath a) w1
              in if Ok acc then (False, w2)
                 else (map_of packages_with_code (manifest_name (GetManifest a)) \<noteq>
                         Some (manifest_version (GetManifest a)), w2)))"

fun filter_paths :: "env \<Rightarrow> (string \<times> uint64) list \<Rightarrow> path list \<Rightarrow> world \<Rightarrow> path list \<times> world" where
  "filter_paths E packages_with_code [] w = ([], w)"
| "filter_paths E packages_with_code (path # paths) w =
     (let (needed, w1) = needs_staging E packages_with_code path w;
          (rest, w2) = filter_paths E packages_with_code paths w1
      in (if needed then path # rest else rest, w2))"

definition FilterUnnecessaryStagingPaths :: "env \<Rightarrow> path list \<Rightarrow> world \<Rightarrow> path list \<times> world" where
  "FilterUnnecessaryStagingPaths E tmp_paths w =
     (let (packages_with_code, w1) = GetActivePackagesMap E w
      in filter_paths E packages_with_code tmp_paths w1)"

text \<open>The loop that links the packages, with the files and packages staged so far.\<close>

fun stage_each :: "env \<Rightarrow> path list \<Rightarrow> path list \<Rightarrow> string list \<Rightarrow> world \<Rightarrow>
    status \<times> path list \<times> string list \<times> world" where
  "stage_each E [] staged_files staged_packages w = (Success, staged_files, staged_packages, w)"
| "stage_each E (path # paths) staged_files staged_packages w =
     (let (apex_file, w1) = Open E path w
      in case apex_file of
           Inl e \<Rightarrow> (Inl e, staged_files, staged_packages, w1)
         | Inr a \<Rightarrow>
             (let dest_path = StageDestPath a;
                  (r, w2) = sys_link E (GetPath a) dest_path w1
              in case r of
                   Inl e \<Rightarrow> (Inl (PErr msg_link (GetPath a) e), staged_files, staged_packages, w2)
                 | Inr _ \<Rightarrow>
                     stage_each E paths (dest_path # staged_files)
                       (manifest_name (GetManifest a) # staged_packages) w2))"

text \<open>The scope guard: unlink what was staged; failures are only logged.\<close>

fun unlink_staged :: "env \<Rightarrow> path list \<Rightarrow> world \<Rightarrow> world" where
  "unlink_staged E [] w = w"
| "unlink_staged E (p # ps) w = unlink_staged E ps (snd (sys_unlink E p w))"

definition stage_verified :: "env \<Rightarrow> path list \<Rightarrow> world \<Rightarrow> status \<times> world" where
  "stage_verified E tmpPaths w =
     (let (create_dir_status, w1) = createDirIfNeeded E kActiveApexPackagesDataDir 488 w
      in if \<not> Ok create_dir_status then (create_dir_status, w1)
         else (let (paths_to_stage, w2) = FilterUnnecessaryStagingPaths E tmpPaths w1
               in if paths_to_stage = [] then (Success, w2)
                  else (let (st, staged_files, staged_packages, w3) =
                          stage_each E paths_to_stage [] [] w2
                        in if \<not> Ok st then (st, unlink_staged E staged_files w3)
                           else RemovePreviouslyActiveApexFiles E staged_packages staged_files w3)))"

definition stagePackages :: "env \<Rightarrow> path list \<Rightarrow> world \<Rightarrow> (status \<times> world) option" where
  "stagePackages E tmpPaths w =
     (if tmpPaths = [] then Some (Inl (Err msg_empty_set), w)
      else (case verifyPackages E tmpPaths (VerifyPackageBoot E) w of
          None \<Rightarrow> None
        | Some (Inl e, w1) \<Rightarrow> Some (Inl e, w1)
        | Some (Inr _, w1) \<Rightarrow> Some (stage_verified E tmpPaths w1)))"

fun access_each :: "env \<Rightarrow> path list \<Rightarrow> world \<Rightarrow> status \<times> world" where
  "access_each E [] w = (Success, w)"
| "access_each E (path # paths) w =
     (let (r, w1) = sys_access E path w
      in case r of Inl e \<Rightarrow> (Inl (PErr msg_cant_access path e), w1) | Inr _ \<Rightarrow> access_each E paths w1)"

fun unstage_each :: "env \<Rightarrow> path list \<Rightarrow> world \<Rightarrow> status \<times> world" where
  "unstage_each E [] w = (Success, w)"
| "unstage_each E (path # paths) w =
     (let (r, w1) = sys_unlink E path w
      in case r of Inl e \<Rightarrow> (Inl (PErr msg_cant_unlink path e), w1) | Inr _ \<Rightarrow> unstage_each E paths w1)"

definition unstagePackages :: "env \<Rightarrow> path list \<Rightarrow> world \<Rightarrow> status \<times> world" where
  "unstagePackages E paths w =
     (if paths = [] then (Inl (Err msg_empty_set), w)
      else (let (r, w1) = access_each E paths w
            in if \<not> Ok r then (r, w1) else unstage_each E paths w1))"

end
