(* ===== verification/Mount_Frame.thy ===== *)
theory Mount_Frame
  imports Staging Mount_Safety
begin

text \<open>
  What mounting and unmounting cannot touch: outside the mount point the tree and the
  mount table stay as they are, whatever fails.
\<close>

definition at_mount :: "path \<Rightarrow> world \<Rightarrow> world \<Rightarrow> bool" where
  "at_mount mp w w' \<longleftrightarrow> only_fs (\<lambda>p. p = mp) w (w'\<lparr>mnts := mnts w\<rparr>) \<and>
     filter (\<lambda>(t, _). t \<noteq> mp) (mnts w') = filter (\<lambda>(t, _). t \<noteq> mp) (mnts w)"

lemma at_mount_refl [simp]: "at_mount mp w w"
  by (simp add: at_mount_def only_fs_def)

lemma at_mount_trans [trans]: "at_mount mp w1 w2 \<Longrightarrow> at_mount mp w2 w3 \<Longrightarrow> at_mount mp w1 w3"
  by (cases w1; cases w2; cases w3) (auto simp: at_mount_def only_fs_def)

lemma at_mount_asks: "asks w w' \<Longrightarrow> at_mount mp w w'"
  by (auto simp: at_mount_def asks_def)

lemma at_mount_only_fs: "only_fs (\<lambda>p. p = mp) w w' \<Longrightarrow> at_mount mp w w'"
  using only_fs_state [of "\<lambda>p. p = mp" w w'] by (cases w') (auto simp: at_mount_def only_fs_def)

lemma at_mount_lookup: "at_mount mp w w' \<Longrightarrow> p \<noteq> mp \<Longrightarrow> map_of (fs w') p = map_of (fs w) p"
  by (auto simp: at_mount_def only_fs_def)

lemma find_filter: "(\<And>x. P x \<Longrightarrow> Q x) \<Longrightarrow> find P (filter Q xs) = find P xs"
  by (induction xs) auto

lemma at_mount_over:
  assumes "at_mount mp w w'" and "\<not> under mp p"
  shows "mount_over w' p = mount_over w p"
proof -
  have "find (\<lambda>(t, _). under t p) ms = find (\<lambda>(t, _). under t p) (filter (\<lambda>(t, _). t \<noteq> mp) ms)"
    for ms :: "(path \<times> tree) list"
    by (rule find_filter [symmetric]) (use assms(2) in auto)
  with assms(1) show ?thesis unfolding mount_over_def at_mount_def by metis
qed

lemma at_mount_state: "at_mount mp w w' \<Longrightarrow>
    gMountedApexes w' = gMountedApexes w \<and> gScannedApexKeys w' = gScannedApexKeys w \<and>
    gBootstrap w' = gBootstrap w \<and> gVoldService w' = gVoldService w \<and>
    gSupportsFsCheckpoints w' = gSupportsFsCheckpoints w \<and>
    gInFsCheckpointMode w' = gInFsCheckpointMode w"
  using only_fs_state [of "\<lambda>p. p = mp" w "w'\<lparr>mnts := mnts w\<rparr>"] by (simp add: at_mount_def)

lemma sys_mount_dev_at: "sys_mount_dev E dev mp w = (r, w') \<Longrightarrow> at_mount mp w w'"
  by (auto simp: sys_mount_dev_def mnt_call_def mount_dev_eff_def at_mount_def only_fs_def
      split: option.splits sum.splits if_splits)

lemma sys_mount_bind_at: "sys_mount_bind E src mp w = (r, w') \<Longrightarrow> at_mount mp w w'"
  by (auto simp: sys_mount_bind_def mnt_call_def mount_bind_eff_def at_mount_def only_fs_def
      split: option.splits sum.splits if_splits)

lemma filter_umount_latest:
  "filter (\<lambda>(t, _). t \<noteq> mp) (umount_latest mp m) = filter (\<lambda>(t, _). t \<noteq> mp) m"
  by (induction m) auto

lemma sys_umount_at: "sys_umount E mp w = (r, w') \<Longrightarrow> at_mount mp w w'"
  by (auto simp: sys_umount_def mnt_call_def umount_eff_def at_mount_def only_fs_def
      filter_umount_latest split: option.splits sum.splits if_splits)

lemma sys_rmdir_at: "sys_rmdir E mp w = (r, w') \<Longrightarrow> at_mount mp w w'"
  using sys_rmdir_frame [of mp w E] by (auto intro: at_mount_only_fs)

lemma mount_device_at: "mount_device E apex mp dev w = (r, w') \<Longrightarrow> at_mount mp w w'"
proof -
  assume m: "mount_device E apex mp dev w = (r, w')"
  obtain r1 w1 where a: "sys_mount_dev E dev mp w = (r1, w1)" by (cases "sys_mount_dev E dev mp w")
  obtain r2 w2 where b: "VerifyMountedImage E apex mp w1 = (r2, w2)"
    by (cases "VerifyMountedImage E apex mp w1")
  obtain r3 w3 where c: "sys_umount E mp w2 = (r3, w3)" by (cases "sys_umount E mp w2")
  note s = sys_mount_dev_at [OF a] at_mount_asks [OF quiet_asks [OF VerifyMountedImage_quiet [OF b]]]
    sys_umount_at [OF c]
  from m a b c have "w' = w1 \<or> w' = w2 \<or> w' = w3"
    by (auto simp: mount_device_def split: sum.splits)
  with s show ?thesis by (blast intro: at_mount_trans)
qed

lemma mount_verified_at: "mount_verified E apex mp dev rd n w = (r, w') \<Longrightarrow> at_mount mp w w'"
proof -
  assume m: "mount_verified E apex mp dev rd n w = (r, w')"
  obtain r1 w1 where a: "waitForDevice E dev kWaitToBeCreated w = (r1, w1)"
    by (cases "waitForDevice E dev kWaitToBeCreated w")
  obtain r2 w2 where b: "(if rd then readVerityDevice E dev n w1 else (Success, w1)) = (r2, w2)"
    by fastforce
  obtain r3 w3 where c: "mount_device E apex mp dev w2 = (r3, w3)" by (cases "mount_device E apex mp dev w2")
  have "at_mount mp w1 w2"
    using b by (auto split: if_splits intro: at_mount_asks quiet_asks readVerityDevice_quiet)
  note s = at_mount_asks [OF quiet_asks [OF waitForDevice_quiet [OF a]]] this mount_device_at [OF c]
  from m a b c have "w' = w1 \<or> w' = w2 \<or> w' = w3"
    by (auto simp: mount_verified_def split: if_splits)
  with s show ?thesis by (blast intro: at_mount_trans)
qed

lemma mount_on_verity_at: "mount_on_verity E apex mp dm vi loop v w = (r, w') \<Longrightarrow> at_mount mp w w'"
proof -
  let ?t = "createVerityTable v loop (\<not> vi)"
  assume m: "mount_on_verity E apex mp dm vi loop v w = (r, w')"
  obtain r1 w1 where c: "createVerityDevice E dm ?t w = (r1, w1)" by (cases "createVerityDevice E dm ?t w")
  have s1: "at_mount mp w w1" using createVerityDevice_spec [OF c] by (blast intro: at_mount_asks)
  show ?thesis
  proof (cases r1)
    case (Inl e)
    with m c s1 show ?thesis by (simp add: mount_on_verity_def)
  next
    case (Inr np)
    obtain n p where np: "np = (n, p)" by (cases np)
    obtain r2 w2 where a: "configureReadAhead E p w1 = (r2, w2)" by (cases "configureReadAhead E p w1")
    obtain r3 w3 where b: "(if \<not> Ok r2 then (r2, w2) else mount_verified E apex mp p vi
        (image_size (verity_desc v)) w2) = (r3, w3)" by fastforce
    have "at_mount mp w2 w3" using b by (auto split: if_splits intro: mount_verified_at)
    moreover have "at_mount mp w3 (destroy_DmVerityDevice E (Some (n, p)) w3)"
      using destroy_spec by (blast intro: at_mount_asks)
    moreover from m c Inr np a b have "w' = w3 \<or> w' = destroy_DmVerityDevice E (Some (n, p)) w3"
      by (auto simp: mount_on_verity_def Let_def split: if_splits)
    moreover note s1 at_mount_asks [OF quiet_asks [OF configureReadAhead_quiet [OF a]]]
    ultimately show ?thesis by (blast intro: at_mount_trans)
  qed
qed

lemma mountNonFlattened_at: "mountNonFlattened E apex mp dm vi w = (r, w') \<Longrightarrow> at_mount mp w w'"
proof -
  assume m: "mountNonFlattened E apex mp dm vi w = (r, w')"
  obtain r1 w1 where c: "create_loop_attempts E apex kLoopDeviceSetupAttempts w = (r1, w1)"
    by (cases "create_loop_attempts E apex kLoopDeviceSetupAttempts w")
  have s1: "at_mount mp w w1" using create_loop_attempts_spec [OF c] by (blast intro: at_mount_asks)
  have loop: "at_mount mp w1 w2" if "mount_on_loop E apex mp dm vi loop w1 = (r2, w2)" for loop r2 w2
  proof -
    obtain r3 w3 where v: "VerifyApexVerity E apex w1 = (r3, w3)" by (cases "VerifyApexVerity E apex w1")
    have "at_mount mp w1 w3" by (rule at_mount_asks [OF VerifyApexVerity_asks [OF v]])
    moreover have "at_mount mp w3 w2 \<or> w2 = w3"
      using that v by (auto simp: mount_on_loop_def Let_def dest: mount_on_verity_at mount_verified_at
          split: sum.splits if_splits)
    ultimately show ?thesis by (blast intro: at_mount_trans)
  qed
  show ?thesis
  proof (cases "kUpdatable E \<and> Ok r1")
    case False
    with m c s1 show ?thesis by (auto simp: mountNonFlattened_def Ok_def split: sum.splits if_splits)
  next
    case True
    then obtain l where l: "r1 = Inr l" by (auto simp: Ok_iff)
    obtain r2 w2 where o: "mount_on_loop E apex mp dm vi l w1 = (r2, w2)"
      by (cases "mount_on_loop E apex mp dm vi l w1")
    from m c True l o have "w' = w2 \<or> w' = MaybeCloseBad E l w2"
      by (auto simp: mountNonFlattened_def split: sum.splits)
    with s1 loop [OF o] MaybeCloseBad_asks [of w2 E l] show ?thesis
      by (blast intro: at_mount_trans at_mount_asks)
  qed
qed

lemma MountPackageImpl_at: "MountPackageImpl E apex mp dm vi w = (r, w') \<Longrightarrow> at_mount mp w w'"
proof -
  assume m: "MountPackageImpl E apex mp dm vi w = (r, w')"
  obtain ex w1 where a: "PathExists E mp w = (ex, w1)" by (cases "PathExists E mp w")
  note s1 = at_mount_asks [OF PathExists_asks [OF a], of mp]
  show ?thesis
  proof (cases ex)
    case (Inl e)
    with m a s1 show ?thesis by (simp add: MountPackageImpl_def)
  next
    case (Inr b)
    obtain r2 w2 where mk: "(if b then (Inr (), w1) else sys_mkdir E mp kMkdirMode w1) = (r2, w2)"
      by fastforce
    have s2: "at_mount mp w1 w2"
      using mk sys_mkdir_frame [of mp w1 E kMkdirMode]
      by (auto split: if_splits intro: at_mount_only_fs)
    obtain em w3 where c: "IsEmptyDirectory E mp w2 = (em, w3)" by (cases "IsEmptyDirectory E mp w2")
    note s3 = at_mount_asks [OF IsEmptyDirectory_asks [OF c], of mp]
    obtain r4 w4 where d: "(if \<not> em then (Inl (ErrAt msg_mount_point_full mp), w3)
        else if IsFlattened apex then mountFlattened E apex mp w3
        else mountNonFlattened E apex mp dm vi w3) = (r4, w4)" by fastforce
    have s4: "at_mount mp w3 w4"
      using d by (auto simp: mountFlattened_def Let_def dest: sys_mount_bind_at mountNonFlattened_at
          split: if_splits prod.splits)
    obtain r5 w5 where f: "sys_rmdir E mp w4 = (r5, w5)" by (cases "sys_rmdir E mp w4")
    note s5 = sys_rmdir_at [OF f]
    from m a Inr mk c d f have "w' = w2 \<or> w' = w4 \<or> w' = w5"
      by (auto simp: MountPackageImpl_def Let_def split: sum.splits if_splits)
    with s1 s2 s3 s4 s5 show ?thesis by (blast intro: at_mount_trans)
  qed
qed

lemma DestroyLoopDevice_asks: "asks w (DestroyLoopDevice E p (\<lambda>_ _ w. w) w)"
  by (auto simp: DestroyLoopDevice_def sys_open_def sys_ioctl_def query_def Let_def
      split: prod.splits sum.splits option.splits)

lemma Unmount_at: "Unmount E data w = (r, w') \<Longrightarrow> at_mount (mount_point data) w w'"
proof -
  let ?mp = "mount_point data"
  assume m: "Unmount E data w = (r, w')"
  obtain r1 w1 where a: "sys_umount E ?mp w = (r1, w1)" by (cases "sys_umount E ?mp w")
  obtain r2 w2 where b: "sys_rmdir E ?mp w1 = (r2, w2)" by (cases "sys_rmdir E ?mp w1")
  obtain r3 w3 where c: "DeleteVerityDevice E (device_name data) w2 = (r3, w3)"
    by (cases "DeleteVerityDevice E (device_name data) w2")
  have "asks w2 w3" using DeleteVerityDevice_spec [OF c] by blast
  note s = sys_umount_at [OF a] sys_rmdir_at [OF b] at_mount_asks [OF this, of ?mp]
    at_mount_asks [OF DestroyLoopDevice_asks, of ?mp]
  from m a b c have "w' = w1 \<or> w' = w2 \<or> w' = w3 \<or>
      w' = DestroyLoopDevice E (loop_name data) (\<lambda>_ _ w. w) w2 \<or>
      w' = DestroyLoopDevice E (loop_name data) (\<lambda>_ _ w. w) w3"
    by (auto simp: Unmount_def Let_def split: if_splits)
  with s show ?thesis by (blast intro: at_mount_trans)
qed

end
