(* ===== verification/Verify_Frame.thy ===== *)
theory Verify_Frame
  imports Mount_Frame
begin

text \<open>
  What verifying packages does to the state, for any relation that admits queries and
  mounting and unmounting below the mount root: packages are only read and mounted for
  a while. The clients instantiate the relation.
\<close>

lemma under_slash [simp]: "under d (d @ CHR ''/'' # n)"
  by (simp add: under_def)

lemma temp_mount_under: "under kApexRoot (GetPackageTempMountPoint m)"
  by (simp add: GetPackageTempMountPoint_def GetPackageMountPoint_def)

lemma ValidateUpdate_asks: "ValidateUpdate E s n w = Some (r, w') \<Longrightarrow> asks w w'"
  by (auto simp: ValidateUpdate_def ReadSha512_def CalculateSha512_eq sys_open_def sys_read_def
      query_eq Let_def dest!: ReadFileToString_asks elim!: asksE
      split: prod.splits sum.splits option.splits)

lemma open_all_asks: "open_all E ps w = (r, w') \<Longrightarrow> asks w w'"
  by (induction ps arbitrary: w r)
    (fastforce simp: Let_def dest: Open_asks intro: asks_trans split: prod.splits sum.splits)+

lemma MountPackageImpl_mount_point: "MountPackageImpl E a mp dm vi w = (Inr d, w') \<Longrightarrow> mount_point d = mp"
  by (auto simp: MountPackageImpl_def mountFlattened_def mountNonFlattened_def Let_def
      split: sum.splits prod.splits if_splits)

locale verify_frame =
  fixes E :: env and Q :: "world \<Rightarrow> world \<Rightarrow> bool"
  assumes Q_trans: "Q w1 w2 \<Longrightarrow> Q w2 w3 \<Longrightarrow> Q w1 w3"
    and Q_asks: "asks w w' \<Longrightarrow> Q w w'"
    and Q_mount: "MountPackageImpl E a mp dm vi w = (mr, w') \<Longrightarrow> under kApexRoot mp \<Longrightarrow> Q w w'"
    and Q_unmount: "Unmount E d w = (r, w') \<Longrightarrow> under kApexRoot (mount_point d) \<Longrightarrow> Q w w'"
begin

lemma Q_refl [simp]: "Q w w"
  by (rule Q_asks) simp

lemma RunVerify_Q:
  assumes fn: "\<And>p w st w'. verify_fn p w = Some (st, w') \<Longrightarrow> asks w w'"
    and run: "RunVerifyFnInsideTempMount E apex verify_fn w = Some (st, w')"
  shows "Q w w'"
proof -
  let ?mp = "GetPackageTempMountPoint (GetManifest apex)"
  obtain r1 w1 where m: "VerifyAndTempMountPackage E apex ?mp w = (r1, w1)"
    by (cases "VerifyAndTempMountPackage E apex ?mp w")
  have mi: "MountPackageImpl E apex ?mp (GetPackageId (GetManifest apex) @ ''.tmp'') True w = (r1, w1)"
    using m by (simp add: VerifyAndTempMountPackage_def)
  have s1: "Q w w1" by (rule Q_mount [OF mi temp_mount_under])
  show ?thesis
  proof (cases r1)
    case (Inl e)
    with run m s1 show ?thesis by (simp add: RunVerifyFnInsideTempMount_def)
  next
    case (Inr d)
    with run m obtain st2 w2 where v: "verify_fn ?mp w1 = Some (st2, w2)" and w': "w' = snd (Unmount E d w2)"
      by (auto simp: RunVerifyFnInsideTempMount_def split: option.splits)
    have "mount_point d = ?mp"
      using MountPackageImpl_spec [OF mi] Inr by (auto simp: mount_result_def split: if_splits)
    then have "Q w2 w'"
      using Q_unmount [of d w2 "fst (Unmount E d w2)" w'] temp_mount_under w' by simp
    with s1 Q_asks [OF fn [OF v]] show ?thesis by (blast intro: Q_trans)
  qed
qed

lemma VerifyPackageBoot_Q:
  assumes "VerifyPackageBoot E a w = Some (r, w')"
  shows "Q w w'"
proof -
  obtain r1 w1 where v: "VerifyApexVerity E a w = (r1, w1)" by (cases "VerifyApexVerity E a w")
  note s1 = Q_asks [OF VerifyApexVerity_asks [OF v]]
  have shim: "Q w1 w2" if run: "ValidateStagingShimApex E a w1 = Some (r2, w2)" for r2 w2
  proof -
    let ?p = "slash kApexPackageSystemDir kSystemShimApexName"
    obtain sh w3 where o: "Open E ?p w1 = (sh, w3)" by (cases "Open E ?p w1")
    note s3 = Q_asks [OF Open_asks [OF o]]
    show ?thesis
    proof (cases sh)
      case (Inl e)
      with run o s3 show ?thesis by (simp add: ValidateStagingShimApex_def)
    next
      case (Inr s)
      with run o have
        "RunVerifyFnInsideTempMount E s (\<lambda>p. ValidateUpdate E p (GetPath a)) w3 = Some (r2, w2)"
        by (simp add: ValidateStagingShimApex_def)
      then have "Q w3 w2"
        by (rule RunVerify_Q [rotated]) (rule ValidateUpdate_asks)
      with s3 show ?thesis by (blast intro: Q_trans)
    qed
  qed
  from assms v s1 show ?thesis
    by (auto simp: VerifyPackageBoot_def split: if_splits sum.splits intro: Q_trans shim)
qed

lemma verify_each_Q:
  assumes "\<And>a w r w'. fn a w = Some (r, w') \<Longrightarrow> Q w w'"
  shows "verify_each fn as w = Some (r, w') \<Longrightarrow> Q w w'"
proof (induction "as" arbitrary: w)
  case (Cons a "as")
  then obtain st w1 where f: "fn a w = Some (st, w1)" by (auto split: option.splits)
  note s = assms [OF f]
  show ?case
  proof (cases st)
    case (Inl e)
    with Cons.prems f s show ?thesis by simp
  next
    case (Inr u)
    with Cons.prems f have "verify_each fn as w1 = Some (r, w')" by simp
    from Cons.IH [OF this] s show ?thesis by (blast intro: Q_trans)
  qed
qed simp

lemma verifyPackages_Q:
  assumes fn: "\<And>a w r w'. fn a w = Some (r, w') \<Longrightarrow> Q w w'"
    and "verifyPackages E ps fn w = Some (r, w')"
  shows "Q w w'"
proof -
  obtain r1 w1 where o: "open_all E ps w = (r1, w1)" by (cases "open_all E ps w")
  note s1 = Q_asks [OF open_all_asks [OF o]]
  have v: "Q w1 w2" if "verify_each fn as w1 = Some (r2, w2)" for "as" r2 w2
    using fn that by (rule verify_each_Q)
  from assms(2) o s1 show ?thesis
    by (auto simp: verifyPackages_def HandlePackages_def split: if_splits sum.splits option.splits
        intro: Q_trans dest!: v)
qed

lemma verifyPackages_Boot_Q:
  "verifyPackages E ps (VerifyPackageBoot E) w = Some (r, w') \<Longrightarrow> Q w w'"
  by (rule verifyPackages_Q [where fn = "VerifyPackageBoot E", OF VerifyPackageBoot_Q])

lemma VerifyPackageInstall_Q: "VerifyPackageInstall E a w = Some (r, w') \<Longrightarrow> Q w w'"
proof -
  assume i: "VerifyPackageInstall E a w = Some (r, w')"
  have run: "Q w1 w2" if "RunVerifyFnInsideTempMount E a (\<lambda>_ w. Some (Success, w)) w1 = Some (r, w2)"
    for w1 w2 r
    using that by (rule RunVerify_Q [rotated]) simp
  from i obtain r1 w1 where b: "VerifyPackageBoot E a w = Some (r1, w1)"
    by (auto simp: VerifyPackageInstall_def split: option.splits)
  obtain r2 w2 where y: "VerifyApexVerity E a w1 = (r2, w2)" by (cases "VerifyApexVerity E a w1")
  note s = VerifyPackageBoot_Q [OF b] Q_asks [OF VerifyApexVerity_asks [OF y]]
  from i b y have "w' = w1 \<or> (\<exists>r. RunVerifyFnInsideTempMount E a (\<lambda>_ w. Some (Success, w)) w2 = Some (r, w'))"
    by (auto simp: VerifyPackageInstall_def split: sum.splits if_splits)
  with s run show ?thesis by (blast intro: Q_trans)
qed

lemma verifySessionDir_Q: "verifySessionDir E sid w = Some (r, w') \<Longrightarrow> Q w w'"
proof -
  assume v: "verifySessionDir E sid w = Some (r, w')"
  obtain r1 w1 where f: "FindApexFilesByName E (session_dir_path sid) False w = (r1, w1)"
    by (cases "FindApexFilesByName E (session_dir_path sid) False w")
  note s1 = Q_asks [OF FindApexFilesByName_asks [OF f]]
  have "Q w1 w2" if "verifyPackages E ps (VerifyPackageInstall E) w1 = Some (r, w2)" for ps r w2
    using verifyPackages_Q [where fn = "VerifyPackageInstall E", OF VerifyPackageInstall_Q that] .
  moreover from v f have "w' = w1 \<or> (\<exists>ps r. verifyPackages E ps (VerifyPackageInstall E) w1 = Some (r, w'))"
    by (auto simp: verifySessionDir_def split: sum.splits option.splits if_splits)
  ultimately show ?thesis using s1 by (blast intro: Q_trans)
qed

end

end
