(* ===== verification/Staging_Props.thy ===== *)
theory Staging_Props
  imports Verify_Frame
begin

text \<open>
  What verifying and staging packages do to \<open>/data/apex/active\<close>: verification touches
  only \<open>/apex\<close>; staging is undone when linking fails, and on success leaves exactly the
  staged files of every staged package.
\<close>

section \<open>Verification stays below the mount root\<close>

definition apex_only :: "world \<Rightarrow> world \<Rightarrow> bool" where
  "apex_only w w' \<longleftrightarrow> (\<forall>p. \<not> under kApexRoot p \<longrightarrow>
       map_of (fs w') p = map_of (fs w) p \<and> mount_over w' p = mount_over w p) \<and>
     gMountedApexes w' = gMountedApexes w \<and> gScannedApexKeys w' = gScannedApexKeys w \<and>
     gInFsCheckpointMode w' = gInFsCheckpointMode w"

lemma apex_only_refl [simp]: "apex_only w w"
  by (simp add: apex_only_def)

lemma apex_only_trans [trans]: "apex_only w1 w2 \<Longrightarrow> apex_only w2 w3 \<Longrightarrow> apex_only w1 w3"
  by (auto simp: apex_only_def)

lemma apex_only_asks: "asks w w' \<Longrightarrow> apex_only w w'"
  by (auto simp: apex_only_def asks_fields)

lemma apex_only_at_mount: "at_mount mp w w' \<Longrightarrow> under kApexRoot mp \<Longrightarrow> apex_only w w'"
  using at_mount_state at_mount_over at_mount_lookup under_trans
  unfolding apex_only_def by (metis under_refl)

lemma apex_only_node: "apex_only w w' \<Longrightarrow> \<not> under kApexRoot p \<Longrightarrow> mount_over w p = None \<Longrightarrow>
    node_at w' p = node_at w p"
  by (simp add: apex_only_def node_at_host)

interpretation apex: verify_frame E apex_only for E
  by unfold_locales
    (auto intro: apex_only_trans apex_only_asks apex_only_at_mount MountPackageImpl_at Unmount_at)

section \<open>Linking\<close>

text \<open>The directory of active packages is on the data partition itself, and holds no device nodes.\<close>

definition active_place :: "env \<Rightarrow> world \<Rightarrow> bool" where
  "active_place E w \<longleftrightarrow> (\<forall>p. under kActiveApexPackagesDataDir p \<longrightarrow>
     mount_over w p = None \<and> (\<forall>h. \<not> dev_node E h p))"

lemma active_place_host: "active_place E w \<Longrightarrow> under kActiveApexPackagesDataDir p \<Longrightarrow> mount_over w p = None"
  by (simp add: active_place_def)

lemma active_place_cong: "mnts w' = mnts w \<Longrightarrow> active_place E w' = active_place E w"
  using mount_over_cong [of w' w] by (simp add: active_place_def)

lemma StageDestPath_under [simp]: "under kActiveApexPackagesDataDir (StageDestPath a)"
  by (simp add: StageDestPath_def)

lemma sys_link_ok:
  assumes "sys_link E a b w = (Inr u, w')" and "mount_over w b = None"
  shows "\<exists>n. node_at w a = Some n \<and> \<not> is_dir n \<and> map_of (fs w) b = None \<and> map_of (fs w') b = Some n"
  using assms
  by (auto simp: sys_link_def fs_call_eq link_eff_def node_at_host update_conv'
      split: option.splits sum.splits if_splits)

lemma node_at_only_fs: "only_fs R w w' \<Longrightarrow> \<not> R p \<Longrightarrow> node_at w' p = node_at w p"
  using mount_over_cong [of w' w]
  by (simp add: node_at_def only_fs_state only_fs_lookup cong: option.case_cong)

lemma stage_each_mono: "stage_each E paths fl pk w = (st, fl', pk', w') \<Longrightarrow>
    set fl \<subseteq> set fl' \<and> set pk \<subseteq> set pk'"
proof (induction paths arbitrary: fl pk w)
  case (Cons path paths)
  then show ?case
    by (fastforce simp: Let_def split: prod.splits sum.splits)
qed simp

text \<open>
  After linking: only the staged files are new, each a file below the active directory that
  did not exist before, and on success every package was opened and its file linked.
\<close>

definition linked :: "env \<Rightarrow> path list \<Rightarrow> path list \<Rightarrow> string list \<Rightarrow> path set \<Rightarrow> world \<Rightarrow> world \<Rightarrow> bool" where
  "linked E paths fl' pk' new w w' \<longleftrightarrow> (\<forall>path \<in> set paths. \<exists>a w1 w2. Open E path w1 = (Inr a, w2) \<and>
     StageDestPath a \<in> set fl' \<and> manifest_name (GetManifest a) \<in> set pk' \<and>
     only_fs (\<lambda>p. p \<in> new) w w1 \<and>
     (\<exists>n. node_at w1 path = Some n \<and> map_of (fs w') (StageDestPath a) = Some n))"

lemma stage_each_spec:
  assumes run: "stage_each E paths fl pk w = (st, fl', pk', w')"
    and place: "active_place E w" and old: "\<forall>p \<in> set fl. map_of (fs w) p \<noteq> None"
  shows "only_fs (\<lambda>p. p \<in> set fl' - set fl) w w' \<and>
    (\<forall>p \<in> set fl' - set fl. (\<exists>a. p = StageDestPath a) \<and> map_of (fs w) p = None \<and>
       (\<exists>n. map_of (fs w') p = Some n \<and> \<not> is_dir n)) \<and>
    (Ok st \<longrightarrow> linked E paths fl' pk' (set fl' - set fl) w w')"
  using run place old
proof (induction paths arbitrary: fl pk w)
  case Nil
  then show ?case by (auto simp: only_fs_refl linked_def)
next
  case (Cons path paths)
  obtain ap w1 where o: "Open E path w = (ap, w1)" by (cases "Open E path w")
  note a1 = Open_asks [OF o]
  show ?case
  proof (cases ap)
    case (Inl e)
    with Cons.prems o a1 show ?thesis by (auto intro: asks_only_fs)
  next
    case (Inr a)
    have gp: "GetPath a = path" using Open_Inr(1) o Inr by blast
    obtain r2 w2 where l: "sys_link E path (StageDestPath a) w1 = (r2, w2)"
      by (cases "sys_link E path (StageDestPath a) w1")
    let ?d = "StageDestPath a"
    have o2: "only_fs (\<lambda>p. p = ?d) w1 w2" using sys_link_frame [of ?d w1 E path] l by simp
    have host: "mount_over w1 ?d = None"
      using active_place_host [OF Cons.prems(2), of ?d] asks_fields(6) [OF a1] by simp
    show ?thesis
    proof (cases r2)
      case (Inl e)
      with l have "w2 = w1\<lparr>hist := SysLink path ?d # hist w1\<rparr>"
        by (auto simp: sys_link_def fs_call_eq split: sum.splits)
      then have "asks w w2" using a1 by (auto elim: asksE)
      with Cons.prems o \<open>ap = Inr a\<close> gp l Inl show ?thesis by (auto intro: asks_only_fs)
    next
      case (Inr u)
      from sys_link_ok [OF l [unfolded Inr] host] asks_fields(1) [OF a1] obtain n where
        n: "node_at w1 path = Some n" "\<not> is_dir n" "map_of (fs w) ?d = None" "map_of (fs w2) ?d = Some n"
        by auto
      then have dfl: "?d \<notin> set fl" using Cons.prems(3) by auto
      have ow: "only_fs (\<lambda>p. p = ?d) w w2" using asks_only_fs [OF a1] o2 by (blast intro: only_fs_chain)
      have pl2: "active_place E w2"
        using Cons.prems(2) active_place_cong [of w2 w] only_fs_state [OF ow] by simp
      from Cons.prems(1) o \<open>ap = Inr a\<close> gp l Inr have
        rec: "stage_each E paths (?d # fl) (manifest_name (GetManifest a) # pk) w2 = (st, fl', pk', w')"
        by simp
      have "\<forall>p \<in> set (?d # fl). map_of (fs w2) p \<noteq> None"
        using Cons.prems(3) n(4) only_fs_lookup [OF ow] dfl by (metis option.distinct(1) set_ConsD)
      note IH = Cons.IH [OF rec pl2 this]
      have sub: "set fl \<subseteq> set fl'" "?d \<in> set fl'" "manifest_name (GetManifest a) \<in> set pk'"
        using stage_each_mono [OF rec] by auto
      have new: "set fl' - set fl = insert ?d (set fl' - set (?d # fl))" using sub dfl by auto
      have owm: "only_fs (\<lambda>p. p \<in> set fl' - set fl) w w2"
        by (rule only_fs_mono [OF ow]) (use new in blast)
      have w': "only_fs (\<lambda>p. p \<in> set fl' - set fl) w2 w'"
        by (rule only_fs_mono [OF conjunct1 [OF IH]]) (use new in blast)
      have d': "map_of (fs w') ?d = Some n" using only_fs_lookup [OF conjunct1 [OF IH], of ?d] n(4) by simp
      have each: "(\<exists>a. p = StageDestPath a) \<and> map_of (fs w) p = None \<and>
          (\<exists>n. map_of (fs w') p = Some n \<and> \<not> is_dir n)" if "p \<in> set fl' - set fl" for p
      proof (cases "p = ?d")
        case True
        with n d' show ?thesis by blast
      next
        case False
        with that new IH only_fs_lookup [OF ow, of p] show ?thesis by auto
      qed
      have lk: "linked E (path # paths) fl' pk' (set fl' - set fl) w w'" if "Ok st"
      proof -
        have "linked E paths fl' pk' (set fl' - set (?d # fl)) w2 w'" using IH that by blast
        then have "linked E paths fl' pk' (set fl' - set fl) w w'"
          unfolding linked_def
          using only_fs_chain [OF owm] only_fs_mono new by (metis (no_types, lifting) insertCI)
        moreover have "only_fs (\<lambda>p. p \<in> set fl' - set fl) w w" by (rule only_fs_refl)
        moreover have "node_at w path = Some n" using n(1) by (simp add: asks_fields(3) [OF a1])
        ultimately show ?thesis
          using o \<open>ap = Inr a\<close> sub d' unfolding linked_def by auto
      qed
      from only_fs_chain [OF owm w'] each lk show ?thesis by blast
    qed
  qed
qed

text \<open>The lists of staged files and packages come from packages that were opened, and only these.\<close>

lemma stage_each_lists:
  assumes "stage_each E paths fl pk w = (st, fl', pk', w')"
  shows "\<exists>as. fl' = map StageDestPath as @ fl \<and> pk' = map (\<lambda>a. manifest_name (GetManifest a)) as @ pk \<and>
    (\<forall>a \<in> set as. \<exists>p \<in> set paths. \<exists>v v'. Open E p v = (Inr a, v') \<and> only_fs (\<lambda>q. q \<in> set fl') w v)"
  using assms
proof (induction paths arbitrary: fl pk w)
  case (Cons path paths)
  obtain ap w1 where o: "Open E path w = (ap, w1)" by (cases "Open E path w")
  show ?case
  proof (cases ap)
    case (Inl e)
    with Cons.prems o show ?thesis by (intro exI [of _ "[]"]) simp
  next
    case (Inr a)
    let ?d = "StageDestPath a"
    obtain r2 w2 where l: "sys_link E (GetPath a) ?d w1 = (r2, w2)" by (cases "sys_link E (GetPath a) ?d w1")
    show ?thesis
    proof (cases r2)
      case (Inl e)
      with Cons.prems o \<open>ap = Inr a\<close> l show ?thesis by (intro exI [of _ "[]"]) simp
    next
      case (Inr u)
      with Cons.prems o \<open>ap = Inr a\<close> l have
        rec: "stage_each E paths (?d # fl) (manifest_name (GetManifest a) # pk) w2 = (st, fl', pk', w')" by simp
      from Cons.IH [OF this] obtain as where as: "fl' = map StageDestPath as @ ?d # fl"
        "pk' = map (\<lambda>a. manifest_name (GetManifest a)) as @ manifest_name (GetManifest a) # pk"
        "\<forall>a \<in> set as. \<exists>p \<in> set paths. \<exists>v v'. Open E p v = (Inr a, v') \<and> only_fs (\<lambda>q. q \<in> set fl') w2 v" by blast
      have "only_fs (\<lambda>q. q = ?d) w w2"
        using only_fs_chain [OF asks_only_fs [OF Open_asks [OF o]]] sys_link_frame [of ?d w1 E "GetPath a"] l by simp
      then have o2: "only_fs (\<lambda>q. q \<in> set fl') w w2" by (rule only_fs_mono) (simp add: as(1))
      have "\<exists>p \<in> set (path # paths). \<exists>v v'. Open E p v = (Inr b, v') \<and> only_fs (\<lambda>q. q \<in> set fl') w v"
        if "b \<in> set (as @ [a])" for b
      proof (cases "b \<in> set as")
        case True
        with as(3) only_fs_chain [OF o2] show ?thesis by (meson list.set_intros(2))
      next
        case False
        with that o \<open>ap = Inr a\<close> only_fs_refl show ?thesis by auto
      qed
      with as(1,2) show ?thesis by (intro exI [of _ "as @ [a]"]) simp
    qed
  qed
qed simp

section \<open>Undoing and removing\<close>

definition unlink_works :: "env \<Rightarrow> bool" where
  "unlink_works E \<longleftrightarrow> (\<forall>h p. fault E h (SysUnlink p) = None)"

lemma unlink_staged_frame: "only_fs (\<lambda>p. p \<in> set ps) w (unlink_staged E ps w)"
proof (induction ps arbitrary: w)
  case (Cons p ps)
  have "only_fs (\<lambda>q. q = p) w (snd (sys_unlink E p w))" by (rule sys_unlink_frame)
  from only_fs_trans [OF this Cons.IH] show ?case by (auto elim: only_fs_mono)
qed (simp add: only_fs_refl)

lemma unlink_staged_gone:
  assumes "unlink_works E" and "\<forall>p \<in> set ps. mount_over w p = None"
    and "\<forall>p \<in> set ps. \<forall>n. map_of (fs w) p = Some n \<longrightarrow> \<not> is_dir n"
  shows "\<forall>p \<in> set ps. map_of (fs (unlink_staged E ps w)) p = None"
  using assms(2,3)
proof (induction ps arbitrary: w)
  case (Cons p ps)
  let ?w1 = "snd (sys_unlink E p w)"
  have f1: "map_of (fs ?w1) q = (if q = p then None else map_of (fs w) q)" for q
    using Cons.prems assms(1)
    by (auto simp: sys_unlink_def fs_call_def unlink_eff_def unlink_works_def node_at_host
        AList.delete_conv split: option.splits sum.splits)
  have o1: "only_fs (\<lambda>q. q = p) w ?w1" by (rule sys_unlink_frame)
  have "\<forall>q \<in> set ps. mount_over ?w1 q = None"
    using Cons.prems(1) only_fs_state [OF o1] mount_over_cong [of ?w1 w] by simp
  moreover have "\<forall>q \<in> set ps. \<forall>n. map_of (fs ?w1) q = Some n \<longrightarrow> \<not> is_dir n"
    using Cons.prems(2) f1 by (auto split: if_splits)
  ultimately have IH: "\<forall>q \<in> set ps. map_of (fs (unlink_staged E ps ?w1)) q = None" by (rule Cons.IH)
  have "map_of (fs (unlink_staged E ps ?w1)) p = None"
  proof (cases "p \<in> set ps")
    case False
    with only_fs_lookup [OF unlink_staged_frame [of ps ?w1 E], of p] f1 [of p] show ?thesis by simp
  qed (use IH in blast)
  with IH show ?case by simp
qed simp

section \<open>Where packages are read from\<close>

text \<open>
  Regular files that are there at the end were there, with the same bytes, at the start;
  a package then opens from what was there.
\<close>

definition regs_kept :: "(path \<Rightarrow> bool) \<Rightarrow> world \<Rightarrow> world \<Rightarrow> bool" where
  "regs_kept R w w' \<longleftrightarrow> (\<forall>p m c. \<not> R p \<longrightarrow> node_at w' p = Some (Reg m c) \<longrightarrow> node_at w p = Some (Reg m c))"

lemma regs_kept_trans: "regs_kept R w1 w2 \<Longrightarrow> regs_kept R w2 w3 \<Longrightarrow> regs_kept R w1 w3"
  by (auto simp: regs_kept_def)

lemma regs_kept_mono: "regs_kept R w w' \<Longrightarrow> (\<And>p. R p \<Longrightarrow> S p) \<Longrightarrow> regs_kept S w w'"
  by (auto simp: regs_kept_def)

lemma regs_kept_asks: "asks w w' \<Longrightarrow> regs_kept R w w'"
  by (simp add: regs_kept_def asks_fields)

lemma regs_kept_only_fs: "only_fs R w w' \<Longrightarrow> regs_kept R w w'"
  by (simp add: regs_kept_def node_at_only_fs)

lemma regs_kept_apex_only: "apex_only w w' \<Longrightarrow> regs_kept (under kApexRoot) w w'"
  by (simp add: regs_kept_def apex_only_def node_at_def cong: option.case_cong)

lemma regs_kept_createDir:
  assumes c: "createDirIfNeeded E d m w = (Inr (), w')" and host: "mount_over w d = None"
    and dev: "\<And>h. \<not> dev_node E h d"
  shows "regs_kept R w w'"
proof -
  note f = createDirIfNeeded_frame [OF c]
  have "node_at w' d = Some (Directory m)"
    using createDirIfNeeded_ok [OF c host dev] host mount_over_cong [of w' w] only_fs_state [OF f]
    by (simp add: node_at_host)
  with node_at_only_fs [OF f] show ?thesis unfolding regs_kept_def
    by (metis node.distinct(1) option.inject)
qed

lemma package_source_asks: "asks w w' \<Longrightarrow> package_source E w' p a = package_source E w p a"
  unfolding package_source_def by (drule asks_fields(3)) simp

lemma package_source_kept:
  assumes "package_source E w' p a" and "regs_kept R w w'" and "\<not> R p" "\<not> R (slash p kManifestFilename)"
  shows "package_source E w p a"
  using assms unfolding package_source_def regs_kept_def by (auto split: if_splits)

lemma under_root_slash: "\<not> under kApexRoot p \<Longrightarrow> \<not> under kApexRoot (slash p kManifestFilename)"
  by (auto simp: under_def kApexRoot_def kManifestFilename_def prefix_def append_eq_append_conv2
      append_eq_Cons_conv Cons_eq_append_conv)

lemma manifest_not_apex: "\<not> suffix kApexPackageSuffix (slash p kManifestFilename)"
proof
  assume "suffix kApexPackageSuffix (slash p kManifestFilename)"
  then obtain z where "slash p kManifestFilename = z @ ''.apex''"
    by (auto simp: suffix_def kApexPackageSuffix_def)
  then have "last (slash p kManifestFilename) = last (z @ ''.apex'')" by (rule arg_cong)
  then show False by (simp add: kManifestFilename_def)
qed

section \<open>Each step of staging\<close>

definition verified_file :: "env \<Rightarrow> world \<Rightarrow> path \<Rightarrow> bool" where
  "verified_file E w p \<longleftrightarrow> (\<exists>a m c v. node_at w p = Some (Reg m c) \<and> package_source E w p a \<and>
     GetPath a = p \<and> \<not> IsFlattened a \<and> authentic E (gScannedApexKeys w) a c v)"

lemma open_all_each:
  "open_all E ps w = (Inr as, w') \<Longrightarrow> p \<in> set ps \<Longrightarrow>
     \<exists>a \<in> set as. \<exists>w1 w2. asks w w1 \<and> Open E p w1 = (Inr a, w2)"
proof (induction ps arbitrary: w "as")
  case (Cons q ps)
  obtain r w1 where o: "Open E q w = (r, w1)" by (cases "Open E q w")
  obtain rest w2 where l: "open_all E ps w1 = (rest, w2)" by (cases "open_all E ps w1")
  from Cons.prems(1) o l obtain b bs where b: "r = Inr b" "rest = Inr bs" "as = b # bs"
    by (cases r; cases rest) auto
  show ?case
  proof (cases "p = q")
    case True
    with o b show ?thesis by (auto intro: exI [of _ w])
  next
    case False
    with Cons.prems(2) have "p \<in> set ps" by simp
    from Cons.IH [OF _ this, of w1 bs] l b(1,2) Cons.prems(1) o obtain a w3 w4 where
      "a \<in> set bs" "asks w1 w3" "Open E p w3 = (Inr a, w4)" by auto
    with asks_trans [OF Open_asks [OF o]] b(3) have "a \<in> set as" "asks w w3" by auto
    with \<open>Open E p w3 = (Inr a, w4)\<close> show ?thesis by blast
  qed
qed simp

lemma verify_each_each:
  assumes fn: "\<And>a w r w'. fn a w = Some (r, w') \<Longrightarrow> apex_only w w'"
  shows "verify_each fn as w = Some (Inr (), w') \<Longrightarrow> a \<in> set as \<Longrightarrow>
    \<exists>w1 w2. apex_only w w1 \<and> fn a w1 = Some (Inr (), w2)"
proof (induction "as" arbitrary: w)
  case (Cons b bs)
  from Cons.prems(1) obtain w1 where f: "fn b w = Some (Inr (), w1)" and
    v: "verify_each fn bs w1 = Some (Inr (), w')" by (auto split: option.splits sum.splits)
  show ?case
  proof (cases "a = b")
    case True
    with f show ?thesis using apex_only_refl by blast
  next
    case False
    with Cons.prems(2) have "a \<in> set bs" by simp
    from Cons.IH [OF v this] fn [OF f] show ?thesis by (blast intro: apex_only_trans)
  qed
qed simp

lemma apex_only_node_at: "apex_only w w' \<Longrightarrow> \<not> under kApexRoot p \<Longrightarrow> node_at w' p = node_at w p"
  by (simp add: apex_only_def node_at_def cong: option.case_cong)

lemma Boot_verified_file:
  assumes v: "verifyPackages E ps (VerifyPackageBoot E) w = Some (Inr as, w')" and p: "p \<in> set ps"
    and out: "\<not> under kApexRoot p"
  shows "verified_file E w p"
proof -
  from v obtain w1 where o: "open_all E ps w = (Inr as, w1)"
    and ve: "verify_each (VerifyPackageBoot E) as w1 = Some (Inr (), w')"
    by (auto simp: verifyPackages_def HandlePackages_def split: if_splits sum.splits option.splits prod.splits)
  from open_all_each [OF o p] obtain a w2 w3 where a: "a \<in> set as" "asks w w2" "Open E p w2 = (Inr a, w3)"
    by blast
  have "\<exists>w4 w5. apex_only w1 w4 \<and> VerifyPackageBoot E a w4 = Some (Inr (), w5)"
    using apex.VerifyPackageBoot_Q ve a(1) by (rule verify_each_each)
  then obtain w4 w5 where b: "apex_only w1 w4" "VerifyPackageBoot E a w4 = Some (Inr (), w5)" by blast
  have w4: "apex_only w w4" using apex_only_asks [OF open_all_asks [OF o]] b(1) by (rule apex_only_trans)
  have gp: "GetPath a = p" by (rule Open_Inr(1) [OF a(3)])
  have src: "package_source E w p a"
    using Open_source [OF a(3)] package_source_asks [OF a(2)] by simp
  from b(2) obtain vd w6 where fl: "\<not> IsFlattened a" and vv: "VerifyApexVerity E a w4 = (Inr vd, w6)"
    by (auto simp: VerifyPackageBoot_def split: if_splits sum.splits prod.splits)
  from src fl obtain m c where n: "node_at w p = Some (Reg m c)" by (auto simp: package_source_def)
  have "node_at w4 (GetPath a) = Some (Reg m c)" using apex_only_node_at [OF w4 out] n gp by simp
  from VerifyApexVerity_Inr [OF vv this] w4 have "authentic E (gScannedApexKeys w) a c vd"
    by (simp add: apex_only_def)
  with n src gp fl show ?thesis unfolding verified_file_def by blast
qed

text \<open>Filtering drops a package only for one of two reasons.\<close>

definition unneeded :: "env \<Rightarrow> (string \<times> uint64) list \<Rightarrow> world \<Rightarrow> path \<Rightarrow> bool" where
  "unneeded E code w path \<longleftrightarrow> (\<exists>a. package_source E w path a \<and>
     (node_at w (StageDestPath a) \<noteq> None \<or>
      map_of code (manifest_name (GetManifest a)) = Some (manifest_version (GetManifest a))))"

lemma needs_staging_asks: "needs_staging E code p w = (b, w') \<Longrightarrow> asks w w'"
  by (auto simp: needs_staging_def Let_def sys_access_def query_eq dest!: Open_asks elim!: asksE
      split: prod.splits sum.splits if_splits)

lemma needs_staging_False:
  assumes "needs_staging E code p w = (False, w')"
    and dev: "\<And>h a. \<not> dev_node E h (StageDestPath a)"
  shows "unneeded E code w p"
proof -
  obtain r w1 where o: "Open E p w = (r, w1)" by (cases "Open E p w")
  with assms(1) obtain a where a: "r = Inr a" by (cases r) (auto simp: needs_staging_def)
  obtain acc w2 where s: "sys_access E (StageDestPath a) w1 = (acc, w2)"
    by (cases "sys_access E (StageDestPath a) w1")
  have "node_at w (StageDestPath a) \<noteq> None" if "Ok acc"
    using that s dev asks_fields(3) [OF Open_asks [OF o [unfolded a]]]
    by (auto simp: sys_access_def query_eq stat_eff_def split: option.splits)
  with assms(1) o a s Open_source [OF o [unfolded a]] show ?thesis
    unfolding unneeded_def by (auto simp: needs_staging_def split: if_splits)
qed

lemma filter_paths_spec:
  assumes "\<And>h a. \<not> dev_node E h (StageDestPath a)"
  shows "filter_paths E code ps w = (rest, w') \<Longrightarrow>
    asks w w' \<and> set rest \<subseteq> set ps \<and> (\<forall>p \<in> set ps. p \<in> set rest \<or> unneeded E code w p)"
proof (induction ps arbitrary: w rest)
  case (Cons p ps)
  obtain b w1 where n: "needs_staging E code p w = (b, w1)" by (cases "needs_staging E code p w")
  obtain rest' w2 where f: "filter_paths E code ps w1 = (rest', w2)" by (cases "filter_paths E code ps w1")
  note a = needs_staging_asks [OF n]
  have un: "unneeded E code w1 q = unneeded E code w q" for q
    by (simp add: unneeded_def package_source_asks [OF a] asks_fields(3) [OF a])
  from Cons.prems n f have r: "rest = (if b then p # rest' else rest')" "w' = w2" by simp_all
  have "b \<or> unneeded E code w p" using n needs_staging_False [OF _ assms] by (cases b) auto
  with Cons.IH [of w1 rest'] f un a r show ?case by (auto intro: asks_trans)
qed simp

text \<open>Removing the files that packages replace.\<close>

lemma regs_kept_refl: "regs_kept R w w"
  by (simp add: regs_kept_def)

lemma sys_unlink_regs_kept: "sys_unlink E p w = (r, w') \<Longrightarrow> regs_kept R w w'"
  by (auto simp: regs_kept_def sys_unlink_def fs_call_eq unlink_eff_def node_at_def AList.delete_conv
      split: option.splits sum.splits if_splits)

lemma sys_unlink_gone: "sys_unlink E p w = (Inr u, w') \<Longrightarrow> map_of (fs w') p = None"
  by (auto simp: sys_unlink_def fs_call_eq unlink_eff_def AList.delete_conv
      split: option.splits sum.splits if_splits)

lemma sys_unlink_asks: "sys_unlink E p w = (Inl e, w') \<Longrightarrow> asks w w'"
  by (auto simp: sys_unlink_def fs_call_eq split: option.splits sum.splits)

lemma remove_previous_spec:
  assumes "remove_previous E aff keep paths w = (st, w')"
  shows "only_fs (\<lambda>p. p \<in> set paths \<and> p \<notin> set keep) w w' \<and> regs_kept (\<lambda>_. False) w w' \<and>
    (\<forall>p. map_of (fs w') p \<noteq> map_of (fs w) p \<longrightarrow>
       (\<exists>a. package_source E w p a \<and> manifest_name (GetManifest a) \<in> set aff)) \<and>
    (Ok st \<longrightarrow> (\<forall>p \<in> set paths. map_of (fs w') p \<noteq> None \<longrightarrow> p \<in> set keep \<or>
       (\<exists>a. package_source E w p a \<and> manifest_name (GetManifest a) \<notin> set aff)))"
  using assms
proof (induction paths arbitrary: w)
  case Nil
  then show ?case by (auto simp: only_fs_refl regs_kept_refl)
next
  case (Cons p paths)
  obtain ap w1 where o: "Open E p w = (ap, w1)" by (cases "Open E p w")
  note a1 = Open_asks [OF o]
  have wide: "only_fs (\<lambda>q. q \<in> set paths \<and> q \<notin> set keep) v v' \<Longrightarrow>
      only_fs (\<lambda>q. q \<in> set (p # paths) \<and> q \<notin> set keep) v v'" for v v'
    by (erule only_fs_mono) simp
  have src0: "package_source E w q a" if "package_source E v q a" "regs_kept (\<lambda>_. False) w v" for q a v
    using that by (rule package_source_kept) simp_all
  show ?case
  proof (cases ap)
    case (Inl e)
    with Cons.prems o a1 show ?thesis
      by (auto intro: asks_only_fs regs_kept_asks simp: asks_fields(1))
  next
    case (Inr a)
    have gp: "GetPath a = p" using Open_Inr(1) o Inr by blast
    have src: "package_source E w p a" using Open_source o Inr by blast
    show ?thesis
    proof (cases "manifest_name (GetManifest a) \<notin> set aff \<or> p \<in> set keep")
      case True
      with Cons.prems o Inr gp have "remove_previous E aff keep paths w1 = (st, w')" by (auto split: if_splits)
      note IH = Cons.IH [OF this]
      have s: "package_source E w1 q b = package_source E w q b" for q b
        by (rule package_source_asks [OF a1])
      show ?thesis
        using wide [OF conjunct1 [OF IH]] IH only_fs_chain [OF asks_only_fs [OF a1]]
          regs_kept_trans [OF regs_kept_asks [OF a1]] True src
        by (simp add: s asks_fields(1) [OF a1]) blast
    next
      case False
      obtain r2 w2 where u: "sys_unlink E p w1 = (r2, w2)" by (cases "sys_unlink E p w1")
      show ?thesis
      proof (cases r2)
        case (Inl e)
        have "asks w w2" using asks_trans [OF a1 sys_unlink_asks] u Inl by blast
        with Cons.prems o \<open>ap = Inr a\<close> gp False u Inl show ?thesis
          by (auto intro: asks_only_fs regs_kept_asks simp: asks_fields(1))
      next
        case (Inr x)
        have k2: "regs_kept (\<lambda>_. False) w w2"
          using regs_kept_asks [OF a1] sys_unlink_regs_kept [OF u] by (rule regs_kept_trans)
        have o1: "only_fs (\<lambda>q. q = p) w w2"
          using only_fs_chain [OF asks_only_fs [OF a1]] sys_unlink_frame [of p w1 E] u by simp
        have o2: "only_fs (\<lambda>q. q \<in> set (p # paths) \<and> q \<notin> set keep) w w2"
          by (rule only_fs_mono [OF o1]) (use False in auto)
        from Cons.prems o \<open>ap = Inr a\<close> gp False u Inr have
          "remove_previous E aff keep paths w2 = (st, w')" by auto
        note IH = Cons.IH [OF this]
        have IH1: "only_fs (\<lambda>q. q \<in> set paths \<and> q \<notin> set keep) w2 w'" "regs_kept (\<lambda>_. False) w2 w'"
          using IH by blast+
        have chg: "\<exists>a. package_source E w q a \<and> manifest_name (GetManifest a) \<in> set aff"
          if "map_of (fs w') q \<noteq> map_of (fs w) q" for q
        proof (cases "q = p")
          case False
          with that only_fs_lookup [OF o1] IH src0 [OF _ k2] show ?thesis by metis
        qed (use src False in blast)
        have left: "q \<in> set keep \<or> (\<exists>a. package_source E w q a \<and> manifest_name (GetManifest a) \<notin> set aff)"
          if "Ok st" "q \<in> set (p # paths)" "map_of (fs w') q \<noteq> None" for q
        proof (cases "q \<in> set paths")
          case True
          with IH that src0 [OF _ k2] show ?thesis by metis
        next
          case False
          with that(2) have "q = p" by simp
          with only_fs_lookup [OF IH1(1), of p] False sys_unlink_gone [of E p w1 x w2] u Inr that(3)
          show ?thesis by simp
        qed
        from only_fs_chain [OF o2 wide [OF IH1(1)]] regs_kept_trans [OF k2 IH1(2)] chg left
        show ?thesis by blast
      qed
    qed
  qed
qed

text \<open>What remains in the directory of active packages, and why.\<close>

definition apex_file_at :: "world \<Rightarrow> path \<Rightarrow> bool" where
  "apex_file_at w p \<longleftrightarrow> dirname p = kActiveApexPackagesDataDir \<and> EndsWith (basename p) kApexPackageSuffix \<and>
     (\<exists>m c. node_at w p = Some (Reg m c))"

lemma active_nonempty [simp]: "kActiveApexPackagesDataDir \<noteq> ''''"
  by (simp add: kActiveApexPackagesDataDir_def)

lemma apex_file_at_under: "apex_file_at w p \<Longrightarrow> under kActiveApexPackagesDataDir p \<and> p \<noteq> kActiveApexPackagesDataDir"
  using dirname_neq [OF active_nonempty] under_dirname [OF active_nonempty] by (auto simp: apex_file_at_def)

lemma apex_suffix: "EndsWith (basename p) kApexPackageSuffix \<Longrightarrow> suffix kApexPackageSuffix p"
  by (auto simp: EndsWith_def basename_def suffix_def)
    (metis append.assoc rev_append rev_rev_ident takeWhile_dropWhile_id)

lemma RemovePrevious_spec:
  assumes run: "RemovePreviouslyActiveApexFiles E aff keep w = (st, w')" and place: "active_place E w"
  shows "only_fs (\<lambda>p. apex_file_at w p \<and> p \<notin> set keep) w w' \<and>
    (\<forall>p. map_of (fs w') p \<noteq> map_of (fs w) p \<longrightarrow>
       (\<exists>a. package_source E w p a \<and> manifest_name (GetManifest a) \<in> set aff)) \<and>
    (Ok st \<longrightarrow> (\<forall>p. apex_file_at w' p \<longrightarrow>
       p \<in> set keep \<or> (\<exists>a. package_source E w p a \<and> manifest_name (GetManifest a) \<notin> set aff)))"
proof -
  let ?d = kActiveApexPackagesDataDir
  obtain files w1 where f: "FindApexFilesByName E ?d False w = (files, w1)"
    by (cases "FindApexFilesByName E ?d False w")
  note a1 = FindApexFilesByName_asks [OF f]
  show ?thesis
  proof (cases files)
    case (Inl e)
    with run f a1 show ?thesis
      by (auto simp: RemovePreviouslyActiveApexFiles_def asks_fields intro: asks_only_fs)
  next
    case (Inr ps)
    with run f have rm: "remove_previous E aff keep ps w1 = (st, w')"
      by (simp add: RemovePreviouslyActiveApexFiles_def)
    have d: "mount_over w ?d = None" using active_place_host [OF place] by simp
    have ps: "p \<in> set ps \<longleftrightarrow> apex_file_at w p" for p
    proof -
      have "ps = filter (\<lambda>q. apex_entry False q (node_at w q))
          (filter (\<lambda>q. q \<noteq> '''' \<and> dirname q = ?d) (remdups (map fst (fs w))))"
        using FindApexFilesByName_Inr [OF f [unfolded Inr]] list_dir_host [OF d] by simp
      moreover have "p \<in> fst ` set (fs w)" if "node_at w p = Some n" "dirname p = ?d" for n
      proof -
        have "under ?d p" by (rule under_dirname) (use that in \<open>simp_all add: kActiveApexPackagesDataDir_def\<close>)
        from that(1) node_at_host [OF active_place_host [OF place this]] show ?thesis
          by (metis domI dom_map_of_conv_image_fst)
      qed
      moreover have "p \<noteq> ''''" if "dirname p = ?d"
        using that by (auto simp: dirname_def kActiveApexPackagesDataDir_def)
      ultimately show ?thesis
        by (auto simp: apex_file_at_def apex_entry_def elim!: is_reg.elims split: option.splits)
    qed
    have "map_of (fs w') p \<noteq> None \<and> apex_file_at w p" if "apex_file_at w' p" for p
    proof -
      have "under ?d p" by (rule under_dirname)
          (use that in \<open>simp_all add: apex_file_at_def kActiveApexPackagesDataDir_def\<close>)
      moreover have "mnts w' = mnts w"
        using only_fs_state [OF conjunct1 [OF remove_previous_spec [OF rm]]] asks_fields(2) [OF a1] by simp
      ultimately have "mount_over w' p = None"
        using active_place_host [OF place] mount_over_cong [of w' w] by metis
      with that remove_previous_spec [OF rm] show ?thesis
        by (auto simp: apex_file_at_def node_at_host regs_kept_def asks_fields(3) [OF a1])
    qed
    with remove_previous_spec [OF rm] only_fs_chain [OF asks_only_fs [OF a1]] show ?thesis
      by (simp add: ps package_source_asks [OF a1] asks_fields(1) [OF a1])
  qed
qed

section \<open>Properties\<close>

text \<open>A package whose file is new in the directory of active packages, with the package's bytes.\<close>

definition staged :: "env \<Rightarrow> world \<Rightarrow> world \<Rightarrow> path list \<Rightarrow> string list \<Rightarrow> path \<Rightarrow> bool" where
  "staged E w w' dests names p \<longleftrightarrow> (\<exists>a. package_source E w p a \<and> StageDestPath a \<in> set dests \<and>
     manifest_name (GetManifest a) \<in> set names \<and> map_of (fs w) (StageDestPath a) = None \<and>
     map_of (fs w') (StageDestPath a) = node_at w p \<and> node_at w p \<noteq> None)"

text \<open>The new files and the names of staged packages are those of some of the given packages.\<close>

definition staged_from :: "env \<Rightarrow> world \<Rightarrow> path list \<Rightarrow> path list \<Rightarrow> string list \<Rightarrow> bool" where
  "staged_from E w paths dests names \<longleftrightarrow> (\<exists>as. dests = map StageDestPath as \<and>
     names = map (\<lambda>a. manifest_name (GetManifest a)) as \<and>
     (\<forall>a \<in> set as. \<exists>p \<in> set paths. package_source E w p a))"

text \<open>Names and versions of the latest mounted packages, read from their files.\<close>

definition active_code :: "env \<Rightarrow> world \<Rightarrow> (string \<times> uint64) list \<Rightarrow> bool" where
  "active_code E w code \<longleftrightarrow> (\<forall>(n, v) \<in> set code. \<exists>p data a.
     (p, data, True) \<in> set (ForallMountedApexesAll (gMountedApexes w)) \<and>
     package_source E w (full_path data) a \<and>
     n = manifest_name (GetManifest a) \<and> v = manifest_version (GetManifest a))"

lemma open_latest_spec:
  "open_latest E ds w = (as, w') \<Longrightarrow> asks w w' \<and>
     (\<forall>a \<in> set as. \<exists>p data. (p, data, True) \<in> set ds \<and> package_source E w (full_path data) a)"
proof (induction ds arbitrary: w "as" w')
  case (Cons d ds)
  obtain p data latest where d: "d = (p, data, latest)" by (cases d)
  show ?case
  proof (cases latest)
    case True
    obtain r w1 where o: "Open E (full_path data) w = (r, w1)" by (cases "Open E (full_path data) w")
    obtain rest w2 where l: "open_latest E ds w1 = (rest, w2)" by (cases "open_latest E ds w1")
    note a = Open_asks [OF o]
    have IH: "asks w1 w2 \<and> (\<forall>b \<in> set rest. \<exists>p data. (p, data, True) \<in> set ds \<and>
        package_source E w (full_path data) b)"
      using Cons.IH [OF l] package_source_asks [OF a] by simp
    from Cons.prems d True o l have r: "w' = w2" "set as \<subseteq> set rest \<union> {b. r = Inr b}"
      by (auto split: sum.splits)
    have "\<exists>p data. (p, data, True) \<in> set (d # ds) \<and> package_source E w (full_path data) b"
      if "b \<in> set as" for b
    proof (cases "r = Inr b")
      case True
      with o have "package_source E w (full_path data) b" using Open_source by blast
      with d \<open>latest\<close> show ?thesis by auto
    next
      case False
      with that r IH obtain p' data' where
        "(p', data', True) \<in> set ds" "package_source E w (full_path data') b" by blast
      then show ?thesis by (intro exI [of _ p'] exI [of _ data']) simp
    qed
    with r(1) IH asks_trans [OF a] show ?thesis by blast
  next
    case False
    with Cons.IH Cons.prems d show ?thesis by auto
  qed
qed simp

lemma GetActivePackagesMap_spec:
  "GetActivePackagesMap E w = (code, w') \<Longrightarrow> asks w w' \<and> active_code E w code"
  by (auto simp: GetActivePackagesMap_def getActivePackages_def active_code_def split: prod.splits
      dest!: open_latest_spec) blast

lemma active_code_kept:
  assumes "active_code E w' code" and "regs_kept R w w'" and "gMountedApexes w' = gMountedApexes w"
    and "\<forall>(p, data, l) \<in> set (ForallMountedApexesAll (gMountedApexes w)).
      \<not> R (full_path data) \<and> \<not> R (slash (full_path data) kManifestFilename)"
  shows "active_code E w code"
  using assms package_source_kept [OF _ assms(2)] unfolding active_code_def by fastforce

lemma StageDestPath_apex: "suffix kApexPackageSuffix (StageDestPath a)"
  unfolding StageDestPath_def by (metis append.assoc suffixI)

lemma StageDestPath_neq [simp]: "StageDestPath a \<noteq> kActiveApexPackagesDataDir"
  by (simp add: StageDestPath_def)

lemma StageDestPath_root [simp]: "\<not> under kApexRoot (StageDestPath a)"
  by (simp add: StageDestPath_def kActiveApexPackagesDataDir_def kApexRoot_def under_def)

lemma createDirIfNeeded_dir:
  assumes "createDirIfNeeded E d m w = (Inr u, w')" and "node_at w d = Some n"
  shows "is_dir n"
  using assms by (auto simp: createDirIfNeeded_def sys_stat_def sys_mkdir_def query_eq fs_call_eq
      stat_eff_def mkdir_eff_def Let_def split: prod.splits sum.splits option.splits if_splits)

definition stage_result :: "env \<Rightarrow> path list \<Rightarrow> world \<Rightarrow> world \<Rightarrow> path list \<Rightarrow> string list \<Rightarrow>
    (string \<times> uint64) list \<Rightarrow> bool" where
  "stage_result E paths w w' dests names code \<longleftrightarrow>
     only_fs (\<lambda>p. p = kActiveApexPackagesDataDir \<or> p \<in> set dests) w w' \<and>
     (\<forall>d \<in> set dests. (\<exists>a. d = StageDestPath a) \<and> map_of (fs w) d = None) \<and>
     active_code E w code \<and> (\<forall>p \<in> set paths. unneeded E code w p \<or> staged E w w' dests names p)"

lemma stage_links_frame:
  assumes c: "createDirIfNeeded E kActiveApexPackagesDataDir 488 w = (Inr u, w1)"
    and f: "FilterUnnecessaryStagingPaths E paths w1 = (ps, w2)"
    and s: "stage_each E ps [] [] w2 = (st, dests, names, w3)"
    and place: "active_place E w"
  shows "only_fs (\<lambda>p. p = kActiveApexPackagesDataDir \<or> p \<in> set dests) w w3 \<and>
     (\<forall>d \<in> set dests. (\<exists>a. d = StageDestPath a) \<and> map_of (fs w) d = None \<and>
        (\<exists>n. map_of (fs w3) d = Some n \<and> \<not> is_dir n))"
proof -
  let ?d = kActiveApexPackagesDataDir
  note fc = createDirIfNeeded_frame [OF c]
  have dev: "\<not> dev_node E h (StageDestPath a)" for h a using place by (simp add: active_place_def)
  obtain code w4 where g: "GetActivePackagesMap E w1 = (code, w4)" by (cases "GetActivePackagesMap E w1")
  with f have fp: "filter_paths E code paths w4 = (ps, w2)" by (simp add: FilterUnnecessaryStagingPaths_def)
  have a2: "asks w1 w2"
    using GetActivePackagesMap_spec [OF g] filter_paths_spec [OF dev fp] by (blast intro: asks_trans)
  have o2: "only_fs (\<lambda>p. p = ?d) w w2" using only_fs_chain [OF fc asks_only_fs [OF a2]] .
  have place2: "active_place E w2" using place active_place_cong [of w2 w] only_fs_state [OF o2] by simp
  from stage_each_spec [OF s place2] have o3: "only_fs (\<lambda>p. p \<in> set dests) w2 w3"
    and d: "\<forall>d \<in> set dests. (\<exists>a. d = StageDestPath a) \<and> map_of (fs w2) d = None \<and>
      (\<exists>n. map_of (fs w3) d = Some n \<and> \<not> is_dir n)" by simp_all
  have "map_of (fs w) q = None" if "q \<in> set dests" for q
  proof -
    from d that obtain a where "q = StageDestPath a" by blast
    then have "q \<noteq> ?d" by simp
    with only_fs_lookup [OF o2, of q] d that show ?thesis by simp
  qed
  with d only_fs_trans [OF o2 o3] show ?thesis by blast
qed

lemma stage_links_ok:
  assumes c: "createDirIfNeeded E kActiveApexPackagesDataDir 488 w = (Inr (), w1)"
    and f: "FilterUnnecessaryStagingPaths E paths w1 = (ps, w2)"
    and s: "stage_each E ps [] [] w2 = (Inr (), dests, names, w3)"
    and place: "active_place E w"
    and regs: "\<forall>p \<in> set paths. \<exists>m c. node_at w p = Some (Reg m c)"
  shows "\<exists>code. stage_result E paths w w3 dests names code"
    and "\<forall>p \<in> set ps. p \<in> set paths \<and> staged E w w3 dests names p"
    and "staged_from E w paths dests names"
proof -
  let ?d = kActiveApexPackagesDataDir
  note fr = stage_links_frame [OF c f s place]
  note fc = createDirIfNeeded_frame [OF c]
  have dev: "\<not> dev_node E h (StageDestPath a)" for h a using place by (simp add: active_place_def)
  obtain code w4 where g: "GetActivePackagesMap E w1 = (code, w4)" by (cases "GetActivePackagesMap E w1")
  with f have fp: "filter_paths E code paths w4 = (ps, w2)" by (simp add: FilterUnnecessaryStagingPaths_def)
  note gs = GetActivePackagesMap_spec [OF g] and fs = filter_paths_spec [OF dev fp]
  have k: "regs_kept (\<lambda>_. False) w w1"
    by (rule regs_kept_createDir [OF c active_place_host [OF place under_refl]])
      (use place in \<open>simp add: active_place_def\<close>)
  have ac: "active_code E w code"
    by (rule active_code_kept [OF conjunct2 [OF gs] k]) (use only_fs_state [OF fc] in auto)
  have a4: "asks w1 w4" and a2: "asks w1 w2" using gs fs by (blast intro: asks_trans)+
  have un: "unneeded E code w p" if "unneeded E code w4 p" for p
  proof -
    have k4: "regs_kept (\<lambda>_. False) w w4" using k regs_kept_asks [OF a4] by (rule regs_kept_trans)
    have "node_at w4 (StageDestPath a) = node_at w (StageDestPath a)" for a
      using node_at_only_fs [OF fc, of "StageDestPath a"] by (simp add: asks_fields(3) [OF a4])
    then show ?thesis using that package_source_kept [OF _ k4] unfolding unneeded_def by metis
  qed
  have o2: "only_fs (\<lambda>p. p = ?d) w w2" using only_fs_chain [OF fc asks_only_fs [OF a2]] .
  have place2: "active_place E w2" using place active_place_cong [of w2 w] only_fs_state [OF o2] by simp
  from stage_each_spec [OF s place2] have lk: "linked E ps dests names (set dests) w2 w3" by simp
  have off: "p \<noteq> ?d" "p \<notin> set dests" if p: "p \<in> set ps" for p
  proof -
    obtain m b where reg: "node_at w p = Some (Reg m b)" using regs p fs by blast
    show "p \<noteq> ?d" using createDirIfNeeded_dir [OF c] reg by force
    show "p \<notin> set dests"
    proof
      assume "p \<in> set dests"
      with fr obtain a' where "p = StageDestPath a'" "map_of (fs w) p = None" by blast
      with reg active_place_host [OF place, of p] show False by (simp add: node_at_host)
    qed
  qed
  have source: "package_source E w p a"
    if p: "p \<in> set ps" "Open E p v = (Inr a, v')" "only_fs (\<lambda>q. q \<in> set dests) w2 v" for p a v v'
  proof -
    have "regs_kept (\<lambda>_. False) w w2" using k regs_kept_asks [OF a2] by (rule regs_kept_trans)
    then have rk: "regs_kept (\<lambda>q. q \<in> set dests) w v"
      using regs_kept_trans [OF regs_kept_mono regs_kept_only_fs [OF p(3)]] by blast
    have mn: "slash p kManifestFilename \<notin> set dests"
      using fr manifest_not_apex StageDestPath_apex by metis
    show ?thesis by (rule package_source_kept [OF Open_source [OF p(2)] rk off(2) [OF p(1)] mn])
  qed
  have "staged E w w3 dests names p" if p: "p \<in> set ps" for p
  proof -
    from lk p obtain a w5 w6 n where a: "Open E p w5 = (Inr a, w6)" "StageDestPath a \<in> set dests"
      "manifest_name (GetManifest a) \<in> set names" "only_fs (\<lambda>q. q \<in> set dests) w2 w5"
      "node_at w5 p = Some n" "map_of (fs w3) (StageDestPath a) = Some n"
      unfolding linked_def by blast
    have o5: "only_fs (\<lambda>q. q = ?d \<or> q \<in> set dests) w w5" using only_fs_trans [OF o2 a(4)] .
    have "node_at w p = Some n" using node_at_only_fs [OF o5, of p] off [OF p] a(5) by simp
    with source [OF p a(1,4)] show ?thesis using a(2,3,6) fr unfolding staged_def by auto
  qed
  then show "\<exists>code. stage_result E paths w w3 dests names code"
    "\<forall>p \<in> set ps. p \<in> set paths \<and> staged E w w3 dests names p"
    using fs un fr ac unfolding stage_result_def by blast+
  from stage_each_lists [OF s] obtain as where as: "dests = map StageDestPath as"
    "names = map (\<lambda>a. manifest_name (GetManifest a)) as"
    "\<forall>a \<in> set as. \<exists>p \<in> set ps. \<exists>v v'. Open E p v = (Inr a, v') \<and> only_fs (\<lambda>q. q \<in> set dests) w2 v" by auto
  have "\<exists>p \<in> set paths. package_source E w p a" if "a \<in> set as" for a
    using as(3) that source fs by blast
  with as(1,2) show "staged_from E w paths dests names" unfolding staged_from_def by blast
qed

lemma staged_after:
  assumes "staged E w w1 dests names p" and "only_fs R w1 w'" and "\<And>d. d \<in> set dests \<Longrightarrow> \<not> R d"
  shows "staged E w w' dests names p"
  using assms(1) only_fs_lookup [OF assms(2)] assms(3) unfolding staged_def by metis

lemma stagePackages_cases:
  assumes "stagePackages E paths w = Some (st, w')"
  obtains e where "st = Inl e" "apex_only w w'"
  | as w1 where "verifyPackages E paths (VerifyPackageBoot E) w = Some (Inr as, w1)" "apex_only w w1"
      "stage_verified E paths w1 = (st, w')"
  using assms
  by (auto simp: stagePackages_def split: if_splits option.splits sum.splits
      dest!: apex.verifyPackages_Boot_Q)

lemma active_not_root: "under kActiveApexPackagesDataDir p \<Longrightarrow> \<not> under kApexRoot p"
  by (auto simp: under_def kActiveApexPackagesDataDir_def kApexRoot_def prefix_def)

lemma apex_only_place: "apex_only w w' \<Longrightarrow> active_place E w \<Longrightarrow> active_place E w'"
  using active_not_root unfolding apex_only_def active_place_def by metis

text \<open>
  The state of the directory of active packages after staging: the new files are those of
  verified packages, nothing but them and the replaced files differs, and every package
  with a new file has no other file left there.
\<close>

definition staging_done :: "env \<Rightarrow> path list \<Rightarrow> world \<Rightarrow> world \<Rightarrow> path list \<Rightarrow> string list \<Rightarrow> bool" where
  "staging_done E paths w w' dests names \<longleftrightarrow>
     (\<forall>p. \<not> under kApexRoot p \<and> p \<noteq> kActiveApexPackagesDataDir \<and> map_of (fs w') p \<noteq> map_of (fs w) p \<longrightarrow>
        p \<in> set dests \<or>
        apex_file_at w p \<and> (\<exists>a. package_source E w p a \<and> manifest_name (GetManifest a) \<in> set names)) \<and>
     (names \<noteq> [] \<longrightarrow> (\<forall>p. apex_file_at w' p \<longrightarrow> p \<in> set dests \<or>
        (\<exists>a. package_source E w p a \<and> manifest_name (GetManifest a) \<notin> set names)))"

lemma stage_verified_success:
  assumes run: "stage_verified E paths w = (Inr (), w')" and place: "active_place E w"
    and regs: "\<forall>p \<in> set paths. \<exists>m c. node_at w p = Some (Reg m c)"
  shows "\<exists>dests names code. (\<forall>p \<in> set paths. unneeded E code w p \<or> staged E w w' dests names p) \<and>
     active_code E w code \<and> (\<forall>d \<in> set dests. under kActiveApexPackagesDataDir d \<and> map_of (fs w) d = None) \<and>
     staged_from E w paths dests names \<and> staging_done E paths w w' dests names"
proof -
  let ?d = kActiveApexPackagesDataDir
  obtain r1 w1 where c0: "createDirIfNeeded E ?d 488 w = (r1, w1)" by (cases "createDirIfNeeded E ?d 488 w")
  with run have c: "createDirIfNeeded E ?d 488 w = (Inr (), w1)"
    by (cases r1) (auto simp: stage_verified_def)
  obtain ps w2 where f: "FilterUnnecessaryStagingPaths E paths w1 = (ps, w2)"
    by (cases "FilterUnnecessaryStagingPaths E paths w1")
  show ?thesis
  proof (cases "ps = []")
    case True
    then have s: "stage_each E ps [] [] w2 = (Inr (), [], [], w2)" by simp
    from run c f True have "w' = w2" by (simp add: stage_verified_def)
    with stage_links_ok [OF c f s place regs] obtain code where
      "stage_result E paths w w' [] [] code" by blast
    then show ?thesis
      by (intro exI [of _ "[]"] exI [of _ "[]"] exI [of _ code])
        (auto simp: stage_result_def staging_done_def staged_from_def dest: only_fs_lookup)
  next
    case False
    obtain st dests names w3 where s0: "stage_each E ps [] [] w2 = (st, dests, names, w3)"
      by (cases "stage_each E ps [] [] w2")
    with run c f False have s: "stage_each E ps [] [] w2 = (Inr (), dests, names, w3)"
      and rm: "RemovePreviouslyActiveApexFiles E names dests w3 = (Inr (), w')"
      by (cases st; simp add: stage_verified_def)+
    from stage_links_ok [OF c f s place regs] obtain code where
      sr: "stage_result E paths w w3 dests names code" by blast
    have o3: "only_fs (\<lambda>p. p = ?d \<or> p \<in> set dests) w w3" using sr by (simp add: stage_result_def)
    have new: "\<exists>a. d = StageDestPath a" "map_of (fs w) d = None" if "d \<in> set dests" for d
      using sr that by (auto simp: stage_result_def)
    have place3: "active_place E w3" using place active_place_cong [of w3 w] only_fs_state [OF o3] by simp
    note rs = RemovePrevious_spec [OF rm place3]
    have apex3: "apex_file_at w p" if "apex_file_at w3 p" "p \<notin> set dests" for p
    proof -
      have "p \<noteq> ?d" using apex_file_at_under [OF that(1)] by blast
      with that node_at_only_fs [OF o3, of p] show ?thesis by (simp add: apex_file_at_def)
    qed
    have src3: "package_source E w p a" if "package_source E w3 p a" "p \<notin> set dests" "p \<noteq> ?d" for p a
    proof -
      have "slash p kManifestFilename \<notin> set dests" using new manifest_not_apex StageDestPath_apex by metis
      moreover have "slash p kManifestFilename \<noteq> ?d"
      proof
        assume "slash p kManifestFilename = ?d"
        then have "last (slash p kManifestFilename) = last ?d" by (rule arg_cong)
        then show False by (simp add: kManifestFilename_def kActiveApexPackagesDataDir_def)
      qed
      ultimately show ?thesis
        using package_source_kept [OF that(1) regs_kept_only_fs [OF o3]] that by simp
    qed
    have st: "staged E w w' dests names p" if "staged E w w3 dests names p" for p
      by (rule staged_after [OF that conjunct1 [OF rs]]) simp
    have changed: "p \<in> set dests \<or>
        apex_file_at w p \<and> (\<exists>a. package_source E w p a \<and> manifest_name (GetManifest a) \<in> set names)"
      if "p \<noteq> ?d" "map_of (fs w') p \<noteq> map_of (fs w) p" for p
    proof (cases "p \<in> set dests")
      case False
      with that only_fs_lookup [OF o3] have d3: "map_of (fs w') p \<noteq> map_of (fs w3) p" by simp
      then have "apex_file_at w3 p" using only_fs_lookup [OF conjunct1 [OF rs]] by metis
      moreover from d3 rs obtain a where "package_source E w3 p a" "manifest_name (GetManifest a) \<in> set names"
        by blast
      ultimately show ?thesis using apex3 src3 False that(1) by blast
    qed simp
    have left: "p \<in> set dests \<or> (\<exists>a. package_source E w p a \<and> manifest_name (GetManifest a) \<notin> set names)"
      if "apex_file_at w' p" for p
    proof (cases "p \<in> set dests")
      case False
      have "p \<noteq> ?d" using apex_file_at_under [OF that] by blast
      moreover from rs that False obtain a where "package_source E w3 p a"
        "manifest_name (GetManifest a) \<notin> set names" by auto
      ultimately show ?thesis using src3 False by blast
    qed simp
    have "staging_done E paths w w' dests names" using changed left by (auto simp: staging_done_def)
    moreover have "\<forall>d \<in> set dests. under ?d d \<and> map_of (fs w) d = None" using new by force
    moreover have "staged_from E w paths dests names" by (rule stage_links_ok(3) [OF c f s place regs])
    ultimately show ?thesis using sr st unfolding stage_result_def by blast
  qed
qed

lemma stage_verified_failure:
  assumes run: "stage_verified E paths w = (Inl e, w')" and place: "active_place E w"
    and ul: "unlink_works E" and regs: "\<forall>p \<in> set paths. \<exists>m c. node_at w p = Some (Reg m c)"
  shows "(\<forall>p. p \<noteq> kActiveApexPackagesDataDir \<longrightarrow> map_of (fs w') p = map_of (fs w) p) \<or>
    (\<exists>dests names code. active_code E w code \<and>
       (\<forall>p \<in> set paths. unneeded E code w p \<or> staged E w w' dests names p) \<and>
       (\<exists>p \<in> set paths. staged E w w' dests names p))"
proof -
  let ?d = kActiveApexPackagesDataDir
  obtain r1 w1 where c: "createDirIfNeeded E ?d 488 w = (r1, w1)" by (cases "createDirIfNeeded E ?d 488 w")
  note fc = createDirIfNeeded_frame [OF c]
  show ?thesis
  proof (cases "Ok r1")
    case False
    with run c fc show ?thesis by (simp add: stage_verified_def only_fs_lookup)
  next
    case True
    then have r1: "r1 = Inr ()" by (simp add: Ok_iff)
    obtain ps w2 where f: "FilterUnnecessaryStagingPaths E paths w1 = (ps, w2)"
      by (cases "FilterUnnecessaryStagingPaths E paths w1")
    obtain st dests names w3 where s: "stage_each E ps [] [] w2 = (st, dests, names, w3)"
      by (cases "stage_each E ps [] [] w2")
    note fr = stage_links_frame [OF c [unfolded r1] f s place]
    have o3: "only_fs (\<lambda>p. p = ?d \<or> p \<in> set dests) w w3" using fr by simp
    have place3: "active_place E w3" using place active_place_cong [of w3 w] only_fs_state [OF o3] by simp
    from run c r1 f have ne: "ps \<noteq> []" by (auto simp: stage_verified_def)
    show ?thesis
    proof (cases st)
      case (Inl e2)
      with run c r1 f s ne have w': "w' = unlink_staged E dests w3" by (simp add: stage_verified_def)
      have "under ?d q" if "q \<in> set dests" for q using fr that by force
      then have "\<forall>q \<in> set dests. mount_over w3 q = None" using active_place_host [OF place3] by blast
      moreover have "\<forall>q \<in> set dests. \<forall>n. map_of (fs w3) q = Some n \<longrightarrow> \<not> is_dir n" using fr by fastforce
      ultimately have gone: "\<forall>q \<in> set dests. map_of (fs w') q = None"
        unfolding w' by (rule unlink_staged_gone [OF ul])
      have "map_of (fs w') p = map_of (fs w) p" if "p \<noteq> ?d" for p
      proof (cases "p \<in> set dests")
        case True
        with gone fr show ?thesis by simp
      next
        case False
        with only_fs_lookup [OF unlink_staged_frame [of dests w3 E], of p] only_fs_lookup [OF o3, of p] that w'
        show ?thesis by simp
      qed
      then show ?thesis by blast
    next
      case (Inr u)
      with run c r1 f s ne have rm: "RemovePreviouslyActiveApexFiles E names dests w3 = (Inl e, w')"
        by (simp add: stage_verified_def)
      note rs = conjunct1 [OF RemovePrevious_spec [OF rm place3]]
      have s': "stage_each E ps [] [] w2 = (Inr (), dests, names, w3)" using s Inr by simp
      note lk = stage_links_ok [OF c [unfolded r1] f s' place regs]
      have st: "staged E w w' dests names p" if "staged E w w3 dests names p" for p
        by (rule staged_after [OF that rs]) simp
      from lk(1) obtain code where "stage_result E paths w w3 dests names code" by blast
      then have "active_code E w code" "\<forall>p \<in> set paths. unneeded E code w p \<or> staged E w w' dests names p"
        using st by (auto simp: stage_result_def)
      moreover have "\<exists>p \<in> set paths. staged E w w' dests names p" using lk(2) ne st by (cases ps) auto
      ultimately show ?thesis by blast
    qed
  qed
qed

text \<open>What verification changed is below the mount root, so the state before it says the same.\<close>

lemma apex_only_source: "apex_only w w1 \<Longrightarrow> \<not> under kApexRoot p \<Longrightarrow> package_source E w1 p b \<Longrightarrow>
    package_source E w p b"
  by (rule package_source_kept [OF _ regs_kept_apex_only]) (simp_all del: append_Cons append_Nil add: under_root_slash)

lemma apex_only_unneeded: "apex_only w w1 \<Longrightarrow> \<not> under kApexRoot p \<Longrightarrow> unneeded E code w1 p \<Longrightarrow>
    unneeded E code w p"
  using apex_only_source apex_only_node_at StageDestPath_root unfolding unneeded_def by metis

lemma apex_only_staged: "apex_only w w1 \<Longrightarrow> \<not> under kApexRoot p \<Longrightarrow> staged E w1 w' dests names p \<Longrightarrow>
    staged E w w' dests names p"
  using apex_only_source apex_only_node_at StageDestPath_root
  unfolding staged_def apex_only_def by metis

lemma apex_only_active_code:
  assumes "apex_only w w1" and "active_code E w1 code"
    and "\<forall>(p, data, l) \<in> set (ForallMountedApexesAll (gMountedApexes w)). \<not> under kApexRoot (full_path data)"
  shows "active_code E w code"
  by (rule active_code_kept [OF assms(2) regs_kept_apex_only [OF assms(1)]])
    (use assms(1,3) under_root_slash in \<open>auto simp: apex_only_def\<close>)

lemma Boot_regs:
  assumes "verifyPackages E paths (VerifyPackageBoot E) w = Some (Inr as, w1)" and "apex_only w w1"
    and "\<forall>p \<in> set paths. \<not> under kApexRoot p"
  shows "\<forall>p \<in> set paths. \<exists>m c. node_at w1 p = Some (Reg m c)"
  using Boot_verified_file [OF assms(1)] apex_only_node_at [OF assms(2)] assms(3)
  unfolding verified_file_def by metis

text \<open>C8. When staging reports success, every package was verified, and its file stands in the
  directory of active packages with the package's bytes, unless that file was there
  before or the package's version is already active. The new files and the names they stand
  for are those of some of the given packages. Nothing else in the tree changed outside the
  mount root, except that files of packages with these names are gone: of a package with a
  new file no other file remains, and files of all other packages are untouched.
\<close>

theorem stagePackages_success:
  assumes "stagePackages E paths w = Some (Inr (), w')" and "active_place E w"
    and "\<forall>p \<in> set paths. \<not> under kApexRoot p"
    and "\<forall>(p, data, l) \<in> set (ForallMountedApexesAll (gMountedApexes w)). \<not> under kApexRoot (full_path data)"
  shows "\<exists>dests names code.
    (\<forall>p \<in> set paths. verified_file E w p \<and> (unneeded E code w p \<or> staged E w w' dests names p)) \<and>
    active_code E w code \<and> (\<forall>d \<in> set dests. map_of (fs w) d = None) \<and>
    staged_from E w paths dests names \<and> staging_done E paths w w' dests names"
proof -
  from assms(1) obtain as w1 where v: "verifyPackages E paths (VerifyPackageBoot E) w = Some (Inr as, w1)"
    and a: "apex_only w w1" and s: "stage_verified E paths w1 = (Inr (), w')"
    by (rule stagePackages_cases) auto
  have ver: "verified_file E w p" if "p \<in> set paths" for p
    using Boot_verified_file [OF v that] assms(3) that by blast
  have node: "node_at w1 p = node_at w p" if "\<not> under kApexRoot p" for p
    by (rule apex_only_node_at [OF a that])
  note regs = Boot_regs [OF v a assms(3)] and src = apex_only_source [OF a]
  have fsd: "map_of (fs w1) p = map_of (fs w) p" if "\<not> under kApexRoot p" for p
    using a that by (simp add: apex_only_def)
  from stage_verified_success [OF s apex_only_place [OF a assms(2)] regs] obtain dests names code where
    r: "\<forall>p \<in> set paths. unneeded E code w1 p \<or> staged E w1 w' dests names p" "active_code E w1 code"
      "\<forall>d \<in> set dests. under kActiveApexPackagesDataDir d \<and> map_of (fs w1) d = None" "staging_done E paths w1 w' dests names"
      "staged_from E w1 paths dests names" by blast
  have "\<forall>p \<in> set paths. verified_file E w p \<and> (unneeded E code w p \<or> staged E w w' dests names p)"
    using r(1) ver assms(3) apex_only_unneeded [OF a] apex_only_staged [OF a] by blast
  moreover note apex_only_active_code [OF a r(2) assms(4)]
  moreover have "\<forall>d \<in> set dests. map_of (fs w) d = None"
    using r(3) active_not_root fsd by metis
  moreover have "staged_from E w paths dests names"
    using r(5) src assms(3) unfolding staged_from_def by metis
  moreover have "staging_done E paths w w' dests names"
  proof -
    have at: "apex_file_at w1 p \<longleftrightarrow> apex_file_at w p" for p
      using apex_file_at_under active_not_root node unfolding apex_file_at_def by metis
    have "package_source E w p b" if "package_source E w1 p b" "apex_file_at v p" for p b v
      using src that apex_file_at_under active_not_root by blast
    then show ?thesis using r(4) fsd at unfolding staging_done_def by metis
  qed
  ultimately show ?thesis by blast
qed

text \<open>A package \<open>VVVV\<close> that verifies, and a device on which it can be staged.\<close>

definition sample_stage_env :: env where
  "sample_stage_env = sample_avb_env\<lparr>avb_property := (\<lambda>_ _. Some ''VVVV'')\<rparr>"

definition sample_stage_world :: world where
  "sample_stage_world = sample_world\<lparr>
     fs := [(''/data/apex'', Directory 493), (''/data/x.apex'', Reg 420 ''VVVV;1;;|k'')],
     gScannedApexKeys := [(''VVVV'', ''k'')]\<rparr>"

lemma sample_stage_place: "active_place sample_stage_env (sample_stage_world\<lparr>fs := t\<rparr>)"
  by (simp add: active_place_def mount_over_def sample_stage_world_def sample_world_def
      sample_stage_env_def sample_avb_env_def sample_env_def)

theorem stagePackages_success_witness:
  "\<exists>w' dests names. stagePackages sample_stage_env [''/data/x.apex''] sample_stage_world = Some (Inr (), w') \<and>
     verified_file sample_stage_env sample_stage_world ''/data/x.apex'' \<and>
     staged_from sample_stage_env sample_stage_world [''/data/x.apex''] dests names \<and>
     staging_done sample_stage_env [''/data/x.apex''] sample_stage_world w' dests names"
proof -
  have "case stagePackages sample_stage_env [''/data/x.apex''] sample_stage_world of
      Some (r, _) \<Rightarrow> Ok r | None \<Rightarrow> False" by code_simp
  then obtain w' where r: "stagePackages sample_stage_env [''/data/x.apex''] sample_stage_world =
      Some (Inr (), w')" by (auto simp: Ok_iff split: option.splits)
  have "active_place sample_stage_env sample_stage_world"
    using sample_stage_place [of "fs sample_stage_world"] by simp
  moreover have "\<forall>p \<in> set [''/data/x.apex'']. \<not> under kApexRoot p" by code_simp
  moreover have "\<forall>(p, data, l) \<in> set (ForallMountedApexesAll (gMountedApexes sample_stage_world)).
      \<not> under kApexRoot (full_path data)" by code_simp
  ultimately show ?thesis using stagePackages_success [OF r] r by auto
qed

text \<open>C25. When staging reports a failure and unlinking works, either nothing below the directory of
  active packages differs, or the failure came after the point of no return: every needed
  package already has its new file in place, which stays there, although the caller is told
  that staging failed.
\<close>

theorem stagePackages_failure:
  assumes "stagePackages E paths w = Some (Inl e, w')" and "active_place E w" and "unlink_works E"
    and "\<forall>p \<in> set paths. \<not> under kApexRoot p"
    and "\<forall>(p, data, l) \<in> set (ForallMountedApexesAll (gMountedApexes w)). \<not> under kApexRoot (full_path data)"
  shows "(\<forall>p. under kActiveApexPackagesDataDir p \<and> p \<noteq> kActiveApexPackagesDataDir \<longrightarrow>
       map_of (fs w') p = map_of (fs w) p) \<or>
    (\<exists>dests names code. active_code E w code \<and>
       (\<forall>p \<in> set paths. unneeded E code w p \<or> staged E w w' dests names p) \<and>
       (\<exists>p \<in> set paths. staged E w w' dests names p))"
  using assms(1)
proof (cases rule: stagePackages_cases)
  case (1 e)
  then show ?thesis using active_not_root by (auto simp: apex_only_def)
next
  case (2 as w1)
  note a = \<open>apex_only w w1\<close>
  from stage_verified_failure [OF 2(3) apex_only_place [OF a assms(2)] assms(3) Boot_regs [OF 2(1) a assms(4)]]
  show ?thesis
  proof
    assume "\<forall>p. p \<noteq> kActiveApexPackagesDataDir \<longrightarrow> map_of (fs w') p = map_of (fs w1) p"
    with a active_not_root show ?thesis by (auto simp: apex_only_def)
  next
    assume "\<exists>dests names code. active_code E w1 code \<and>
      (\<forall>p \<in> set paths. unneeded E code w1 p \<or> staged E w1 w' dests names p) \<and>
      (\<exists>p \<in> set paths. staged E w1 w' dests names p)"
    with apex_only_unneeded [OF a] apex_only_staged [OF a] apex_only_active_code [OF a _ assms(5)] assms(4)
    show ?thesis by meson
  qed
qed

text \<open>An active package that does not open makes the removal fail after the new file is in place.\<close>

definition sample_stale_world :: world where
  "sample_stale_world = sample_stage_world\<lparr>fs :=
     [(''/data/apex'', Directory 493), (''/data/apex/active'', Directory 488),
      (''/data/apex/active/old.apex'', Reg 420 ''junk''), (''/data/x.apex'', Reg 420 ''VVVV;1;;|k'')]\<rparr>"

theorem stagePackages_failure_witness:
  "\<exists>e w' dests names. stagePackages sample_stage_env [''/data/x.apex''] sample_stale_world = Some (Inl e, w') \<and>
     staged sample_stage_env sample_stale_world w' dests names ''/data/x.apex''"
proof -
  let ?p = "''/data/apex/active/VVVV@1.apex''"
  have "case stagePackages sample_stage_env [''/data/x.apex''] sample_stale_world of
      Some (r, w') \<Rightarrow> \<not> Ok r \<and> map_of (fs w') ?p \<noteq> map_of (fs sample_stale_world) ?p | None \<Rightarrow> False"
    by code_simp
  then obtain e w' where r: "stagePackages sample_stage_env [''/data/x.apex''] sample_stale_world =
      Some (Inl e, w')" and d: "map_of (fs w') ?p \<noteq> map_of (fs sample_stale_world) ?p"
    by (auto simp: not_Ok_iff split: option.splits)
  have "active_place sample_stage_env sample_stale_world"
    unfolding sample_stale_world_def by (rule sample_stage_place)
  moreover have "unlink_works sample_stage_env"
    by (simp add: unlink_works_def sample_stage_env_def sample_avb_env_def sample_env_def)
  moreover have "\<forall>p \<in> set [''/data/x.apex'']. \<not> under kApexRoot p" by code_simp
  moreover have "\<forall>(p, data, l) \<in> set (ForallMountedApexesAll (gMountedApexes sample_stale_world)).
      \<not> under kApexRoot (full_path data)" by code_simp
  moreover have "under kActiveApexPackagesDataDir ?p \<and> ?p \<noteq> kActiveApexPackagesDataDir" by code_simp
  ultimately show ?thesis using stagePackages_failure [OF r] r d by auto
qed

end
