(* ===== verification/Apexd_Session.thy ===== *)
theory Apexd_Session
  imports Apex_File
begin

text \<open>
  \<open>apexd/apexd_session.cpp\<close>: staged-install sessions, one directory each under
  \<open>/data/apex/sessions\<close>, with the session's state serialized in the file \<open>state\<close>.
\<close>

definition msg_open_state :: string where "msg_open_state = ''Failed to open ''"
definition msg_parse_state :: string where "msg_parse_state = ''Failed to parse ''"
definition msg_many_active :: string where "msg_many_active = ''More than one active session''"
definition msg_write_state :: string where "msg_write_state = ''Failed to write state file ''"
definition msg_delete_session :: string where "msg_delete_session = ''Failed to delete ''"

section \<open>Paths\<close>

definition kApexSessionsDir :: path where "kApexSessionsDir = slash kApexDataDir ''sessions''"

definition kStateFileName :: string where "kStateFileName = ''state''"

definition getSessionDir :: "int32 \<Rightarrow> path" where
  "getSessionDir sid = slash kApexSessionsDir (to_string (sint sid))"

definition getSessionStateFilePath :: "int32 \<Rightarrow> path" where
  "getSessionStateFilePath sid = slash (getSessionDir sid) kStateFileName"

text \<open>
  The source returns \<open>StatusOr<std::string>(res.ErrorMessage())\<close> when a directory cannot be
  made. This is the constructor of values: the result is not an error but the string of the
  error's message (\<open>Inl\<close> below), and the function never fails.
\<close>

definition createSessionDirIfNeeded :: "env \<Rightarrow> int32 \<Rightarrow> world \<Rightarrow> (error + path) status_or \<times> world" where
  "createSessionDirIfNeeded E sid w =
     (let (res, w1) = createDirIfNeeded E kApexSessionsDir 448 w
      in case res of
           Inl e \<Rightarrow> (Inr (Inl e), w1)
         | Inr _ \<Rightarrow>
             (let sessionDir = getSessionDir sid;
                  (res, w2) = createDirIfNeeded E sessionDir 448 w1
              in (case res of Inl e \<Rightarrow> Inr (Inl e) | Inr _ \<Rightarrow> Inr (Inr sessionDir), w2)))"

definition deleteSessionDir :: "env \<Rightarrow> int32 \<Rightarrow> world \<Rightarrow> status \<times> world" where
  "deleteSessionDir E sid w =
     (let (r, w1) = remove_all E (getSessionDir sid) w
      in (case r of
            Inl e \<Rightarrow> Inl (PErr msg_delete_session (getSessionDir sid) e)
          | Inr _ \<Rightarrow> Success, w1))"

section \<open>Creating and reading sessions\<close>

text \<open>A message with no field set, as the generated constructor makes it.\<close>

definition empty_session :: SessionState where
  "empty_session = \<lparr>session_id = 0, session_state = UNKNOWN, child_session_ids = []\<rparr>"

definition CreateSession :: "env \<Rightarrow> int32 \<Rightarrow> world \<Rightarrow> SessionState status_or \<times> world" where
  "CreateSession E sid w =
     (let (sessionPath, w1) = createSessionDirIfNeeded E sid w
      in (case sessionPath of
            Inl e \<Rightarrow> Inl e
          | Inr _ \<Rightarrow> Inr (empty_session\<lparr>session_id := sid\<rparr>), w1))"

lemma CreateSession_never_fails: "fst (CreateSession E sid w) = Inr (empty_session\<lparr>session_id := sid\<rparr>)"
  by (simp add: CreateSession_def createSessionDirIfNeeded_def Let_def split: prod.splits sum.splits)

definition GetSessionFromFile :: "env \<Rightarrow> path \<Rightarrow> world \<Rightarrow> SessionState status_or \<times> world" where
  "GetSessionFromFile E path w =
     (let (fd, w1) = sys_open E path w
      in case fd of
           Inl _ \<Rightarrow> (Inl (ErrAt msg_open_state path), w1)
         | Inr _ \<Rightarrow>
             (let (content, w2) = sys_read E path w1
              in (case content of
                    Inl _ \<Rightarrow> Inl (ErrAt msg_parse_state path)
                  | Inr c \<Rightarrow>
                      (case session_parse E c of
                         None \<Rightarrow> Inl (ErrAt msg_parse_state path)
                       | Some state \<Rightarrow> Inr state), w2)))"

definition GetSession :: "env \<Rightarrow> int32 \<Rightarrow> world \<Rightarrow> SessionState status_or \<times> world" where
  "GetSession E sid w = GetSessionFromFile E (getSessionStateFilePath sid) w"

fun load_sessions :: "env \<Rightarrow> path list \<Rightarrow> world \<Rightarrow> SessionState list \<times> world" where
  "load_sessions E [] w = ([], w)"
| "load_sessions E (d # ds) w =
     (let (session, w1) = GetSessionFromFile E (slash d kStateFileName) w;
          (rest, w2) = load_sessions E ds w1
      in (case session of Inl _ \<Rightarrow> rest | Inr s \<Rightarrow> s # rest, w2))"

definition dir_entry :: "path \<Rightarrow> node option \<Rightarrow> bool" where
  "dir_entry p n = (case n of Some n \<Rightarrow> is_dir n | None \<Rightarrow> False)"

definition GetSessions :: "env \<Rightarrow> world \<Rightarrow> SessionState list \<times> world" where
  "GetSessions E w =
     (let (sessionPaths, w1) = ReadDir E kApexSessionsDir dir_entry w
      in case sessionPaths of
           Inl _ \<Rightarrow> ([], w1)
         | Inr paths \<Rightarrow> load_sessions E paths w1)"

definition GetSessionsInState :: "env \<Rightarrow> State \<Rightarrow> world \<Rightarrow> SessionState list \<times> world" where
  "GetSessionsInState E state w =
     (let (sessions, w1) = GetSessions E w
      in (filter (\<lambda>s. session_state s = state) sessions, w1))"

fun IsFinalized :: "State \<Rightarrow> bool" where
  "IsFinalized SUCCESS = True"
| "IsFinalized ACTIVATION_FAILED = True"
| "IsFinalized ROLLED_BACK = True"
| "IsFinalized ROLLBACK_FAILED = True"
| "IsFinalized _ = False"

text \<open>The loop of \<open>GetActiveSession\<close> with its optional result so far.\<close>

fun active_session :: "SessionState list \<Rightarrow> SessionState option \<Rightarrow> SessionState option status_or" where
  "active_session [] ret = Inr ret"
| "active_session (s # ss) ret =
     (if \<not> IsFinalized (session_state s) then
        (if ret \<noteq> None then Inl (Err msg_many_active) else active_session ss (Some s))
      else active_session ss ret)"

definition GetActiveSession :: "env \<Rightarrow> world \<Rightarrow> SessionState option status_or \<times> world" where
  "GetActiveSession E w =
     (let (sessions, w1) = GetSessions E w in (active_session sessions None, w1))"

section \<open>Changing sessions\<close>

definition SetChildSessionIds :: "int32 list \<Rightarrow> SessionState \<Rightarrow> SessionState" where
  "SetChildSessionIds ids s = s\<lparr>child_session_ids := ids\<rparr>"

text \<open>The object changes first; the file is then rewritten in place.\<close>

definition UpdateStateAndCommit :: "env \<Rightarrow> State \<Rightarrow> SessionState \<Rightarrow> world \<Rightarrow>
    status \<times> SessionState \<times> world" where
  "UpdateStateAndCommit E state s w =
     (let s1 = s\<lparr>session_state := state\<rparr>;
          stateFilePath = getSessionStateFilePath (session_id s1);
          (ok, w1) = write_stream E stateFilePath (session_serialize E s1) w
      in (if \<not> ok then Inl (ErrAt msg_write_state stateFilePath) else Success, s1, w1))"

text \<open>\<open>operator<<\<close>: \<open>State_Name\<close> of a number the enumeration does not name is empty.\<close>

fun State_Name :: "State \<Rightarrow> string" where
  "State_Name UNKNOWN = ''UNKNOWN''"
| "State_Name VERIFIED = ''VERIFIED''"
| "State_Name STAGED = ''STAGED''"
| "State_Name ACTIVATED = ''ACTIVATED''"
| "State_Name ACTIVATION_FAILED = ''ACTIVATION_FAILED''"
| "State_Name SUCCESS = ''SUCCESS''"
| "State_Name ROLLBACK_IN_PROGRESS = ''ROLLBACK_IN_PROGRESS''"
| "State_Name ROLLED_BACK = ''ROLLED_BACK''"
| "State_Name ROLLBACK_FAILED = ''ROLLBACK_FAILED''"
| "State_Name (OtherState _) = ''''"

definition show_session :: "SessionState \<Rightarrow> string" where
  "show_session s = ''[id = '' @ to_string (sint (session_id s)) @ ''; state = '' @
     State_Name (session_state s) @ '']''"

definition DeleteSession :: "env \<Rightarrow> SessionState \<Rightarrow> world \<Rightarrow> status \<times> world" where
  "DeleteSession E s w = deleteSessionDir E (session_id s) w"

section \<open>What is on disk\<close>

text \<open>The session a state file holds.\<close>

definition disk_session :: "env \<Rightarrow> world \<Rightarrow> int32 \<Rightarrow> SessionState option" where
  "disk_session E w sid = (case map_of (fs w) (getSessionStateFilePath sid) of
      Some (Reg _ c) \<Rightarrow> session_parse E c
    | _ \<Rightarrow> None)"

lemma sessions_dir_ne [simp]: "kApexSessionsDir \<noteq> ''''"
  by (simp add: kApexSessionsDir_def)

lemma kStateFileName_no_slash [simp]: "CHR ''/'' \<notin> set kStateFileName"
  by (simp add: kStateFileName_def)

lemma session_path_eq [simp]: "getSessionStateFilePath i = getSessionStateFilePath j \<longleftrightarrow> i = j"
  by (auto simp: getSessionStateFilePath_def getSessionDir_def intro: signed_word_eqI)

lemma session_dir_eq [simp]: "getSessionDir i = getSessionDir j \<longleftrightarrow> i = j"
  by (auto simp: getSessionDir_def intro: signed_word_eqI)

lemma session_path_under: "under kApexSessionsDir (getSessionStateFilePath i)"
  by (simp add: under_def getSessionStateFilePath_def getSessionDir_def)

lemma session_path_host: "clear w kApexSessionsDir \<Longrightarrow> mount_over w (getSessionStateFilePath i) = None"
  by (erule clear_mount_over) (rule session_path_under)

lemma GetSessionFromFile_asks: "GetSessionFromFile E p w = (r, w') \<Longrightarrow> asks w w'"
  by (auto simp: GetSessionFromFile_def sys_open_def sys_read_def query_eq Let_def
      split: prod.splits sum.splits)

lemma GetSession_asks: "GetSession E i w = (r, w') \<Longrightarrow> asks w w'"
  unfolding GetSession_def by (rule GetSessionFromFile_asks)

lemma load_sessions_asks: "load_sessions E ps w = (r, w') \<Longrightarrow> asks w w'"
  by (induction ps arbitrary: w r)
    (auto simp: Let_def split: prod.splits intro: asks_trans dest: GetSessionFromFile_asks)

lemma GetSessions_asks: "GetSessions E w = (r, w') \<Longrightarrow> asks w w'"
  by (auto simp: GetSessions_def Let_def split: prod.splits sum.splits
      dest!: ReadDir_result(1) load_sessions_asks elim!: asksE)

lemma GetSessionsInState_asks: "GetSessionsInState E st w = (r, w') \<Longrightarrow> asks w w'"
  by (auto simp: GetSessionsInState_def Let_def dest: GetSessions_asks split: prod.splits)

lemma GetActiveSession_asks: "GetActiveSession E w = (r, w') \<Longrightarrow> asks w w'"
  by (auto simp: GetActiveSession_def Let_def dest: GetSessions_asks split: prod.splits)

lemma GetSession_Inr: "GetSession E i w = (Inr s, w') \<Longrightarrow> clear w kApexSessionsDir \<Longrightarrow>
    disk_session E w i = Some s"
  by (auto simp: GetSession_def GetSessionFromFile_def sys_read_def query_eq Let_def read_eff_def
      sys_open_def node_at_host session_path_host disk_session_def
      split: prod.splits sum.splits option.splits node.splits)

lemma UpdateStateAndCommit_frame:
  "UpdateStateAndCommit E st s w = (r, s', w') \<Longrightarrow>
     only_fs (\<lambda>p. p = getSessionStateFilePath (session_id s)) w w' \<and> s' = s\<lparr>session_state := st\<rparr>"
  using write_stream_frame [of "getSessionStateFilePath (session_id s)" w E]
  by (auto simp: UpdateStateAndCommit_def Let_def split: prod.splits) (metis snd_conv)

section \<open>Writing a state file\<close>

lemma write_stream_file:
  assumes "write_stream E p c w = (b, w')" and "mount_over w p = None"
  shows "map_of (fs w') p = map_of (fs w) p \<or> (\<exists>m. map_of (fs w') p = Some (Reg m '''')) \<or>
      (\<exists>m. map_of (fs w') p = Some (Reg m c))"
    and "b \<Longrightarrow> stream_reports E c \<or> (\<forall>h. fault E h (SysWrite p c) = None) \<Longrightarrow>
      \<exists>m. map_of (fs w') p = Some (Reg m c)"
    and "\<forall>h. fault E h (SysWrite p c) = None \<Longrightarrow> \<not> b \<Longrightarrow> map_of (fs w') p = map_of (fs w) p"
proof -
  obtain r1 w1 where o: "fs_call E (SysOpenTrunc p) (open_trunc_eff E p) w = (r1, w1)"
    by (cases "fs_call E (SysOpenTrunc p) (open_trunc_eff E p) w")
  have "(map_of (fs w') p = map_of (fs w) p \<or> (\<exists>m. map_of (fs w') p = Some (Reg m '''')) \<or>
      (\<exists>m. map_of (fs w') p = Some (Reg m c))) \<and>
    (b \<longrightarrow> stream_reports E c \<or> (\<forall>h. fault E h (SysWrite p c) = None) \<longrightarrow>
      (\<exists>m. map_of (fs w') p = Some (Reg m c))) \<and>
    ((\<forall>h. fault E h (SysWrite p c) = None) \<longrightarrow> \<not> b \<longrightarrow> map_of (fs w') p = map_of (fs w) p)"
  proof (cases r1)
    case (Inl e)
    with o have "fs w1 = fs w" by (auto simp: fs_call_eq split: sum.splits)
    with Inl o assms(1) show ?thesis by (simp add: write_stream_def)
  next
    case (Inr u)
    with o assms(2) obtain m where f1: "map_of (fs w1) p = Some (Reg m '''')" "mnts w1 = mnts w"
      by (auto simp: fs_call_eq open_trunc_eff_def node_at_host update_conv'
          split: sum.splits option.splits node.splits if_splits)
    have host: "mount_over w1 p = None" using assms(2) mount_over_cong [of w1 w] f1(2) by simp
    obtain r2 w2 where s: "fs_call E (SysWrite p c) (write_eff p c) w1 = (r2, w2)"
      by (cases "fs_call E (SysWrite p c) (write_eff p c) w1")
    with host f1 have f2: "map_of (fs w2) p = Some (Reg m (if Ok r2 then c else ''''))"
      by (auto simp: fs_call_eq write_eff_def node_at_host update_conv' split: sum.splits option.splits)
    from s host f1 have ok: "Ok r2" if "\<forall>h. fault E h (SysWrite p c) = None"
      using that by (auto simp: fs_call_eq write_eff_def node_at_host)
    from o Inr s assms(1) have "w' = w2" "b = (Ok r2 \<or> \<not> stream_reports E c)"
      by (simp_all add: write_stream_def)
    with f2 ok show ?thesis by auto
  qed
  then show "map_of (fs w') p = map_of (fs w) p \<or> (\<exists>m. map_of (fs w') p = Some (Reg m '''')) \<or>
      (\<exists>m. map_of (fs w') p = Some (Reg m c))"
    and "b \<Longrightarrow> stream_reports E c \<or> (\<forall>h. fault E h (SysWrite p c) = None) \<Longrightarrow>
      \<exists>m. map_of (fs w') p = Some (Reg m c)"
    and "\<forall>h. fault E h (SysWrite p c) = None \<Longrightarrow> \<not> b \<Longrightarrow> map_of (fs w') p = map_of (fs w) p"
    by blast+
qed

text \<open>
  A stream that opens empties the file. When the bytes do not follow, its writer is told
  unless they were still in the stream's buffer.
\<close>

lemma write_stream_opened:
  assumes "write_stream E p c w = (True, w')" and "mount_over w p = None"
  shows "(\<exists>m. map_of (fs w') p = Some (Reg m c)) \<or>
      \<not> stream_reports E c \<and> (\<exists>m. map_of (fs w') p = Some (Reg m ''''))"
    and "\<forall>h. fault E h (SysWrite p c) \<noteq> None \<Longrightarrow>
      \<not> stream_reports E c \<and> (\<exists>m. map_of (fs w') p = Some (Reg m ''''))"
proof -
  obtain r1 w1 where o: "fs_call E (SysOpenTrunc p) (open_trunc_eff E p) w = (r1, w1)"
    by (cases "fs_call E (SysOpenTrunc p) (open_trunc_eff E p) w")
  obtain r2 w2 where s: "fs_call E (SysWrite p c) (write_eff p c) w1 = (r2, w2)"
    by (cases "fs_call E (SysWrite p c) (write_eff p c) w1")
  from assms(1) o s have r1: "Ok r1" and r2: "w' = w2" "Ok r2 \<or> \<not> stream_reports E c"
    by (auto simp: write_stream_def split: if_splits)
  with o assms(2) obtain m where f1: "map_of (fs w1) p = Some (Reg m '''')" "mnts w1 = mnts w"
    by (auto simp: fs_call_eq open_trunc_eff_def node_at_host update_conv'
        split: sum.splits option.splits node.splits if_splits)
  have host: "mount_over w1 p = None" using assms(2) mount_over_cong [of w1 w] f1(2) by simp
  with s f1 have "map_of (fs w2) p = Some (Reg m (if Ok r2 then c else ''''))"
    by (auto simp: fs_call_eq write_eff_def node_at_host update_conv' split: sum.splits option.splits)
  moreover have "\<not> Ok r2" if "\<forall>h. fault E h (SysWrite p c) \<noteq> None"
    using s that [rule_format, of "hist w1"] by (auto simp: fs_call_eq split: option.splits sum.splits)
  ultimately show "(\<exists>m. map_of (fs w') p = Some (Reg m c)) \<or>
      \<not> stream_reports E c \<and> (\<exists>m. map_of (fs w') p = Some (Reg m ''''))"
    and "\<forall>h. fault E h (SysWrite p c) \<noteq> None \<Longrightarrow>
      \<not> stream_reports E c \<and> (\<exists>m. map_of (fs w') p = Some (Reg m ''''))"
    using r2 by auto
qed

lemma write_stream_refused:
  assumes "write_stream E p c w = (False, w')" and "mount_over w p = None"
  shows "map_of (fs w') p = map_of (fs w) p \<or> (\<exists>m. map_of (fs w') p = Some (Reg m ''''))"
proof -
  obtain r1 w1 where o: "fs_call E (SysOpenTrunc p) (open_trunc_eff E p) w = (r1, w1)"
    by (cases "fs_call E (SysOpenTrunc p) (open_trunc_eff E p) w")
  obtain r2 w2 where s: "fs_call E (SysWrite p c) (write_eff p c) w1 = (r2, w2)"
    by (cases "fs_call E (SysWrite p c) (write_eff p c) w1")
  show ?thesis
  proof (cases r1)
    case (Inl e)
    with o have "fs w1 = fs w" by (auto simp: fs_call_eq split: sum.splits)
    with Inl o assms(1) show ?thesis by (simp add: write_stream_def)
  next
    case (Inr u)
    with o assms(2) obtain m where f1: "map_of (fs w1) p = Some (Reg m '''')"
      by (auto simp: fs_call_eq open_trunc_eff_def node_at_host update_conv'
          split: sum.splits option.splits node.splits if_splits)
    from Inr o s assms(1) have "w' = w2" "\<not> Ok r2" by (auto simp: write_stream_def)
    with s f1 show ?thesis by (auto simp: fs_call_eq split: sum.splits)
  qed
qed

text \<open>
  The serializer is inverted by the parser, and a state file is either written or its
  writer is told.
\<close>

definition faithful_store :: "env \<Rightarrow> bool" where
  "faithful_store E \<longleftrightarrow> (\<forall>s. session_parse E (session_serialize E s) = Some s \<and>
     (stream_reports E (session_serialize E s) \<or>
      (\<forall>h p. fault E h (SysWrite p (session_serialize E s)) = None)))"

definition store_ok :: "env \<Rightarrow> world \<Rightarrow> bool" where
  "store_ok E w \<longleftrightarrow> faithful_store E \<and> clear w kApexSessionsDir"

lemma UpdateStateAndCommit_law:
  assumes ok: "store_ok E w" and run: "UpdateStateAndCommit E st s w = (r, s', w')"
  shows "store_ok E w' \<and> s' = s\<lparr>session_state := st\<rparr> \<and>
    (\<forall>i. i \<noteq> session_id s \<longrightarrow> disk_session E w' i = disk_session E w i) \<and>
    (r = Success \<longrightarrow> disk_session E w' (session_id s) = Some s')"
proof -
  note fr = UpdateStateAndCommit_frame [OF run]
  have "disk_session E w' i = disk_session E w i" if "i \<noteq> session_id s" for i
    using only_fs_lookup [OF conjunct1 [OF fr]] that by (simp add: disk_session_def)
  moreover have "disk_session E w' (session_id s) = Some s'" if "r = Success"
  proof -
    have host: "mount_over w (getSessionStateFilePath (session_id s)) = None"
      using ok by (simp add: store_ok_def session_path_host)
    obtain b w1 where ws: "write_stream E (getSessionStateFilePath (session_id s))
        (session_serialize E s') w = (b, w1)" by (cases "write_stream E
        (getSessionStateFilePath (session_id s)) (session_serialize E s') w")
    with run fr that have "b" "w1 = w'"
      by (auto simp: UpdateStateAndCommit_def Let_def split: prod.splits if_splits)
    moreover have codec: "session_parse E (session_serialize E s') = Some s'"
      "stream_reports E (session_serialize E s') \<or>
        (\<forall>h. fault E h (SysWrite (getSessionStateFilePath (session_id s))
          (session_serialize E s')) = None)"
      using ok unfolding store_ok_def faithful_store_def by blast+
    ultimately obtain m where "map_of (fs w') (getSessionStateFilePath (session_id s)) =
        Some (Reg m (session_serialize E s'))"
      using write_stream_file(2) [OF ws host] by blast
    with codec(1) show ?thesis by (simp add: disk_session_def)
  qed
  ultimately show ?thesis
    using fr ok clear_only_fs [OF conjunct1 [OF fr]] by (auto simp: store_ok_def)
qed

section \<open>The session store\<close>

text \<open>What the rest of the daemon relies on when it moves sessions from state to state.\<close>

locale session_store =
  fixes ok :: "env \<Rightarrow> 'w \<Rightarrow> bool"
    and get :: "env \<Rightarrow> 'w \<Rightarrow> int32 \<Rightarrow> SessionState option"
    and commit :: "env \<Rightarrow> State \<Rightarrow> SessionState \<Rightarrow> 'w \<Rightarrow> status \<times> SessionState \<times> 'w"
  assumes commit_law: "ok E w \<Longrightarrow> commit E st s w = (r, s', w') \<Longrightarrow>
      ok E w' \<and> s' = s\<lparr>session_state := st\<rparr> \<and>
      (\<forall>i. i \<noteq> session_id s \<longrightarrow> get E w' i = get E w i) \<and>
      (r = Success \<longrightarrow> get E w' (session_id s) = Some s')"
begin

lemma commit_get: "ok E w \<Longrightarrow> commit E st s w = (Success, s', w') \<Longrightarrow>
    get E w' i = (if i = session_id s then Some (s\<lparr>session_state := st\<rparr>) else get E w i)"
  by (drule (1) commit_law) auto

lemma commit_twice:
  assumes "ok E w" "commit E st s w = (r, s1, w1)" "commit E st' s1 w1 = (Success, s2, w2)"
  shows "get E w2 i = (if i = session_id s then Some (s\<lparr>session_state := st'\<rparr>) else get E w i)"
  using commit_law [OF assms(1,2)] commit_get [of E w1 st' s1 s2 w2 i] assms(3) by auto

lemma commit_keeps_others: "ok E w \<Longrightarrow> commit E st s w = (r, s', w') \<Longrightarrow> i \<noteq> session_id s \<Longrightarrow>
    get E w' i = get E w i"
  by (drule (1) commit_law) auto

end

interpretation sessions: session_store store_ok disk_session UpdateStateAndCommit
  by unfold_locales (rule UpdateStateAndCommit_law)

section \<open>Reading sessions back\<close>

lemma GetSession_eq:
  assumes "clear w kApexSessionsDir" and "\<And>h ev. fault E h ev = None"
  shows "fst (GetSession E i w) = (case disk_session E w i of
      Some s \<Rightarrow> Inr s
    | None \<Rightarrow> fst (GetSession E i w))"
    and "Ok (fst (GetSession E i w)) \<longleftrightarrow> disk_session E w i \<noteq> None"
proof -
  have *: "case fst (GetSession E i w) of Inr s \<Rightarrow> disk_session E w i = Some s
      | Inl _ \<Rightarrow> disk_session E w i = None"
    using session_path_host [OF assms(1), of i]
    by (auto simp: GetSession_def GetSessionFromFile_def sys_open_def sys_read_def query_def
        stat_eff_def read_eff_def node_at_host disk_session_def Let_def assms(2)
        split: option.splits sum.splits node.splits prod.splits if_splits)
  then show "fst (GetSession E i w) = (case disk_session E w i of
      Some s \<Rightarrow> Inr s | None \<Rightarrow> fst (GetSession E i w))"
    "Ok (fst (GetSession E i w)) \<longleftrightarrow> disk_session E w i \<noteq> None"
    by (auto simp: Ok_def split: sum.splits option.splits)
qed

lemma active_session_eq:
  "active_session ss ret = (case (map Some (filter (\<lambda>s. \<not> IsFinalized (session_state s)) ss), ret) of
      ([], _) \<Rightarrow> Inr ret
    | ([s], None) \<Rightarrow> Inr s
    | _ \<Rightarrow> Inl (Err msg_many_active))"
  by (induction ss arbitrary: ret) (auto split: list.splits option.splits)

section \<open>Properties\<close>

text \<open>The state file of a session was emptied and its bytes did not follow.\<close>

definition state_lost :: "env \<Rightarrow> world \<Rightarrow> SessionState \<Rightarrow> bool" where
  "state_lost E w s \<longleftrightarrow> \<not> stream_reports E (session_serialize E s) \<and>
     (\<exists>m. map_of (fs w) (getSessionStateFilePath (session_id s)) = Some (Reg m ''''))"

text \<open>C14. Let the parser invert the serializer and nothing be mounted over the sessions. A commit touches only the session's own state file
  and gives the object its new state, whatever happens. When it reports success, the session
  on disk is the committed one and, where no call fails, is read back as such; or the bytes
  were still in the stream's buffer when the write failed, and the file is left empty. The
  latter is what a write that fails unnoticed always leads to.
\<close>

theorem session_round_trip:
  assumes codec: "\<forall>x. session_parse E (session_serialize E x) = Some x" and c: "clear w kApexSessionsDir"
    and run: "UpdateStateAndCommit E st s w = (r, s', w')"
  shows "s' = s\<lparr>session_state := st\<rparr> \<and>
    only_fs (\<lambda>p. p = getSessionStateFilePath (session_id s)) w w' \<and>
    (\<forall>i. i \<noteq> session_id s \<longrightarrow> disk_session E w' i = disk_session E w i) \<and>
    (Ok r \<longrightarrow> disk_session E w' (session_id s) = Some s' \<or> state_lost E w' s') \<and>
    (Ok r \<and> (\<forall>h p b. fault E h (SysWrite p b) \<noteq> None) \<longrightarrow> state_lost E w' s') \<and>
    (Ok r \<and> (\<forall>h ev. fault E h ev = None) \<longrightarrow> fst (GetSession E (session_id s) w') = Inr s')"
proof -
  let ?p = "getSessionStateFilePath (session_id s)"
  note fr = UpdateStateAndCommit_frame [OF run]
  have host: "mount_over w ?p = None" using c by (rule session_path_host)
  have others: "disk_session E w' i = disk_session E w i" if "i \<noteq> session_id s" for i
    using only_fs_lookup [OF conjunct1 [OF fr]] that by (simp add: disk_session_def)
  have ws: "write_stream E ?p (session_serialize E s') w = (True, w')" if "Ok r"
    using run that by (auto simp: UpdateStateAndCommit_def Let_def split: prod.splits if_splits)
  have ok: "disk_session E w' (session_id s) = Some s' \<or> state_lost E w' s'" if "Ok r"
    using write_stream_opened(1) [OF ws [OF that] host] codec fr
    by (auto simp: disk_session_def state_lost_def)
  moreover have "state_lost E w' s'" if "Ok r" "\<forall>h p b. fault E h (SysWrite p b) \<noteq> None"
    using write_stream_opened(2) [OF ws [OF that(1)] host] that(2) fr by (simp add: state_lost_def)
  moreover have "fst (GetSession E (session_id s) w') = Inr s'" if "Ok r" "\<forall>h ev. fault E h ev = None"
  proof -
    have c': "clear w' kApexSessionsDir" using clear_only_fs [OF conjunct1 [OF fr]] c by simp
    have "\<exists>m. map_of (fs w') ?p = Some (Reg m (session_serialize E s'))"
      using write_stream_file(2) [OF ws [OF that(1)] host] that(2) by simp
    then have "disk_session E w' (session_id s) = Some s'" using codec by (auto simp: disk_session_def)
    with GetSession_eq(1) [OF c', of E "session_id s"] that(2) show ?thesis by simp
  qed
  ultimately show ?thesis using fr others by blast
qed

text \<open>A world with the session directories 1 and 2, session 1 staged.\<close>

definition sample_sessions :: world where
  "sample_sessions = sample_world\<lparr>fs := [('''', Directory 493), (''/data'', Directory 493),
     (''/data/apex'', Directory 493), (''/data/apex/sessions'', Directory 448),
     (''/data/apex/sessions/1'', Directory 448),
     (''/data/apex/sessions/1/state'', Reg 384 ''1,2,0,''),
     (''/data/apex/sessions/2'', Directory 448)]\<rparr>"

lemma sample_faithful: "faithful_store sample_env"
  by (simp add: faithful_store_def sample_env_def)

lemma clear_sample [simp]: "clear sample_world d"
  by (simp add: clear_def sample_world_def)

theorem session_round_trip_witness:
  "\<exists>r s' w'. UpdateStateAndCommit sample_env ACTIVATED
      \<lparr>session_id = 2, session_state = STAGED, child_session_ids = [3]\<rparr> sample_sessions = (r, s', w') \<and>
     Ok r \<and> disk_session sample_env w' 2 =
       Some \<lparr>session_id = 2, session_state = ACTIVATED, child_session_ids = [3]\<rparr>"
proof -
  let ?s = "\<lparr>session_id = 2, session_state = STAGED, child_session_ids = [3]\<rparr>"
  have "Ok (fst (UpdateStateAndCommit sample_env ACTIVATED ?s sample_sessions))" by code_simp
  then obtain r s' w' where r: "UpdateStateAndCommit sample_env ACTIVATED ?s sample_sessions = (r, s', w')"
    and ok: "Ok r" by (metis prod.collapse)
  have c: "clear sample_sessions kApexSessionsDir" by (simp add: sample_sessions_def)
  have codec: "\<forall>x. session_parse sample_env (session_serialize sample_env x) = Some x"
    using sample_faithful by (simp add: faithful_store_def)
  have "\<not> state_lost sample_env w' s'" by (simp add: state_lost_def sample_env_def)
  with session_round_trip [OF codec c r] ok r show ?thesis by auto
qed

text \<open>C19. A commit that is interrupted between truncating and writing the state file leaves it
  empty: the old state is lost. As protobuf parses no bytes as a message with no field
  set, the session then reads back as session 0 in state UNKNOWN.
\<close>

theorem torn_commit:
  assumes "clear w kApexSessionsDir"
    and "disk_session E w (session_id s) \<noteq> None"
    and "\<And>h. fault E h (SysOpenTrunc (getSessionStateFilePath (session_id s))) = None"
    and "\<And>h p c. fault E h (SysWrite p c) = Some EIO"
    and "session_parse E '''' = Some empty_session"
  shows "disk_session E (snd (snd (UpdateStateAndCommit E st s w))) (session_id s) = Some empty_session"
  using assms(2-) session_path_host [OF assms(1), of "session_id s"]
  by (auto simp: UpdateStateAndCommit_def write_stream_def fs_call_def open_trunc_eff_def
      node_at_host disk_session_def update_conv' Let_def
      split: option.splits node.splits prod.splits sum.splits)

theorem torn_commit_witness:
  "disk_session (sample_env\<lparr>fault := \<lambda>_ ev. case ev of SysWrite _ _ \<Rightarrow> Some EIO | _ \<Rightarrow> None\<rparr>)
     (snd (snd (UpdateStateAndCommit
       (sample_env\<lparr>fault := \<lambda>_ ev. case ev of SysWrite _ _ \<Rightarrow> Some EIO | _ \<Rightarrow> None\<rparr>) ACTIVATED
       \<lparr>session_id = 1, session_state = STAGED, child_session_ids = []\<rparr> sample_sessions))) 1 =
   Some empty_session"
proof -
  let ?E = "sample_env\<lparr>fault := \<lambda>_ ev. case ev of SysWrite _ _ \<Rightarrow> Some EIO | _ \<Rightarrow> None\<rparr>"
  let ?s = "\<lparr>session_id = 1, session_state = STAGED, child_session_ids = []\<rparr> :: SessionState"
  have "clear sample_sessions kApexSessionsDir" by (simp add: sample_sessions_def)
  moreover have "disk_session ?E sample_sessions (session_id ?s) \<noteq> None" by code_simp
  moreover have "session_parse ?E '''' = Some empty_session"
    by (simp add: sample_env_def sample_parse_def empty_session_def)
  ultimately show ?thesis using torn_commit [of sample_sessions ?E ?s ACTIVATED] by simp
qed

end
