(* ===== verification/Rollback.thy ===== *)
theory Rollback
  imports Staging Apexd_Session
begin

text \<open>
  The part of \<open>apexd/apexd.cpp\<close> that keeps a way back: the backup of the active packages,
  the rollback of a session, and its resumption after a reboot. A function that holds a
  session by reference returns it, with the state it was given last.
\<close>

definition msg_clean :: string where "msg_clean = ''Can't clean ''"
definition msg_backup :: string where "msg_backup = ''Backup failed : ''"
definition msg_backup_link :: string where "msg_backup_link = ''Failed to backup ''"
definition msg_no_backup :: string where "msg_no_backup = '' does not exist''"
definition msg_access_active :: string where "msg_access_active = ''Failed to access ''"
definition msg_rename :: string where "msg_rename = ''Failed to rename ''"
definition msg_restore_mode :: string where
  "msg_restore_mode = ''Failed to restore original permissions for ''"
definition msg_rollback :: string where "msg_rollback = ''Rollback of session ''"
definition msg_wrong_state :: string where "msg_wrong_state = '' : session is in a wrong state''"
definition msg_cant_abort :: string where "msg_cant_abort = '' can't be aborted''"
definition msg_not_staged :: string where "msg_not_staged = '' because it is not in STAGED state''"
definition msg_get_active :: string where "msg_get_active = ''Failed to get active session : ''"
definition msg_no_active :: string where
  "msg_no_active = ''Rollback requested, when there are no active sessions.''"

section \<open>Clearing sessions and backups\<close>

fun delete_sessions :: "env \<Rightarrow> SessionState list \<Rightarrow> world \<Rightarrow> status \<times> world" where
  "delete_sessions E [] w = (Success, w)"
| "delete_sessions E (session # ss) w =
     (let (status, w1) = DeleteSession E session w
      in if \<not> Ok status then (status, w1) else delete_sessions E ss w1)"

definition ClearSessions :: "env \<Rightarrow> world \<Rightarrow> status \<times> world" where
  "ClearSessions E w = (let (sessions, w1) = GetSessions E w in delete_sessions E sessions w1)"

definition DeleteBackup :: "env \<Rightarrow> world \<Rightarrow> status \<times> world" where
  "DeleteBackup E w =
     (let (exists, w1) = PathExists E kApexBackupDir w
      in case exists of
           Inl e \<Rightarrow> (Inl (WrapAt msg_clean kApexBackupDir e), w1)
         | Inr False \<Rightarrow> (Success, w1)
         | Inr True \<Rightarrow> DeleteDirContent E kApexBackupDir w1)"

section \<open>The backup\<close>

definition backup_path :: "ApexFile \<Rightarrow> path" where
  "backup_path a = slash kApexBackupDir (GetPackageId (GetManifest a)) @ kApexPackageSuffix"

fun backup_each :: "env \<Rightarrow> path list \<Rightarrow> world \<Rightarrow> status \<times> world" where
  "backup_each E [] w = (Success, w)"
| "backup_each E (path # paths) w =
     (let (apex_file, w1) = Open E path w
      in case apex_file of
           Inl e \<Rightarrow> (Inl (Wrap msg_backup e), w1)
         | Inr a \<Rightarrow>
             (let (r, w2) = sys_link E (GetPath a) (backup_path a) w1
              in case r of
                   Inl e \<Rightarrow> (Inl (PErr msg_backup_link (GetPath a) e), w2)
                 | Inr _ \<Rightarrow> backup_each E paths w2))"

text \<open>The scope guard deletes what was backed up when a step fails.\<close>

definition BackupActivePackages :: "env \<Rightarrow> world \<Rightarrow> status \<times> world" where
  "BackupActivePackages E w =
     (let (create_status, w1) = createDirIfNeeded E kApexBackupDir 448 w
      in case create_status of
           Inl e \<Rightarrow> (Inl (Wrap msg_backup e), w1)
         | Inr _ \<Rightarrow>
      (let (apex_active_exists, w2) = PathExists E kActiveApexPackagesDataDir w1
       in case apex_active_exists of
            Inl e \<Rightarrow> (Inl (Wrap msg_backup e), w2)
          | Inr False \<Rightarrow> (Success, w2)
          | Inr True \<Rightarrow>
      (let (active_packages, w3) = FindApexFilesByName E kActiveApexPackagesDataDir False w2
       in case active_packages of
            Inl e \<Rightarrow> (Inl (Wrap msg_backup e), w3)
          | Inr paths \<Rightarrow>
      (let (cleanup_status, w4) = DeleteBackup E w3
       in case cleanup_status of
            Inl e \<Rightarrow> (Inl (Wrap msg_backup e), w4)
          | Inr _ \<Rightarrow>
      (let (status, w5) = backup_each E paths w4
       in if \<not> Ok status then (status, snd (DeleteDirContent E kApexBackupDir w5))
          else (Success, w5))))))"

section \<open>Rolling back\<close>

text \<open>\<open>ALLPERMS\<close> is 07777.\<close>

definition restore_backup :: "env \<Rightarrow> world \<Rightarrow> status \<times> world" where
  "restore_backup E w =
     (let (backup_exists, w1) = PathExists E kApexBackupDir w
      in case backup_exists of
           Inl e \<Rightarrow> (Inl e, w1)
         | Inr False \<Rightarrow> (Inl (ErrAt msg_no_backup kApexBackupDir), w1)
         | Inr True \<Rightarrow>
      (let (stat_data, w2) = sys_stat E kActiveApexPackagesDataDir w1
       in case stat_data of
            Inl e \<Rightarrow> (Inl (PErr msg_access_active kActiveApexPackagesDataDir e), w2)
          | Inr n \<Rightarrow>
      (let (delete_status, w3) = DeleteDirContent E kActiveApexPackagesDataDir w2
       in if \<not> Ok delete_status then (delete_status, w3)
          else
      (let (r, w4) = sys_rename E kApexBackupDir kActiveApexPackagesDataDir w3
       in case r of
            Inl e \<Rightarrow> (Inl (PErr msg_rename kApexBackupDir e), w4)
          | Inr _ \<Rightarrow>
      (let (r, w5) = sys_chmod E kActiveApexPackagesDataDir (and (node_mode n) 4095) w4
       in case r of
            Inl e \<Rightarrow> (Inl (PErr msg_restore_mode kActiveApexPackagesDataDir e), w5)
          | Inr _ \<Rightarrow> (Success, w5))))))"

definition DoRollback :: "env \<Rightarrow> SessionState \<Rightarrow> world \<Rightarrow> status \<times> SessionState \<times> world" where
  "DoRollback E session w =
     (if gInFsCheckpointMode w then (Success, session, w)
      else (let (st, w1) = restore_backup E w
            in if Ok st then (st, session, w1)
               else (let (_, session, w2) = UpdateStateAndCommit E ROLLBACK_FAILED session w1
                     in (st, session, w2))))"

definition RollbackStagedSession :: "env \<Rightarrow> SessionState \<Rightarrow> world \<Rightarrow> status \<times> SessionState \<times> world" where
  "RollbackStagedSession E session w = UpdateStateAndCommit E ROLLED_BACK session w"

definition RollbackActivatedSession :: "env \<Rightarrow> SessionState \<Rightarrow> world \<Rightarrow> status \<times> SessionState \<times> world" where
  "RollbackActivatedSession E session w =
     (if gInFsCheckpointMode w then (Success, session, w)
      else (let (status, session, w1) = UpdateStateAndCommit E ROLLBACK_IN_PROGRESS session w
            in case status of
                 Inl e \<Rightarrow> (Inl (WrapAt msg_rollback (show_session session) e), session, w1)
               | Inr _ \<Rightarrow>
            (let (status, session, w2) = DoRollback E session w1
             in case status of
                  Inl e \<Rightarrow> (Inl (WrapAt msg_rollback (show_session session) e), session, w2)
                | Inr _ \<Rightarrow>
            (let (_, session, w3) = UpdateStateAndCommit E ROLLED_BACK session w2
             in (Success, session, w3)))))"

definition RollbackSession :: "env \<Rightarrow> SessionState \<Rightarrow> world \<Rightarrow> status \<times> SessionState \<times> world" where
  "RollbackSession E session w =
     (case session_state session of
        ROLLBACK_IN_PROGRESS \<Rightarrow> (Success, session, w)
      | ROLLED_BACK \<Rightarrow> (Success, session, w)
      | STAGED \<Rightarrow> RollbackStagedSession E session w
      | ACTIVATED \<Rightarrow> RollbackActivatedSession E session w
      | _ \<Rightarrow> (Inl (ErrAt msg_wrong_state (show_session session)), session, w))"

definition ResumeRollback :: "env \<Rightarrow> SessionState \<Rightarrow> world \<Rightarrow> status \<times> SessionState \<times> world" where
  "ResumeRollback E session w =
     (let (backup_exists, w1) = PathExists E kApexBackupDir w
      in case backup_exists of
           Inl e \<Rightarrow> (Inl e, session, w1)
         | Inr b \<Rightarrow>
      (let (rollback_status, session, w2) =
             (if b then DoRollback E session w1 else (Success, session, w1))
       in if \<not> Ok rollback_status then (rollback_status, session, w2)
          else (let (_, session, w3) = UpdateStateAndCommit E ROLLED_BACK session w2
                in (Success, session, w3))))"

section \<open>On the active session\<close>

definition resumeRollbackIfNeeded :: "env \<Rightarrow> world \<Rightarrow> status \<times> world" where
  "resumeRollbackIfNeeded E w =
     (let (session, w1) = GetActiveSession E w
      in case session of
           Inl e \<Rightarrow> (Inl e, w1)
         | Inr None \<Rightarrow> (Success, w1)
         | Inr (Some s) \<Rightarrow>
             if session_state s = ROLLBACK_IN_PROGRESS
             then (let (st, _, w2) = ResumeRollback E s w1 in (st, w2))
             else (Success, w1))"

definition abortActiveSession :: "env \<Rightarrow> world \<Rightarrow> status \<times> world" where
  "abortActiveSession E w =
     (let (session_or_none, w1) = GetActiveSession E w
      in case session_or_none of
           Inl e \<Rightarrow> (Inl e, w1)
         | Inr None \<Rightarrow> (Success, w1)
         | Inr (Some session) \<Rightarrow>
             (case session_state session of
                VERIFIED \<Rightarrow> DeleteSession E session w1
              | STAGED \<Rightarrow> DeleteSession E session w1
              | ACTIVATED \<Rightarrow> (let (st, _, w2) = RollbackActivatedSession E session w1 in (st, w2))
              | _ \<Rightarrow> (Inl (ErrAt msg_cant_abort (show_session session)), w1)))"

definition rollbackStagedSessionIfAny :: "env \<Rightarrow> world \<Rightarrow> status \<times> world" where
  "rollbackStagedSessionIfAny E w =
     (let (session, w1) = GetActiveSession E w
      in case session of
           Inl e \<Rightarrow> (Inl e, w1)
         | Inr None \<Rightarrow> (Success, w1)
         | Inr (Some s) \<Rightarrow>
             if session_state s = STAGED
             then (let (st, _, w2) = RollbackStagedSession E s w1 in (st, w2))
             else (Inl (ErrAt msg_not_staged (show_session s)), w1))"

definition rollbackActiveSession :: "env \<Rightarrow> world \<Rightarrow> status \<times> world" where
  "rollbackActiveSession E w =
     (let (session, w1) = GetActiveSession E w
      in case session of
           Inl e \<Rightarrow> (Inl (Wrap msg_get_active e), w1)
         | Inr None \<Rightarrow> (Inl (Err msg_no_active), w1)
         | Inr (Some s) \<Rightarrow> (let (st, _, w2) = RollbackSession E s w1 in (st, w2)))"

end
