(* ===== verification/Rollback_Props.thy ===== *)
theory Rollback_Props
  imports Rollback Staging_Props
begin

text \<open>
  What backups and rollbacks guarantee: a rollback moves the whole backup into the
  directory of active packages or leaves the backup as it was, at whatever call it is
  interrupted, and a rollback that a reboot interrupted is completed by resuming it.
\<close>

section \<open>Directories of the daemon\<close>

lemma data_dirs [simp]:
  "kActiveApexPackagesDataDir \<noteq> ''''" "kApexBackupDir \<noteq> ''''"
  "kActiveApexPackagesDataDir \<noteq> kApexBackupDir" "kApexBackupDir \<noteq> kActiveApexPackagesDataDir"
  by (simp_all add: kActiveApexPackagesDataDir_def kApexBackupDir_def)

lemma data_under [simp]:
  "under kApexDataDir kActiveApexPackagesDataDir" "under kApexDataDir kApexBackupDir"
  "under kApexDataDir kApexSessionsDir"
  by (simp_all add: under_def kApexDataDir_def kActiveApexPackagesDataDir_def kApexBackupDir_def
      kApexSessionsDir_def)

lemma dirs_apart:
  "under kActiveApexPackagesDataDir p \<Longrightarrow> \<not> under kApexBackupDir p"
  "under kActiveApexPackagesDataDir p \<Longrightarrow> \<not> under kApexSessionsDir p"
  "under kApexBackupDir p \<Longrightarrow> \<not> under kApexSessionsDir p"
  by (auto simp: under_def kActiveApexPackagesDataDir_def kApexBackupDir_def kApexSessionsDir_def
      kApexDataDir_def prefix_def)

lemma clear_data: "clear w kApexDataDir \<Longrightarrow>
    clear w kActiveApexPackagesDataDir \<and> clear w kApexBackupDir \<and> clear w kApexSessionsDir"
  by (auto intro: clear_under)

lemma data_host: "clear w kApexDataDir \<Longrightarrow> under kApexDataDir p \<Longrightarrow> mount_over w p = None"
  by (rule clear_mount_over)

section \<open>Restoring the backup\<close>

text \<open>
  Two states a restoration can end in: the backup was moved, or it is untouched and at
  most some active packages are gone. The session files may change as well.
\<close>

definition rolled_back :: "world \<Rightarrow> path \<Rightarrow> node option" where
  "rolled_back w q =
     (if under kActiveApexPackagesDataDir q
      then map_of (fs w) (kApexBackupDir @ drop (length kActiveApexPackagesDataDir) q)
      else if under kApexBackupDir q then None else map_of (fs w) q)"

definition restored :: "world \<Rightarrow> world \<Rightarrow> bool" where
  "restored w w' \<longleftrightarrow> (\<forall>q. \<not> under kApexSessionsDir q \<and> q \<noteq> kActiveApexPackagesDataDir \<longrightarrow>
       map_of (fs w') q = rolled_back w q) \<and>
     (\<exists>m. map_of (fs w') kActiveApexPackagesDataDir = Some (Directory m))"

definition backup_kept :: "world \<Rightarrow> world \<Rightarrow> bool" where
  "backup_kept w w' \<longleftrightarrow> (\<forall>q. \<not> under kApexSessionsDir q \<longrightarrow> map_of (fs w') q = map_of (fs w) q \<or>
     child_of kActiveApexPackagesDataDir q \<and> map_of (fs w') q = None)"

definition same_state :: "world \<Rightarrow> world \<Rightarrow> bool" where
  "same_state w w' \<longleftrightarrow> only_fs (\<lambda>_. True) w w'"

lemma same_state_only_fs: "only_fs R w w' \<Longrightarrow> same_state w w'"
  unfolding same_state_def by (erule only_fs_mono) simp

lemma same_state_trans: "same_state w1 w2 \<Longrightarrow> same_state w2 w3 \<Longrightarrow> same_state w1 w3"
  unfolding same_state_def by (rule only_fs_chain)

lemma same_state_fields: "same_state w w' \<Longrightarrow> mnts w' = mnts w \<and> gInFsCheckpointMode w' = gInFsCheckpointMode w \<and>
    clear w' = clear w \<and> mount_over w' = mount_over w"
  using only_fs_state [of "\<lambda>_. True" w w'] mount_over_cong [of w' w] clear_cong [of w' w]
  by (auto simp: same_state_def fun_eq_iff)

lemma rename_dir_asks_or_moves:
  assumes "sys_rename E a b w = (r, w')" and "mount_over w a = None" "mount_over w b = None"
    and "map_of (fs w) a = Some (Directory m)" "a \<noteq> b" "map_of (fs w) b \<noteq> None"
  shows "r = Inr () \<and> same_state w w' \<and> (\<forall>q. map_of (fs w') q = (if under b q then map_of (fs w) (a @ drop (length b) q)
      else if under a q then None else map_of (fs w) q)) \<or> \<not> Ok r \<and> asks w w'"
proof (cases r)
  case (Inl e)
  with assms(1) sys_rename_fail [of E a b w e w'] show ?thesis by auto
next
  case (Inr u)
  with assms(1) have ok: "sys_rename E a b w = (Inr (), w')" by simp
  note s = sys_rename_dir [OF ok assms(2-)]
  have "same_state w w'" unfolding same_state_def by (rule only_fsI) (simp_all add: s(1))
  with s(2) Inr show ?thesis by simp
qed

lemma chmod_dir:
  assumes "sys_chmod E p m w = (r, w')" and "mount_over w p = None" and "map_of (fs w) p = Some (Directory k)"
  shows "same_state w w' \<and> (\<forall>q. q \<noteq> p \<longrightarrow> map_of (fs w') q = map_of (fs w) q) \<and>
    map_of (fs w') p = Some (Directory (if Ok r then m else k))"
proof -
  have "only_fs (\<lambda>q. q = p) w w'" using sys_chmod_frame [of p w E m] assms(1) by simp
  moreover have "map_of (fs w') p = Some (Directory (if Ok r then m else k))"
    using assms by (auto simp: sys_chmod_def fs_call_eq chmod_eff_def node_at_host update_conv'
        split: option.splits sum.splits)
  ultimately show ?thesis by (auto simp: same_state_only_fs only_fs_lookup)
qed

definition elsewhere :: "world \<Rightarrow> world \<Rightarrow> bool" where
  "elsewhere w w' \<longleftrightarrow> (\<forall>q. \<not> under kActiveApexPackagesDataDir q \<and> \<not> under kApexBackupDir q \<longrightarrow>
     map_of (fs w') q = map_of (fs w) q)"

lemma restore_backup_spec:
  assumes run: "restore_backup E w = (st, w')" and c: "clear w kApexDataDir"
    and bk: "map_of (fs w) kApexBackupDir = Some (Directory bm)"
    and ac: "map_of (fs w) kActiveApexPackagesDataDir = Some (Directory am)"
  shows "same_state w w' \<and> elsewhere w w' \<and>
    (restored w w' \<and> (Ok st \<longrightarrow> map_of (fs w') kActiveApexPackagesDataDir = Some (Directory (and am 4095)))
     \<or> \<not> Ok st \<and> backup_kept w w')"
proof -
  let ?a = kActiveApexPackagesDataDir and ?b = kApexBackupDir
  have same: "same_state w v \<and> elsewhere w v \<and> backup_kept w v" if "asks w v" for v
    using that by (auto simp: backup_kept_def elsewhere_def asks_fields(1) asks_only_fs intro!: same_state_only_fs)
  obtain be w1 where p: "PathExists E ?b w = (be, w1)" by (cases "PathExists E ?b w")
  note a1 = PathExists_asks [OF p]
  obtain sd w2 where s: "sys_stat E ?a w1 = (sd, w2)" by (cases "sys_stat E ?a w1")
  note a2 = asks_trans [OF a1 sys_stat_asks [OF s]]
  obtain ds w3 where d: "DeleteDirContent E ?a w2 = (ds, w3)" by (cases "DeleteDirContent E ?a w2")
  have c2: "clear w2 ?a" using clear_data [OF c] asks_fields(5) [OF a2] by simp
  note ddc = DeleteDirContent_spec [OF d c2 data_dirs(1)]
  have s3: "same_state w w3"
    using same_state_trans [OF conjunct1 [OF same [OF a2]] same_state_only_fs [OF ddc(1)]] .
  have k3: "backup_kept w w3"
    using ddc(2) only_fs_lookup [OF ddc(1)] asks_fields(1) [OF a2] unfolding backup_kept_def by metis
  have e3: "elsewhere w w3"
    using only_fs_lookup [OF ddc(1)] asks_fields(1) [OF a2] child_under [OF data_dirs(1)]
    unfolding elsewhere_def by metis
  obtain rn w4 where r: "sys_rename E ?b ?a w3 = (rn, w4)" by (cases "sys_rename E ?b ?a w3")
  obtain ch w5 where ch: "sys_chmod E ?a (and (node_mode (projr sd)) 4095) w4 = (ch, w5)"
    by (cases "sys_chmod E ?a (and (node_mode (projr sd)) 4095) w4")
  have early: ?thesis if "be \<noteq> Inr True \<or> \<not> Ok sd"
    using that run p s same [OF a1] same [OF a2]
    by (auto simp: restore_backup_def not_Ok_iff split: sum.splits bool.splits)
  show ?thesis
  proof (cases "be = Inr True \<and> Ok sd")
    case be: True
    then obtain n where sd: "sd = Inr n" by (auto simp: Ok_iff)
    have n: "n = Directory am"
      using s sd ac data_host [OF c, of ?a] by (auto simp: sys_stat_def query_eq stat_eff_def node_at_host
          asks_fields [OF a1] split: option.splits)
    show ?thesis
    proof (cases "Ok ds")
      case False
      with run p s d be sd s3 e3 k3 show ?thesis by (simp add: restore_backup_def)
    next
      case True
      then have ds: "ds = Inr ()" by (simp add: Ok_iff)
      have f3: "map_of (fs w3) q = (if child_of ?a q then None else map_of (fs w) q)" for q
        using ddc(3) [OF ds] asks_fields(1) [OF a2] by simp
      have nb: "\<not> child_of ?a q" if "under ?b q" for q
        using that dirs_apart(1) child_under [OF data_dirs(1)] by blast
      have na: "\<not> child_of ?a ?a" by (simp add: child_of_def)
      have host: "mount_over w3 ?a = None" "mount_over w3 ?b = None"
        using same_state_fields [OF s3] data_host [OF c] by simp_all
      have "map_of (fs w3) ?b = Some (Directory bm)" "map_of (fs w3) ?a \<noteq> None"
        using f3 bk ac nb [OF under_refl] na by simp_all
      from rename_dir_asks_or_moves [OF r host(2,1) this(1) data_dirs(4) this(2)]
      show ?thesis
      proof (elim disjE)
        assume "\<not> Ok rn \<and> asks w3 w4"
        then have f: "\<not> Ok rn" and a: "asks w3 w4" by blast+
        have "same_state w w4" using same_state_trans [OF s3 same_state_only_fs [OF asks_only_fs [OF a]]] .
        moreover have "backup_kept w w4" using k3 by (simp add: backup_kept_def asks_fields(1) [OF a])
        moreover have "elsewhere w w4" using e3 by (simp add: elsewhere_def asks_fields(1) [OF a])
        ultimately show ?thesis using run p s d be sd ds r f by (auto simp: restore_backup_def not_Ok_iff)
      next
        assume mv: "rn = Inr () \<and> same_state w3 w4 \<and> (\<forall>q. map_of (fs w4) q =
          (if under ?a q then map_of (fs w3) (?b @ drop (length ?a) q)
           else if under ?b q then None else map_of (fs w3) q))"
        have f4: "map_of (fs w4) q = (if under ?a q then map_of (fs w) (?b @ drop (length ?a) q)
           else if under ?b q then None else map_of (fs w) q)" for q
        proof (cases "under ?a q")
          case True
          then have "under ?b (?b @ drop (length ?a) q)" by (rule under_swap)
          with mv True nb f3 show ?thesis by simp
        next
          case False
          then have "\<not> child_of ?a q" using child_under [OF data_dirs(1)] by blast
          with mv False f3 show ?thesis by simp
        qed
        have a4: "map_of (fs w4) ?a = Some (Directory bm)" using f4 [of ?a] bk by simp
        have s4: "same_state w w4" using s3 mv same_state_trans by blast
        have "mount_over w4 ?a = None" using same_state_fields [OF s4] data_host [OF c] by simp
        from chmod_dir [OF ch this a4] have c5: "same_state w4 w5"
          "\<forall>q. q \<noteq> ?a \<longrightarrow> map_of (fs w5) q = map_of (fs w4) q"
          "map_of (fs w5) ?a = Some (Directory (if Ok ch then and am 4095 else bm))"
          by (simp_all add: sd n)
        have "restored w w5" using c5(2,3) f4 by (simp add: restored_def rolled_back_def)
        moreover have "same_state w w5" using s4 c5(1) by (rule same_state_trans)
        moreover have "elsewhere w w5" using c5(2) f4 unfolding elsewhere_def by (metis under_refl)
        moreover have "Ok st = Ok ch" "w' = w5"
          using run p s d be sd ds r mv ch by (auto simp: restore_backup_def split: sum.splits)
        ultimately show ?thesis using c5(3) by simp
      qed
    qed
  qed (use early in blast)
qed

section \<open>Rolling a session back\<close>

lemma session_path_dirs [simp]:
  "under kApexSessionsDir (getSessionStateFilePath i)"
  "\<not> under kActiveApexPackagesDataDir (getSessionStateFilePath i)"
  "\<not> under kApexBackupDir (getSessionStateFilePath i)"
  using session_path_under [of i] dirs_apart by blast+

lemma commit_keeps:
  assumes "UpdateStateAndCommit E st s w = (r, s', w')"
  shows "same_state w w'" "s' = s\<lparr>session_state := st\<rparr>"
    and "\<not> under kApexSessionsDir q \<Longrightarrow> map_of (fs w') q = map_of (fs w) q"
proof -
  note f = UpdateStateAndCommit_frame [OF assms]
  show "same_state w w'" "s' = s\<lparr>session_state := st\<rparr>" using f by (auto intro: same_state_only_fs)
  show "map_of (fs w') q = map_of (fs w) q" if "\<not> under kApexSessionsDir q"
  proof (rule only_fs_lookup [OF conjunct1 [OF f]])
    show "q \<noteq> getSessionStateFilePath (session_id s)" using that by auto
  qed
qed

definition off_sessions :: "world \<Rightarrow> world \<Rightarrow> bool" where
  "off_sessions v w \<longleftrightarrow> (\<forall>q. \<not> under kApexSessionsDir q \<longrightarrow> map_of (fs v) q = map_of (fs w) q)"

lemma off_sessions_refl [simp]: "off_sessions w w"
  by (simp add: off_sessions_def)

lemma off_sessions_sym: "off_sessions v w \<Longrightarrow> off_sessions w v"
  by (simp add: off_sessions_def)

lemma off_sessions_commit: "UpdateStateAndCommit E st s w = (r, s', w') \<Longrightarrow> off_sessions w w'"
  unfolding off_sessions_def using commit_keeps(3) by metis

lemma off_sessions_dirs: "off_sessions v w \<Longrightarrow>
    map_of (fs v) kActiveApexPackagesDataDir = map_of (fs w) kActiveApexPackagesDataDir \<and>
    map_of (fs v) kApexBackupDir = map_of (fs w) kApexBackupDir"
  using dirs_apart(2,3) under_refl unfolding off_sessions_def by blast

lemma rolled_back_cong:
  assumes "off_sessions v w" and "\<not> under kApexSessionsDir q"
  shows "rolled_back v q = rolled_back w q"
proof (cases "under kActiveApexPackagesDataDir q")
  case True
  then have "\<not> under kApexSessionsDir (kApexBackupDir @ drop (length kActiveApexPackagesDataDir) q)"
    using dirs_apart(3) under_swap by blast
  with assms(1) True show ?thesis by (simp add: rolled_back_def off_sessions_def)
next
  case False
  with assms show ?thesis by (simp add: rolled_back_def off_sessions_def)
qed

lemma restored_cong:
  assumes "off_sessions v w" and "off_sessions v' w'"
  shows "restored v v' = restored w w'"
  using rolled_back_cong [OF assms(1)] assms(2) off_sessions_dirs [OF assms(2)]
  unfolding restored_def off_sessions_def by metis

lemma backup_kept_cong:
  assumes "off_sessions v w" and "off_sessions v' w'"
  shows "backup_kept v v' = backup_kept w w'"
  using assms unfolding backup_kept_def off_sessions_def by metis

lemma RollbackActivated_spec:
  assumes run: "RollbackActivatedSession E s w = (st, s', w')" and cp: "\<not> gInFsCheckpointMode w"
    and c: "clear w kApexDataDir"
    and bk: "map_of (fs w) kApexBackupDir = Some (Directory bm)"
    and ac: "map_of (fs w) kActiveApexPackagesDataDir = Some (Directory am)"
  shows "same_state w w' \<and> session_id s' = session_id s \<and>
    (restored w w' \<and>
       (Ok st \<longrightarrow> map_of (fs w') kActiveApexPackagesDataDir = Some (Directory (and am 4095)) \<and>
          session_state s' = ROLLED_BACK)
     \<or> \<not> Ok st \<and> backup_kept w w')"
proof -
  obtain r1 s1 w1 where u1: "UpdateStateAndCommit E ROLLBACK_IN_PROGRESS s w = (r1, s1, w1)"
    by (cases "UpdateStateAndCommit E ROLLBACK_IN_PROGRESS s w")
  note k1 = commit_keeps(1,2) [OF u1] and o1 = off_sessions_commit [OF u1]
  show ?thesis
  proof (cases r1)
    case (Inl e)
    with run cp u1 have "w' = w1" "s' = s1" "\<not> Ok st" by (auto simp: RollbackActivatedSession_def)
    moreover have "backup_kept w w1"
      using backup_kept_cong [OF off_sessions_refl off_sessions_sym [OF o1]] by (simp add: backup_kept_def)
    ultimately show ?thesis using k1 by simp
  next
    case (Inr u)
    obtain r2 w2 where rb: "restore_backup E w1 = (r2, w2)" by (cases "restore_backup E w1")
    have c1: "clear w1 kApexDataDir" and cp1: "\<not> gInFsCheckpointMode w1"
      using same_state_fields [OF k1(1)] c cp by simp_all
    from off_sessions_dirs [OF o1] bk ac have
      "map_of (fs w1) kApexBackupDir = Some (Directory bm)"
      "map_of (fs w1) kActiveApexPackagesDataDir = Some (Directory am)" by simp_all
    note sp = restore_backup_spec [OF rb c1 this]
    let ?last = "if Ok r2 then ROLLED_BACK else ROLLBACK_FAILED"
    obtain r3 s3 w3 where u3: "UpdateStateAndCommit E ?last s1 w2 = (r3, s3, w3)"
      by (cases "UpdateStateAndCommit E ?last s1 w2")
    have dr: "DoRollback E s1 w1 = (if Ok r2 then (r2, s1, w2) else (r2, s3, w3))"
      using rb cp1 u3 by (auto simp: DoRollback_def)
    have e: "s' = s3 \<and> w' = w3 \<and> Ok st = Ok r2"
    proof (cases r2)
      case Inl
      with run u1 cp dr \<open>r1 = Inr u\<close> show ?thesis by (auto simp: RollbackActivatedSession_def)
    next
      case Inr
      with run u1 cp dr u3 \<open>r1 = Inr u\<close> show ?thesis by (auto simp: RollbackActivatedSession_def)
    qed
    note k3 = commit_keeps(1,2) [OF u3] and o3 = off_sessions_commit [OF u3]
    have "same_state w w'" using k1(1) sp k3(1) e same_state_trans by blast
    moreover have "restored w1 w2 = restored w w'"
      using restored_cong [OF off_sessions_sym [OF o1] o3] e by simp
    moreover have "backup_kept w1 w2 = backup_kept w w'"
      using backup_kept_cong [OF off_sessions_sym [OF o1] o3] e by simp
    moreover have "session_id s' = session_id s" "Ok st \<Longrightarrow> session_state s' = ROLLED_BACK"
      using k1(2) k3(2) e by auto
    ultimately show ?thesis using sp off_sessions_dirs [OF o3] e by auto
  qed
qed

section \<open>When nothing fails\<close>

text \<open>An environment whose calls do not fail and that keeps its device nodes out of \<open>/data/apex\<close>.\<close>

definition healthy :: "env \<Rightarrow> bool" where
  "healthy E \<longleftrightarrow> (\<forall>h ev. fault E h ev = None) \<and> (\<forall>h p. under kApexDataDir p \<longrightarrow> \<not> dev_node E h p)"

lemma PathExists_works:
  assumes "healthy E" and "under kApexDataDir p"
  shows "\<exists>w'. PathExists E p w = (Inr (node_at w p \<noteq> None), w') \<and> asks w w'"
proof -
  have "p \<noteq> ''''" using assms(2) by (auto simp: under_def kApexDataDir_def)
  with assms show ?thesis
    by (auto simp: healthy_def PathExists_def sys_stat_def query_def stat_eff_def missing_def Let_def
        split: option.splits)
qed

lemma walk_from_works:
  "(\<And>h. fault E h (SysReadDir d) = None) \<Longrightarrow> walk_from E d fn ps s w = (x, r, w') \<Longrightarrow> r = Inr ()"
  by (induction ps arbitrary: s w) (auto simp: query_def Let_def split: prod.splits)

lemma ReadDir_works:
  assumes "\<And>h. fault E h (SysOpenDir d) = None" "\<And>h. fault E h (SysReadDir d) = None"
    and "node_at w d = Some (Directory m)"
  shows "\<exists>w'. ReadDir E d flt w = (Inr (filter (\<lambda>p. flt p (node_at w p)) (list_dir w d)), w')"
proof -
  obtain r w' where r: "ReadDir E d flt w = (r, w')" by (cases "ReadDir E d flt w")
  have "Ok r"
    using r assms
    by (auto simp: ReadDir_def WalkDir_def query_def open_dir_eff_def Let_def
        dest!: walk_from_works [OF assms(2)] split: prod.splits sum.splits)
  with ReadDir_result(2) [OF r] r show ?thesis by (auto simp: Ok_iff)
qed

lemma unlink_each_works:
  assumes nf: "\<And>h ev. fault E h ev = None"
  shows "distinct ps \<Longrightarrow> \<forall>p \<in> set ps. mount_over w p = None \<and> (\<exists>n. map_of (fs w) p = Some n \<and> \<not> is_dir n) \<Longrightarrow>
    Ok (fst (unlink_each E ps w))"
proof (induction ps arbitrary: w)
  case (Cons p ps)
  obtain r w1 where u: "sys_unlink E p w = (r, w1)" by (cases "sys_unlink E p w")
  have host: "mount_over w p = None" using Cons.prems(2) by simp
  then have r: "r = Inr ()" using sys_unlink_ok(1) [OF host, of E] Cons.prems(2) u nf by simp
  then have w1: "w1 = w\<lparr>fs := AList.delete p (fs w), hist := SysUnlink p # hist w\<rparr>"
    using sys_unlink_ok(2) [OF host] u by simp
  have "\<forall>q \<in> set ps. mount_over w1 q = None \<and> (\<exists>n. map_of (fs w1) q = Some n \<and> \<not> is_dir n)"
    using Cons.prems by (auto simp: w1 AList.delete_conv mount_over_cong [of w1 w])
  with Cons.IH [of w1] Cons.prems(1) u r show ?case by simp
qed simp

lemma DeleteDirContent_works:
  assumes nf: "\<And>h ev. fault E h ev = None" and c: "clear w d" and d: "d \<noteq> ''''"
    and dir: "map_of (fs w) d = Some (Directory m)"
    and flat: "\<forall>q n. child_of d q \<and> map_of (fs w) q = Some n \<longrightarrow> \<not> is_dir n"
  shows "\<exists>w'. DeleteDirContent E d w = (Inr (), w')"
proof -
  have host: "mount_over w d = None" using c by (auto intro: clear_mount_over)
  with dir have "node_at w d = Some (Directory m)" by (simp add: node_at_host)
  from ReadDir_works [OF nf nf this, of "\<lambda>_ _. True"] obtain w1 where
    r: "ReadDir E d (\<lambda>_ _. True) w = (Inr (list_dir w d), w1)" by auto
  note eq = asks_fields [OF ReadDir_result(1) [OF r]]
  have "Ok (fst (unlink_each E (list_dir w d) w1))"
  proof (rule unlink_each_works [OF nf])
    show "distinct (list_dir w d)" using host by (simp add: list_dir_host)
    show "\<forall>p \<in> set (list_dir w d). mount_over w1 p = None \<and> (\<exists>n. map_of (fs w1) p = Some n \<and> \<not> is_dir n)"
      using flat c child_under [OF d] by (auto simp: set_list_dir [OF host] eq intro: clear_mount_over)
  qed
  then show ?thesis using r
    by (cases "unlink_each E (list_dir w d) w1") (simp add: DeleteDirContent_def Ok_iff)
qed

text \<open>A directory that holds files only.\<close>

definition flat_dir :: "world \<Rightarrow> path \<Rightarrow> bool" where
  "flat_dir w d \<longleftrightarrow> (\<forall>q n. under d q \<and> q \<noteq> d \<and> map_of (fs w) q = Some n \<longrightarrow> child_of d q \<and> \<not> is_dir n)"

lemma dirname_active [simp]: "dirname kActiveApexPackagesDataDir = kApexDataDir"
  by (simp add: kActiveApexPackagesDataDir_def kApexDataDir_def dirname_def)

lemma restore_backup_works:
  assumes E: "healthy E" and c: "clear w kApexDataDir"
    and data: "map_of (fs w) kApexDataDir = Some (Directory dm)"
    and bk: "map_of (fs w) kApexBackupDir = Some (Directory bm)"
    and ac: "map_of (fs w) kActiveApexPackagesDataDir = Some (Directory am)"
    and fl: "flat_dir w kActiveApexPackagesDataDir"
  shows "\<exists>w'. restore_backup E w = (Inr (), w')"
proof -
  let ?a = kActiveApexPackagesDataDir and ?b = kApexBackupDir
  have nf: "fault E h ev = None" for h ev using E by (simp add: healthy_def)
  from PathExists_works [OF E data_under(2), of w] bk data_host [OF c data_under(2)] obtain w1 where
    p: "PathExists E ?b w = (Inr True, w1)" "asks w w1" by (auto simp: node_at_host)
  note eq1 = asks_fields [OF p(2)]
  have "sys_stat E ?a w1 = (Inr (Directory am), w1\<lparr>hist := SysStat ?a # hist w1\<rparr>)"
    using ac nf data_host [OF c data_under(1)] by (simp add: sys_stat_def query_def stat_eff_def eq1 node_at_host)
  then obtain w2 where s: "sys_stat E ?a w1 = (Inr (Directory am), w2)" and "asks w1 w2" by simp
  then have a2: "asks w w2" using p(2) by (blast intro: asks_trans)
  note eq2 = asks_fields [OF a2]
  have c2: "clear w2 ?a" using clear_data [OF c] by (simp add: eq2)
  have na: "\<not> child_of ?a ?a" by (simp add: child_of_def kApexDataDir_def kActiveApexPackagesDataDir_def)
  have files: "\<forall>q n. child_of ?a q \<and> map_of (fs w2) q = Some n \<longrightarrow> \<not> is_dir n"
    using fl na child_under [OF data_dirs(1)] unfolding flat_dir_def eq2(1) by metis
  have "map_of (fs w2) ?a = Some (Directory am)" using ac by (simp add: eq2)
  from DeleteDirContent_works [OF nf c2 data_dirs(1) this files]
  obtain w3 where d: "DeleteDirContent E ?a w2 = (Inr (), w3)" by blast
  note ddc = DeleteDirContent_spec [OF d c2 data_dirs(1)]
  have f3: "map_of (fs w3) q = (if child_of ?a q then None else map_of (fs w) q)" for q
    using ddc(3) by (simp add: eq2)
  have m3: "mount_over w3 q = mount_over w q" for q
    using same_state_fields [OF same_state_only_fs [OF ddc(1)]] by (simp add: eq2)
  have host: "mount_over w3 q = None" if "under kApexDataDir q" for q
    using data_host [OF c that] m3 by simp
  have nb: "\<not> child_of ?a ?b" "\<not> child_of ?a ?a" "\<not> child_of ?a kApexDataDir"
  proof -
    show "\<not> child_of ?a ?b" using dirs_apart(1) child_under [OF data_dirs(1)] under_refl by blast
    show "\<not> child_of ?a ?a" by (rule na)
    show "\<not> child_of ?a kApexDataDir" by (simp add: child_of_def kApexDataDir_def
        kActiveApexPackagesDataDir_def dirname_def)
  qed
  have "\<not> occupied w3 ?a"
  proof
    assume "occupied w3 ?a"
    then obtain q n where q: "(q, n) \<in> set (fs w3)" "q \<noteq> ?a" "under ?a q"
      by (auto simp: occupied_def list_ex_iff)
    then have "map_of (fs w3) q \<noteq> None" by (metis map_of_eq_None_iff fst_conv image_eqI)
    with f3 q fl show False unfolding flat_dir_def by (metis option.exhaust)
  qed
  moreover have "\<not> under ?b ?a" by (simp add: under_def kApexBackupDir_def kActiveApexPackagesDataDir_def)
  moreover have "node_at w3 kApexDataDir = Some (Directory dm)" "node_at w3 ?b = Some (Directory bm)"
    "node_at w3 ?a = Some (Directory am)"
    using f3 nb data bk ac host by (simp_all add: node_at_host)
  ultimately have "Ok (fst (sys_rename E ?b ?a w3))"
    using host nf by (simp add: sys_rename_def fs_call_def rename_eff_def parent_ok_def)
  then obtain w4 where r: "sys_rename E ?b ?a w3 = (Inr (), w4)"
    by (cases "sys_rename E ?b ?a w3") (auto simp: Ok_iff)
  have "map_of (fs w3) ?b = Some (Directory bm)" "map_of (fs w3) ?a \<noteq> None" using f3 nb bk ac by simp_all
  note mv = sys_rename_dir [OF r host [OF data_under(2)] host [OF data_under(1)] this(1) data_dirs(4) this(2)]
  have "map_of (fs w4) ?a = Some (Directory bm)" using mv(2) [of ?a] f3 nb bk by simp
  moreover have "mount_over w4 ?a = None" using host [OF data_under(1)] mount_over_cong [of w4 w3] mv(1) by simp
  ultimately have "Ok (fst (sys_chmod E ?a (and am 4095) w4))"
    using nf by (simp add: sys_chmod_def fs_call_def chmod_eff_def node_at_host)
  then show ?thesis using p s d r
    by (cases "sys_chmod E ?a (and am 4095) w4") (auto simp: restore_backup_def Ok_iff)
qed

lemma commit_works:
  assumes E: "healthy E" and f: "faithful_store E" and c: "clear w kApexSessionsDir"
    and d: "disk_session E w (session_id s) \<noteq> None"
  shows "\<exists>w'. UpdateStateAndCommit E st s w = (Inr (), s\<lparr>session_state := st\<rparr>, w') \<and>
    disk_session E w' (session_id s) = Some (s\<lparr>session_state := st\<rparr>) \<and> off_sessions w w'"
proof -
  obtain r s' w' where u: "UpdateStateAndCommit E st s w = (r, s', w')"
    by (cases "UpdateStateAndCommit E st s w")
  from d obtain m b where old: "map_of (fs w) (getSessionStateFilePath (session_id s)) = Some (Reg m b)"
    by (auto simp: disk_session_def split: option.splits node.splits)
  have "r = Inr ()"
    using u old E session_path_host [OF c]
    by (auto simp: UpdateStateAndCommit_def write_stream_def fs_call_def open_trunc_eff_def write_eff_def
        node_at_host update_conv' healthy_def Let_def mount_over_cong [of "w\<lparr>fs := _, hist := _\<rparr>" w]
        split: prod.splits sum.splits if_splits)
  with u UpdateStateAndCommit_law [of E w st s r s' w'] f c off_sessions_commit [OF u] show ?thesis
    by (auto simp: store_ok_def)
qed

lemma rolled_back_kept:
  assumes "backup_kept w v" and "\<not> under kApexSessionsDir q" "q \<noteq> kActiveApexPackagesDataDir"
  shows "rolled_back v q = rolled_back w q"
proof (cases "under kActiveApexPackagesDataDir q")
  case True
  then have "under kApexBackupDir (kApexBackupDir @ drop (length kActiveApexPackagesDataDir) q)"
    by (rule under_swap)
  then have "\<not> child_of kActiveApexPackagesDataDir (kApexBackupDir @ drop (length kActiveApexPackagesDataDir) q)"
    "\<not> under kApexSessionsDir (kApexBackupDir @ drop (length kActiveApexPackagesDataDir) q)"
    using dirs_apart(1,3) child_under [OF data_dirs(1)] by blast+
  with assms(1) True show ?thesis unfolding backup_kept_def rolled_back_def by auto
next
  case False
  then have "\<not> child_of kActiveApexPackagesDataDir q" using child_under [OF data_dirs(1)] by blast
  with assms False show ?thesis unfolding backup_kept_def rolled_back_def by auto
qed

lemma backup_kept_dirs:
  assumes "backup_kept w v"
  shows "map_of (fs v) kApexBackupDir = map_of (fs w) kApexBackupDir"
    and "map_of (fs v) kActiveApexPackagesDataDir = map_of (fs w) kActiveApexPackagesDataDir"
    and "map_of (fs v) kApexDataDir = map_of (fs w) kApexDataDir"
    and "flat_dir w kActiveApexPackagesDataDir \<Longrightarrow> flat_dir v kActiveApexPackagesDataDir"
proof -
  have keep: "map_of (fs v) q = map_of (fs w) q"
    if "\<not> under kApexSessionsDir q" "\<not> child_of kActiveApexPackagesDataDir q" for q
    using assms that unfolding backup_kept_def by blast
  have "\<not> under kApexSessionsDir kApexDataDir"
    by (simp add: under_def kApexSessionsDir_def kApexDataDir_def)
  then show "map_of (fs v) kApexBackupDir = map_of (fs w) kApexBackupDir"
    "map_of (fs v) kActiveApexPackagesDataDir = map_of (fs w) kActiveApexPackagesDataDir"
    "map_of (fs v) kApexDataDir = map_of (fs w) kApexDataDir"
    using dirs_apart(2,3) under_refl
    by (auto intro!: keep simp: child_of_def kApexBackupDir_def kActiveApexPackagesDataDir_def
        kApexDataDir_def dirname_def)
  show "flat_dir w kActiveApexPackagesDataDir \<Longrightarrow> flat_dir v kActiveApexPackagesDataDir"
    using assms dirs_apart(2) unfolding flat_dir_def backup_kept_def by (metis option.distinct(1))
qed

text \<open>
  How an interrupted rollback can leave its session: untouched with everything else, with an
  emptied state file, in progress, or with the state it ended in.
\<close>

definition state_emptied :: "world \<Rightarrow> int32 \<Rightarrow> bool" where
  "state_emptied w i \<longleftrightarrow> (\<exists>m. map_of (fs w) (getSessionStateFilePath i) = Some (Reg m ''''))"

lemma commit_file:
  assumes "UpdateStateAndCommit E st s w = (r, s', w')" and "clear w kApexDataDir"
    and "\<forall>x. session_parse E' (session_serialize E x) = Some x"
  shows "(\<forall>q. map_of (fs w') q = map_of (fs w) q) \<and> \<not> Ok r \<or> state_emptied w' (session_id s) \<or>
    Ok r \<and> disk_session E' w' (session_id s) = Some (s\<lparr>session_state := st\<rparr>)"
proof -
  let ?p = "getSessionStateFilePath (session_id s)"
  note f = UpdateStateAndCommit_frame [OF assms(1)]
  have host: "mount_over w ?p = None" using clear_data [OF assms(2)] session_path_host by blast
  obtain b where ws: "write_stream E ?p (session_serialize E s') w = (b, w')" and b: "Ok r = b"
    using assms(1) f by (auto simp: UpdateStateAndCommit_def Let_def split: prod.splits if_splits)
  show ?thesis
  proof (cases b)
    case True
    with write_stream_opened(1) [of E ?p "session_serialize E s'" w w'] ws host b assms(3) f show ?thesis
      by (auto simp: disk_session_def state_emptied_def)
  next
    case False
    with ws have "write_stream E ?p (session_serialize E s') w = (False, w')" by simp
    from write_stream_refused [OF this host] consider "map_of (fs w') ?p = map_of (fs w) ?p" | "state_emptied w' (session_id s)"
      unfolding state_emptied_def by blast
    then show ?thesis
    proof cases
      case 1
      then have "map_of (fs w') q = map_of (fs w) q" for q
        using only_fs_lookup [OF conjunct1 [OF f], of q] by (cases "q = ?p") auto
      with b False show ?thesis by blast
    qed blast
  qed
qed

text \<open>How an interrupted rollback can leave its session on disk.\<close>

lemma RollbackActivated_file:
  assumes run: "RollbackActivatedSession E s w = (st, s', w')" and cp: "\<not> gInFsCheckpointMode w"
    and c: "clear w kApexDataDir"
    and dirs: "map_of (fs w) kApexBackupDir = Some (Directory bm)"
      "map_of (fs w) kActiveApexPackagesDataDir = Some (Directory am)"
    and codec: "\<forall>x. session_parse E' (session_serialize E x) = Some x"
  shows "(\<forall>q. map_of (fs w') q = map_of (fs w) q) \<and> \<not> Ok st \<or> state_emptied w' (session_id s) \<or>
    disk_session E' w' (session_id s) = Some (s\<lparr>session_state := ROLLBACK_IN_PROGRESS\<rparr>) \<or>
    disk_session E' w' (session_id s) = Some (s\<lparr>session_state := ROLLED_BACK\<rparr>) \<and> restored w w' \<or>
    disk_session E' w' (session_id s) = Some (s\<lparr>session_state := ROLLBACK_FAILED\<rparr>) \<and> \<not> Ok st"
proof -
  obtain r1 s1 w1 where u1: "UpdateStateAndCommit E ROLLBACK_IN_PROGRESS s w = (r1, s1, w1)"
    by (cases "UpdateStateAndCommit E ROLLBACK_IN_PROGRESS s w")
  note k1 = commit_keeps(1,2) [OF u1] and o1 = off_sessions_commit [OF u1]
    and f1 = commit_file [OF u1 c codec]
  show ?thesis
  proof (cases r1)
    case (Inl e)
    with run cp u1 have "w' = w1" "\<not> Ok st" by (auto simp: RollbackActivatedSession_def)
    with f1 show ?thesis by blast
  next
    case (Inr u)
    with f1 have f1: "state_emptied w1 (session_id s) \<or>
        disk_session E' w1 (session_id s) = Some (s\<lparr>session_state := ROLLBACK_IN_PROGRESS\<rparr>)" by auto
    obtain r2 w2 where rb: "restore_backup E w1 = (r2, w2)" by (cases "restore_backup E w1")
    have c1: "clear w1 kApexDataDir" and cp1: "\<not> gInFsCheckpointMode w1"
      using same_state_fields [OF k1(1)] c cp by simp_all
    from off_sessions_dirs [OF o1] dirs have d1:
      "map_of (fs w1) kApexBackupDir = Some (Directory bm)"
      "map_of (fs w1) kActiveApexPackagesDataDir = Some (Directory am)" by simp_all
    note sp = restore_backup_spec [OF rb c1 this]
    have c2: "clear w2 kApexDataDir" using sp same_state_fields c1 by metis
    have "map_of (fs w2) q = map_of (fs w1) q" if "under kApexSessionsDir q" for q
      using sp dirs_apart(2,3) that unfolding elsewhere_def by blast
    then have f2: "state_emptied w2 (session_id s) \<or>
        disk_session E' w2 (session_id s) = Some (s\<lparr>session_state := ROLLBACK_IN_PROGRESS\<rparr>)"
      using f1 by (simp add: state_emptied_def disk_session_def)
    let ?last = "if Ok r2 then ROLLED_BACK else ROLLBACK_FAILED"
    obtain r3 s3 w3 where u3: "UpdateStateAndCommit E ?last s1 w2 = (r3, s3, w3)"
      by (cases "UpdateStateAndCommit E ?last s1 w2")
    have "DoRollback E s1 w1 = (if Ok r2 then (r2, s1, w2) else (r2, s3, w3))"
      using rb cp1 u3 by (auto simp: DoRollback_def)
    then have e: "w' = w3 \<and> Ok st = Ok r2"
      using run u1 cp u3 Inr by (cases r2) (auto simp: RollbackActivatedSession_def)
    from commit_file [OF u3 c2 codec] k1(2) f2 consider
      "state_emptied w' (session_id s)"
      | "disk_session E' w' (session_id s) = Some (s\<lparr>session_state := ROLLBACK_IN_PROGRESS\<rparr>)"
      | "disk_session E' w' (session_id s) = Some (s\<lparr>session_state := ?last\<rparr>)"
      using e by (auto simp: state_emptied_def disk_session_def)
    then show ?thesis
    proof cases
      case 3
      show ?thesis
      proof (cases "Ok r2")
        case True
        then have "restored w1 w2" using sp by blast
        then have "restored w w'"
          using restored_cong [OF off_sessions_sym [OF o1] off_sessions_commit [OF u3]] e by simp
        with 3 True show ?thesis by simp
      qed (use 3 e in simp)
    qed blast+
  qed
qed

text \<open>Resuming from a session that is still on disk.\<close>

lemma resumed_rollback:
  assumes first: "RollbackActivatedSession E s w = (st, s1, w1)" "\<not> gInFsCheckpointMode w"
      "clear w kApexDataDir" "map_of (fs w) kApexDataDir = Some (Directory dm)"
      "map_of (fs w) kApexBackupDir = Some (Directory bm)"
      "map_of (fs w) kActiveApexPackagesDataDir = Some (Directory am)"
      "flat_dir w kActiveApexPackagesDataDir"
    and reboot: "fs w2 = fs w1" "clear w2 kApexDataDir" "\<not> gInFsCheckpointMode w2"
    and again: "healthy E'" "faithful_store E'" "disk_session E' w2 (session_id s2) = Some s2"
  shows "\<exists>w3. ResumeRollback E' s2 w2 = (Success, s2\<lparr>session_state := ROLLED_BACK\<rparr>, w3) \<and>
    restored w w3 \<and> disk_session E' w3 (session_id s2) = Some (s2\<lparr>session_state := ROLLED_BACK\<rparr>)"
proof -
  obtain b w4 where p: "PathExists E' kApexBackupDir w2 = (Inr b, w4)" "asks w2 w4"
    and b: "b \<longleftrightarrow> map_of (fs w1) kApexBackupDir \<noteq> None"
    using PathExists_works [OF again(1) data_under(2), of w2] data_host [OF reboot(2) data_under(2)] reboot(1)
    by (auto simp: node_at_host)
  note eq = asks_fields [OF p(2)]
  have finish: "\<exists>w3. UpdateStateAndCommit E' ROLLED_BACK s2 v = (Inr (), s2\<lparr>session_state := ROLLED_BACK\<rparr>, w3) \<and>
      disk_session E' w3 (session_id s2) = Some (s2\<lparr>session_state := ROLLED_BACK\<rparr>) \<and> off_sessions v w3"
    if "clear v kApexDataDir" "disk_session E' v (session_id s2) \<noteq> None" for v
    using commit_works [OF again(1,2) _ that(2)] clear_data [OF that(1)] by blast
  have d4: "disk_session E' w4 (session_id s2) \<noteq> None" "clear w4 kApexDataDir"
    using again(3) reboot(2) by (simp_all add: disk_session_def eq)
  from RollbackActivated_spec [OF first(1-3,5,6)] consider "restored w w1" | "backup_kept w w1" by blast
  then show ?thesis
  proof cases
    case 1
    have "\<not> under kActiveApexPackagesDataDir kApexBackupDir" using dirs_apart(1) under_refl by blast
    moreover have "\<not> under kApexSessionsDir kApexBackupDir" using dirs_apart(3) under_refl by blast
    ultimately have "map_of (fs w1) kApexBackupDir = None"
      using 1 by (simp add: restored_def rolled_back_def)
    with finish [OF d4(2,1)] obtain w3 where
      u: "UpdateStateAndCommit E' ROLLED_BACK s2 w4 = (Inr (), s2\<lparr>session_state := ROLLED_BACK\<rparr>, w3)"
      "disk_session E' w3 (session_id s2) = Some (s2\<lparr>session_state := ROLLED_BACK\<rparr>)" "off_sessions w4 w3"
      by blast
    have "off_sessions w1 w3" using u(3) reboot(1) by (simp add: off_sessions_def eq)
    from restored_cong [OF off_sessions_refl this] 1 have "restored w w3" by blast
    moreover have "ResumeRollback E' s2 w2 = (Success, s2\<lparr>session_state := ROLLED_BACK\<rparr>, w3)"
      using u(1) p(1) b \<open>map_of (fs w1) kApexBackupDir = None\<close> by (simp add: ResumeRollback_def)
    ultimately show ?thesis using u(2) by blast
  next
    case 2
    note k = backup_kept_dirs [OF 2]
    have f4: "fs w4 = fs w1" using reboot(1) by (simp add: eq)
    have dirs: "map_of (fs w4) kApexDataDir = Some (Directory dm)"
      "map_of (fs w4) kApexBackupDir = Some (Directory bm)"
      "map_of (fs w4) kActiveApexPackagesDataDir = Some (Directory am)"
      using k(1-3) first(4-6) f4 by simp_all
    have "flat_dir w4 kActiveApexPackagesDataDir"
      using k(4) [OF first(7)] unfolding flat_dir_def f4 .
    note dirs = dirs this
    from restore_backup_works [OF again(1) d4(2) dirs] obtain w5 where
      rb: "restore_backup E' w4 = (Inr (), w5)" by blast
    from restore_backup_spec [OF rb d4(2) dirs(2,3)] have r5: "restored w4 w5" "same_state w4 w5" by simp_all
    have cp: "\<not> gInFsCheckpointMode w4" using reboot(3) by (simp add: eq)
    have "map_of (fs w5) q = map_of (fs w4) q" if "under kApexSessionsDir q" for q
      using restore_backup_spec [OF rb d4(2) dirs(2,3)] dirs_apart(2,3) that unfolding elsewhere_def by blast
    then have "disk_session E' w5 (session_id s2) \<noteq> None"
      using d4(1) by (simp add: disk_session_def)
    moreover have "clear w5 kApexDataDir" using same_state_fields [OF r5(2)] d4(2) by simp
    ultimately obtain w3 where
      u: "UpdateStateAndCommit E' ROLLED_BACK s2 w5 = (Inr (), s2\<lparr>session_state := ROLLED_BACK\<rparr>, w3)"
      "disk_session E' w3 (session_id s2) = Some (s2\<lparr>session_state := ROLLED_BACK\<rparr>)" "off_sessions w5 w3"
      using finish by blast
    have "rolled_back w4 q = rolled_back w q" if "\<not> under kApexSessionsDir q" "q \<noteq> kActiveApexPackagesDataDir" for q
      using rolled_back_kept [OF 2 that] unfolding rolled_back_def f4 .
    with r5(1) have "restored w w5" by (simp add: restored_def)
    with restored_cong [OF off_sessions_refl u(3)] have "restored w w3" by blast
    moreover have "DoRollback E' s2 w4 = (Success, s2, w5)" using cp rb by (simp add: DoRollback_def)
    with u(1) p(1) b dirs(2) have "ResumeRollback E' s2 w2 = (Success, s2\<lparr>session_state := ROLLED_BACK\<rparr>, w3)"
      by (simp add: ResumeRollback_def f4)
    ultimately show ?thesis using u(2) by blast
  qed
qed

section \<open>Properties\<close>

text \<open>C9. However its calls fail, rolling an activated session back outside checkpoint mode either
  moves the whole backup into the directory of active packages, whose former files are gone,
  or leaves the backup complete. It reports success only in the first case, with the
  directory's old permissions and the session marked as rolled back.
\<close>

theorem rollback_restores:
  assumes "RollbackActivatedSession E s w = (st, s', w')" and "\<not> gInFsCheckpointMode w"
    and "clear w kApexDataDir" and "map_of (fs w) kApexBackupDir = Some (Directory bm)"
    and "map_of (fs w) kActiveApexPackagesDataDir = Some (Directory am)"
  shows "(restored w w' \<or> \<not> Ok st \<and> backup_kept w w') \<and>
    (Ok st \<longrightarrow> map_of (fs w') kActiveApexPackagesDataDir = Some (Directory (and am 4095)) \<and>
       session_state s' = ROLLED_BACK)"
  using RollbackActivated_spec [OF assms] by blast

text \<open>A device with a backup, and a staged session that was activated.\<close>

definition sample_backup_world :: world where
  "sample_backup_world = sample_world\<lparr>fs := [(''/data/apex'', Directory 493),
     (''/data/apex/active'', Directory 488), (''/data/apex/active/new.apex'', Reg 420 ''new''),
     (''/data/apex/backup'', Directory 448), (''/data/apex/backup/old.apex'', Reg 420 ''old''),
     (''/data/apex/sessions'', Directory 448), (''/data/apex/sessions/1'', Directory 448),
     (''/data/apex/sessions/1/state'', Reg 384 ''1,3,0,'')]\<rparr>"

definition sample_activated :: SessionState where
  "sample_activated = \<lparr>session_id = 1, session_state = ACTIVATED, child_session_ids = []\<rparr>"

lemma sample_backup_dirs:
  "map_of (fs sample_backup_world) kApexDataDir = Some (Directory 493)"
  "map_of (fs sample_backup_world) kApexBackupDir = Some (Directory 448)"
  "map_of (fs sample_backup_world) kActiveApexPackagesDataDir = Some (Directory 488)"
  "clear sample_backup_world d" "\<not> gInFsCheckpointMode sample_backup_world"
  by (simp_all add: sample_backup_world_def kApexDataDir_def kApexBackupDir_def
      kActiveApexPackagesDataDir_def sample_world_def clear_def)

theorem rollback_restores_witness:
  "\<exists>w'. RollbackActivatedSession sample_env sample_activated sample_backup_world =
       (Success, sample_activated\<lparr>session_state := ROLLED_BACK\<rparr>, w') \<and>
     restored sample_backup_world w' \<and>
     map_of (fs w') kActiveApexPackagesDataDir = Some (Directory (and 488 4095))"
proof -
  let ?r = "RollbackActivatedSession sample_env sample_activated sample_backup_world"
  have "Ok (fst ?r) \<and> fst (snd ?r) = sample_activated\<lparr>session_state := ROLLED_BACK\<rparr>" by code_simp
  then obtain w' where r: "?r = (Success, sample_activated\<lparr>session_state := ROLLED_BACK\<rparr>, w')"
    by (cases ?r) (auto simp: Ok_iff)
  from rollback_restores [OF r sample_backup_dirs(5,4,2,3)] r show ?thesis by simp
qed

text \<open>C2. Outside checkpoint mode, with a backup and a directory of active packages that holds files
  only, let the calls of a rollback fail from some point on or here and there, by an error, a
  crash or a loss of power, and the device restart. Then nothing was done; or the session's state
  file is empty, because a commit was torn, and the session is lost; or the session is marked
  as rolled back, with the backup in place; or, after an error, as failed, which is final; or
  it is still marked as being rolled back. In this last case, resuming the rollback where
  nothing fails succeeds, brings the backup that existed before the first attempt into place,
  whether or not the first attempt had moved it already, and records the session as rolled
  back. In every case the backup is in place or complete after the restart.
\<close>

theorem rollback_resumes:
  assumes first: "RollbackActivatedSession E s w = (st, s1, w1)" "\<not> gInFsCheckpointMode w"
      "clear w kApexDataDir" "map_of (fs w) kApexDataDir = Some (Directory dm)"
      "map_of (fs w) kApexBackupDir = Some (Directory bm)"
      "map_of (fs w) kActiveApexPackagesDataDir = Some (Directory am)"
      "flat_dir w kActiveApexPackagesDataDir"
    and reboot: "fs w2 = fs w1" "clear w2 kApexDataDir" "\<not> gInFsCheckpointMode w2"
    and again: "healthy E'" "faithful_store E'" "\<forall>x. session_parse E' (session_serialize E x) = Some x"
  shows "(restored w w2 \<or> \<not> Ok st \<and> backup_kept w w2) \<and>
    ((\<forall>q. map_of (fs w2) q = map_of (fs w) q) \<and> \<not> Ok st \<or> state_emptied w2 (session_id s) \<or>
     disk_session E' w2 (session_id s) = Some (s\<lparr>session_state := ROLLED_BACK\<rparr>) \<and> restored w w2 \<or>
     disk_session E' w2 (session_id s) = Some (s\<lparr>session_state := ROLLBACK_FAILED\<rparr>) \<and> \<not> Ok st \<or>
     disk_session E' w2 (session_id s) = Some (s\<lparr>session_state := ROLLBACK_IN_PROGRESS\<rparr>)) \<and>
    (disk_session E' w2 (session_id s) = Some (s\<lparr>session_state := ROLLBACK_IN_PROGRESS\<rparr>) \<longrightarrow>
      (\<exists>w3. ResumeRollback E' (s\<lparr>session_state := ROLLBACK_IN_PROGRESS\<rparr>) w2 =
          (Success, s\<lparr>session_state := ROLLED_BACK\<rparr>, w3) \<and>
        restored w w3 \<and> disk_session E' w3 (session_id s) = Some (s\<lparr>session_state := ROLLED_BACK\<rparr>)))"
proof (intro conjI impI)
  have eq: "restored w w2 = restored w w1" "backup_kept w w2 = backup_kept w w1"
    "disk_session E' w2 i = disk_session E' w1 i" "state_emptied w2 i = state_emptied w1 i" for i
    using reboot(1) by (simp_all add: restored_def backup_kept_def disk_session_def state_emptied_def)
  show "restored w w2 \<or> \<not> Ok st \<and> backup_kept w w2"
    using RollbackActivated_spec [OF first(1-3,5,6)] eq by blast
  show "(\<forall>q. map_of (fs w2) q = map_of (fs w) q) \<and> \<not> Ok st \<or> state_emptied w2 (session_id s) \<or>
     disk_session E' w2 (session_id s) = Some (s\<lparr>session_state := ROLLED_BACK\<rparr>) \<and> restored w w2 \<or>
     disk_session E' w2 (session_id s) = Some (s\<lparr>session_state := ROLLBACK_FAILED\<rparr>) \<and> \<not> Ok st \<or>
     disk_session E' w2 (session_id s) = Some (s\<lparr>session_state := ROLLBACK_IN_PROGRESS\<rparr>)"
    unfolding reboot(1) eq using RollbackActivated_file [OF first(1-3,5,6) again(3)] by blast
  assume "disk_session E' w2 (session_id s) = Some (s\<lparr>session_state := ROLLBACK_IN_PROGRESS\<rparr>)"
  then have "disk_session E' w2 (session_id (s\<lparr>session_state := ROLLBACK_IN_PROGRESS\<rparr>)) =
      Some (s\<lparr>session_state := ROLLBACK_IN_PROGRESS\<rparr>)" by simp
  from resumed_rollback [OF first reboot again(1,2) this]
  show "\<exists>w3. ResumeRollback E' (s\<lparr>session_state := ROLLBACK_IN_PROGRESS\<rparr>) w2 =
          (Success, s\<lparr>session_state := ROLLED_BACK\<rparr>, w3) \<and>
        restored w w3 \<and> disk_session E' w3 (session_id s) = Some (s\<lparr>session_state := ROLLED_BACK\<rparr>)" by simp
qed

text \<open>Power is lost right after the backup was moved.\<close>

definition sample_crash_env :: env where
  "sample_crash_env = sample_env\<lparr>fault := \<lambda>h _.
     if list_ex (\<lambda>ev. case ev of SysRename _ _ \<Rightarrow> True | _ \<Rightarrow> False) h then Some EIO else None\<rparr>"

lemma sample_healthy: "healthy sample_env"
  by (simp add: healthy_def sample_env_def)

lemma sample_backup_flat: "flat_dir sample_backup_world kActiveApexPackagesDataDir"
  by (auto simp: flat_dir_def child_of_def under_def sample_backup_world_def dirname_def
      kActiveApexPackagesDataDir_def split: if_splits)

theorem rollback_resumes_witness:
  "\<exists>w1 w3. snd (snd (RollbackActivatedSession sample_crash_env sample_activated sample_backup_world)) = w1 \<and>
     disk_session sample_env w1 1 = Some (sample_activated\<lparr>session_state := ROLLBACK_IN_PROGRESS\<rparr>) \<and>
     ResumeRollback sample_env (sample_activated\<lparr>session_state := ROLLBACK_IN_PROGRESS\<rparr>)
       (sample_world\<lparr>fs := fs w1\<rparr>) = (Success, sample_activated\<lparr>session_state := ROLLED_BACK\<rparr>, w3) \<and>
     restored sample_backup_world w3"
proof -
  let ?r = "RollbackActivatedSession sample_crash_env sample_activated sample_backup_world"
  obtain st s1 w1 where r: "?r = (st, s1, w1)" by (cases ?r)
  have "disk_session sample_env (snd (snd ?r)) 1 = Some (sample_activated\<lparr>session_state := ROLLBACK_IN_PROGRESS\<rparr>)"
    by code_simp
  then have d: "disk_session sample_env w1 1 = Some (sample_activated\<lparr>session_state := ROLLBACK_IN_PROGRESS\<rparr>)"
    using r by simp
  then have d2: "disk_session sample_env (sample_world\<lparr>fs := fs w1\<rparr>) (session_id sample_activated) =
      Some (sample_activated\<lparr>session_state := ROLLBACK_IN_PROGRESS\<rparr>)"
    by (simp add: disk_session_def sample_activated_def)
  have reboot: "fs (sample_world\<lparr>fs := fs w1\<rparr>) = fs w1" "clear (sample_world\<lparr>fs := fs w1\<rparr>) kApexDataDir"
    "\<not> gInFsCheckpointMode (sample_world\<lparr>fs := fs w1\<rparr>)" by (simp_all add: sample_world_def clear_def)
  have codec: "\<forall>x. session_parse sample_env (session_serialize sample_crash_env x) = Some x"
    using sample_faithful by (simp add: faithful_store_def sample_crash_env_def)
  from rollback_resumes [OF r sample_backup_dirs(5,4,1-3) sample_backup_flat reboot sample_healthy
      sample_faithful codec] d2 obtain w3 where
    "ResumeRollback sample_env (sample_activated\<lparr>session_state := ROLLBACK_IN_PROGRESS\<rparr>)
       (sample_world\<lparr>fs := fs w1\<rparr>) = (Success, sample_activated\<lparr>session_state := ROLLED_BACK\<rparr>, w3)"
    "restored sample_backup_world w3" by blast
  with r d show ?thesis by (intro exI [of _ w1] exI [of _ w3]) simp
qed

text \<open>C37. When the device restarts between the renaming and the restoring of the permissions, the
  resumed rollback, which finds no backup any more, succeeds and leaves the directory of
  active packages with the permissions of the backup directory.
\<close>

theorem resume_leaves_backup_mode:
  assumes "\<not> gInFsCheckpointMode w"
    and "map_of (fs w) kActiveApexPackagesDataDir = Some (Directory bm)"
    and "map_of (fs w) kApexBackupDir = None" "clear w kApexDataDir" and "healthy E"
  shows "\<exists>s' w'. ResumeRollback E s w = (Success, s', w') \<and>
    map_of (fs w') kActiveApexPackagesDataDir = Some (Directory bm)"
proof -
  from PathExists_works [OF assms(5) data_under(2), of w] assms(3) data_host [OF assms(4) data_under(2)]
  obtain w1 where p: "PathExists E kApexBackupDir w = (Inr False, w1)" "asks w w1" by (auto simp: node_at_host)
  obtain r s' w' where u: "UpdateStateAndCommit E ROLLED_BACK s w1 = (r, s', w')"
    by (cases "UpdateStateAndCommit E ROLLED_BACK s w1")
  from off_sessions_dirs [OF off_sessions_commit [OF u]] assms(2) have
    "map_of (fs w') kActiveApexPackagesDataDir = Some (Directory bm)" by (simp add: asks_fields(1) [OF p(2)])
  with p(1) u show ?thesis by (simp add: ResumeRollback_def)
qed

theorem resume_leaves_backup_mode_witness:
  "\<exists>s' w'. ResumeRollback sample_env sample_activated (sample_world\<lparr>fs :=
       [(''/data/apex'', Directory 493), (''/data/apex/active'', Directory 448)]\<rparr>) = (Success, s', w') \<and>
     map_of (fs w') kActiveApexPackagesDataDir = Some (Directory 448)"
  by (rule resume_leaves_backup_mode)
    (simp_all add: sample_world_def kActiveApexPackagesDataDir_def kApexBackupDir_def clear_def sample_healthy)

section \<open>The backup\<close>

lemma backup_path_under: "under kApexBackupDir (backup_path a)" "backup_path a \<noteq> kApexBackupDir"
  by (simp_all add: backup_path_def)

definition backed_up :: "env \<Rightarrow> world \<Rightarrow> world \<Rightarrow> path \<Rightarrow> ApexFile \<Rightarrow> bool" where
  "backed_up E w w' p a \<longleftrightarrow> package_source E w p a \<and> node_at w p \<noteq> None \<and>
     map_of (fs w') (backup_path a) = node_at w p"

lemma backup_apart: "under kActiveApexPackagesDataDir p \<Longrightarrow>
    \<not> under kApexBackupDir p \<and> \<not> under kApexBackupDir (slash p kManifestFilename)"
  using dirs_apart(1) under_trans [of kActiveApexPackagesDataDir p "slash p kManifestFilename"] by simp

lemma backup_each_spec:
  assumes "backup_each E ps w = (st, w')" and "\<forall>p \<in> set ps. under kActiveApexPackagesDataDir p"
    and "clear w kApexDataDir"
  shows "only_fs (under kApexBackupDir) w w' \<and>
    (\<forall>q. map_of (fs w') q \<noteq> map_of (fs w) q \<longrightarrow> map_of (fs w) q = None \<and>
       (\<exists>p \<in> set ps. \<exists>a. q = backup_path a \<and> backed_up E w w' p a)) \<and>
    (Ok st \<longrightarrow> (\<forall>p \<in> set ps. \<exists>a. backed_up E w w' p a))"
  using assms
proof (induction ps arbitrary: w)
  case Nil
  then show ?case by (simp add: only_fs_refl)
next
  case (Cons p ps)
  obtain ap w1 where o: "Open E p w = (ap, w1)" by (cases "Open E p w")
  note a1 = Open_asks [OF o]
  show ?case
  proof (cases ap)
    case (Inl e)
    with Cons.prems(1) o a1 show ?thesis by (auto intro: asks_only_fs simp: asks_fields(1))
  next
    case (Inr a)
    have gp: "GetPath a = p" using Open_Inr(1) o Inr by blast
    have src: "package_source E w p a" using Open_source o Inr by blast
    obtain r2 w2 where l: "sys_link E p (backup_path a) w1 = (r2, w2)"
      by (cases "sys_link E p (backup_path a) w1")
    show ?thesis
    proof (cases r2)
      case (Inl e)
      then have "asks w1 w2" using l by (auto simp: sys_link_def fs_call_eq split: option.splits sum.splits)
      with a1 have "asks w w2" by (rule asks_trans)
      with Cons.prems(1) o \<open>ap = Inr a\<close> gp l Inl show ?thesis
        by (auto intro: asks_only_fs simp: asks_fields(1))
    next
      case (Inr u)
      have o12: "only_fs (\<lambda>q. q = backup_path a) w w2"
        using only_fs_chain [OF asks_only_fs [OF a1]] sys_link_frame [of "backup_path a" w1 E p] l by simp
      have "under kApexDataDir (backup_path a)" using backup_path_under(1) data_under(2) under_trans by blast
      then have "mount_over w1 (backup_path a) = None"
        using data_host [OF Cons.prems(3)] by (simp add: asks_fields(6) [OF a1])
      from sys_link_ok [OF l [unfolded Inr] this] obtain n where n: "node_at w p = Some n"
        "map_of (fs w) (backup_path a) = None" "map_of (fs w2) (backup_path a) = Some n"
        by (auto simp: asks_fields [OF a1])
      from Cons.prems(1) o \<open>ap = Inr a\<close> gp l Inr have rec: "backup_each E ps w2 = (st, w')" by simp
      have c2: "clear w2 kApexDataDir" using clear_only_fs [OF o12] Cons.prems(3) by simp
      have "\<forall>p \<in> set ps. under kActiveApexPackagesDataDir p" using Cons.prems(2) by simp
      note IH = Cons.IH [OF rec this c2]
      have ub: "only_fs (under kApexBackupDir) w w2" by (rule only_fs_mono [OF o12]) (simp add: backup_path_under)
      have node: "node_at w2 q = node_at w q" if "under kActiveApexPackagesDataDir q" for q
        using node_at_only_fs [OF ub] backup_apart [OF that] by blast
      have bu: "backed_up E w w' q b" if "q \<in> set ps" "backed_up E w2 w' q b" for q b
      proof -
        have q: "under kActiveApexPackagesDataDir q" using Cons.prems(2) that(1) by simp
        show ?thesis using that(2) node [OF q] backup_apart [OF q]
            package_source_kept [OF _ regs_kept_only_fs [OF ub]] unfolding backed_up_def by metis
      qed
      have IHs: "only_fs (under kApexBackupDir) w2 w'"
        "\<forall>q. map_of (fs w') q \<noteq> map_of (fs w2) q \<longrightarrow> map_of (fs w2) q = None \<and>
          (\<exists>p \<in> set ps. \<exists>a. q = backup_path a \<and> backed_up E w2 w' p a)"
        "Ok st \<longrightarrow> (\<forall>p \<in> set ps. \<exists>a. backed_up E w2 w' p a)"
        by (rule conjunct1 [OF IH], rule conjunct1 [OF conjunct2 [OF IH]], rule conjunct2 [OF conjunct2 [OF IH]])
      have kept: "map_of (fs w') q = map_of (fs w2) q" if "map_of (fs w2) q \<noteq> None" for q
        using mp [OF spec [OF IHs(2), of q]] that by argo
      have "map_of (fs w') (backup_path a) = Some n" using kept [of "backup_path a"] n(3) by simp
      with src n(1) have this_one: "backed_up E w w' p a" unfolding backed_up_def by simp
      have chg: "map_of (fs w) q = None \<and> (\<exists>p \<in> set (p # ps). \<exists>a. q = backup_path a \<and> backed_up E w w' p a)"
        if "map_of (fs w') q \<noteq> map_of (fs w) q" for q
      proof (cases "q = backup_path a")
        case True
        with n(2) this_one show ?thesis by (intro conjI bexI [of _ p] exI [of _ a]) simp_all
      next
        case False
        with only_fs_lookup [OF o12] that have "map_of (fs w') q \<noteq> map_of (fs w2) q"
          "map_of (fs w2) q = map_of (fs w) q" by simp_all
        with IHs(2) obtain q' a' where "map_of (fs w) q = None" "q' \<in> set ps" "q = backup_path a'"
          "backed_up E w2 w' q' a'" by metis
        with bu [OF this(2,4)] show ?thesis by (intro conjI bexI [of _ q'] exI [of _ a']) simp_all
      qed
      have each: "\<exists>a. backed_up E w w' q a" if "Ok st" "q \<in> set (p # ps)" for q
        using mp [OF IHs(3) that(1)] that(2) this_one bu by (metis set_ConsD)
      from chg only_fs_chain [OF ub IHs(1)] each show ?thesis by blast
    qed
  qed
qed

lemma DeleteBackup_spec:
  assumes run: "DeleteBackup E w = (Inr u, w')" and c: "clear w kApexBackupDir"
    and dir: "map_of (fs w) kApexBackupDir \<noteq> None"
    and nofault: "\<And>h. fault E h (SysStat kApexBackupDir) = None"
  shows "only_fs (child_of kApexBackupDir) w w'" "child_of kApexBackupDir q \<Longrightarrow> map_of (fs w') q = None"
proof -
  obtain be w1 where p: "PathExists E kApexBackupDir w = (be, w1)" by (cases "PathExists E kApexBackupDir w")
  note eq = asks_fields [OF PathExists_asks [OF p]]
  have "mount_over w kApexBackupDir = None" using c by (auto intro: clear_mount_over)
  then have "be \<noteq> Inr False" using PathExists_False [of E kApexBackupDir w w1] p dir nofault
    by (auto simp: node_at_host)
  with run p have d: "DeleteDirContent E kApexBackupDir w1 = (Inr u, w')"
    by (auto simp: DeleteBackup_def split: sum.splits bool.splits)
  have c1: "clear w1 kApexBackupDir" using c by (simp add: eq)
  note s = DeleteDirContent_spec [OF d c1 data_dirs(2)]
  show "only_fs (child_of kApexBackupDir) w w'"
    using only_fs_chain [OF asks_only_fs [OF PathExists_asks [OF p]] s(1)] .
  show "child_of kApexBackupDir q \<Longrightarrow> map_of (fs w') q = None" using s(3) by simp
qed

lemma apex_entry_reg: "apex_entry False q n \<longleftrightarrow> (\<exists>m c. n = Some (Reg m c)) \<and> EndsWith (basename q) kApexPackageSuffix"
  by (auto simp: apex_entry_def elim!: is_reg.elims split: option.splits)

lemma apex_file_at_child: "apex_file_at w q \<longleftrightarrow> child_of kActiveApexPackagesDataDir q \<and>
    (\<exists>m c. node_at w q = Some (Reg m c)) \<and> EndsWith (basename q) kApexPackageSuffix"
  by (auto simp: apex_file_at_def child_of_def) (simp add: dirname_def kActiveApexPackagesDataDir_def)

lemma BackupActivePackages_spec:
  assumes run: "BackupActivePackages E w = (Inr u, w')" and c: "clear w kApexDataDir"
    and ac: "map_of (fs w) kActiveApexPackagesDataDir \<noteq> None"
    and nofault: "\<And>h p. fault E h (SysStat p) = None" and dev: "\<forall>h p. under kApexDataDir p \<longrightarrow> \<not> dev_node E h p"
  shows "only_fs (under kApexBackupDir) w w'"
    and "apex_file_at w p \<Longrightarrow> \<exists>a. backed_up E w w' p a"
    and "child_of kApexBackupDir q \<Longrightarrow> map_of (fs w') q \<noteq> None \<Longrightarrow>
      \<exists>p a. apex_file_at w p \<and> q = backup_path a \<and> backed_up E w w' p a"
proof -
  let ?a = kActiveApexPackagesDataDir and ?b = kApexBackupDir
  obtain r1 w1 where c1: "createDirIfNeeded E ?b 448 w = (r1, w1)" by (cases "createDirIfNeeded E ?b 448 w")
  obtain ex w2 where pe: "PathExists E ?a w1 = (ex, w2)" by (cases "PathExists E ?a w1")
  obtain fl w3 where f: "FindApexFilesByName E ?a False w2 = (fl, w3)" by (cases "FindApexFilesByName E ?a False w2")
  obtain cl w4 where d: "DeleteBackup E w3 = (cl, w4)" by (cases "DeleteBackup E w3")
  from run c1 have r1: "r1 = Inr ()" by (cases r1) (simp_all add: BackupActivePackages_def)
  note fc = createDirIfNeeded_frame [OF c1]
  have o1: "only_fs (under ?b) w w1" by (rule only_fs_mono [OF fc]) simp
  have cw: "clear v kApexDataDir" if "same_state w v" for v using same_state_fields [OF that] c by simp
  note cw1 = cw [OF same_state_only_fs [OF o1]]
  have a_b: "\<not> under ?b ?a" using dirs_apart(1) under_refl by blast
  have "node_at w1 ?a \<noteq> None" using ac node_at_only_fs [OF o1 a_b] data_host [OF c data_under(1)]
    by (simp add: node_at_host)
  then have ex: "ex \<noteq> Inr False" using PathExists_False [OF _ data_dirs(1) nofault, of w1 w2] pe by auto
  note a3 = asks_trans [OF PathExists_asks [OF pe] FindApexFilesByName_asks [OF f]]
  note eq = asks_fields [OF a3]
  obtain st w5 where be: "backup_each E (projr fl) w4 = (st, w5)" by (cases "backup_each E (projr fl) w4")
  from run c1 r1 pe ex f d be obtain ps where
    r: "ex = Inr True" "fl = Inr ps" "cl = Inr ()" "Ok st" "w' = w5"
    by (cases ex; cases fl; cases cl; cases "Ok st")
      (auto simp: BackupActivePackages_def split: sum.splits bool.splits if_splits)
  have o3: "only_fs (under ?b) w w3" using only_fs_chain [OF o1 asks_only_fs [OF a3]] .
  have "map_of (fs w1) ?b = Some (Directory 448)"
    using createDirIfNeeded_ok [OF c1 [unfolded r1] data_host [OF c data_under(2)]] dev data_under(2) by blast
  then have bd: "map_of (fs w3) ?b \<noteq> None" by (simp add: eq)
  have c3: "clear w3 ?b" using clear_data [OF cw1] by (simp add: eq)
  note db = DeleteBackup_spec [OF d [unfolded r(3)] c3 bd nofault]
  have o4: "only_fs (under ?b) w w4"
    by (rule only_fs_chain [OF o3 only_fs_mono [OF db(1)]]) (rule child_under [OF data_dirs(2)])
  note cw4 = cw [OF same_state_only_fs [OF o4]]
  have node: "node_at v q = node_at w q" if "only_fs (under ?b) w v" "under ?a q" for v q
    using node_at_only_fs [OF that(1)] dirs_apart(1) [OF that(2)] by blast
  have "mount_over w3 ?a = None" using cw [OF same_state_only_fs [OF o3]] data_host data_under(1) by blast
  have psl: "set ps = {q. apex_file_at w q}"
  proof -
    have h1: "mount_over w1 ?a = None" using data_host [OF cw1 data_under(1)] .
    have "ps = filter (\<lambda>q. apex_entry False q (node_at w2 q)) (list_dir w2 ?a)"
      using FindApexFilesByName_Inr f r(2) by blast
    then have "q \<in> set ps \<longleftrightarrow> child_of ?a q \<and> map_of (fs w1) q \<noteq> None \<and> apex_entry False q (node_at w1 q)" for q
      using set_list_dir [OF h1] by (simp add: asks_fields [OF PathExists_asks [OF pe]])
    moreover have "node_at w1 q = node_at w q \<and> map_of (fs w1) q = node_at w q" if "child_of ?a q" for q
    proof -
      have u: "under ?a q" using child_under [OF data_dirs(1) that] .
      then have "mount_over w1 q = None" using data_host [OF cw1] data_under(1) under_trans by blast
      with node [OF o1 u] show ?thesis by (simp add: node_at_host)
    qed
    ultimately have "q \<in> set ps \<longleftrightarrow> apex_file_at w q" for q
      using apex_entry_reg apex_file_at_child by (metis option.distinct(1))
    then show ?thesis by blast
  qed
  have up: "\<forall>q \<in> set ps. under ?a q" using psl apex_file_at_under by blast
  have bk: "backed_up E w w' q b" if "under ?a q" "backed_up E w4 w' q b" for q b
    using that node [OF o4] backup_apart package_source_kept [OF _ regs_kept_only_fs [OF o4]]
    unfolding backed_up_def by metis
  have be': "backup_each E ps w4 = (st, w')" using be r(2,5) by simp
  note bs = backup_each_spec [OF be' up cw4]
  show "only_fs (under ?b) w w'" using only_fs_chain [OF o4 conjunct1 [OF bs]] .
  show "\<exists>a. backed_up E w w' p a" if "apex_file_at w p"
    using mp [OF conjunct2 [OF conjunct2 [OF bs]] r(4)] that psl bk up by blast
  show "\<exists>p a. apex_file_at w p \<and> q = backup_path a \<and> backed_up E w w' p a"
    if "child_of ?b q" "map_of (fs w') q \<noteq> None"
  proof -
    have "map_of (fs w4) q = None" using db(2) that(1) .
    with that(2) conjunct1 [OF conjunct2 [OF bs]] obtain p a where
      "p \<in> set ps" "q = backup_path a" "backed_up E w4 w' p a" by metis
    with psl bk up show ?thesis by blast
  qed
qed

lemma backup_of_stage [simp]:
  "kApexBackupDir @ drop (length kActiveApexPackagesDataDir) (StageDestPath a) = backup_path a"
  by (simp add: StageDestPath_def backup_path_def)

lemma backup_child:
  assumes "child_of kActiveApexPackagesDataDir q"
  shows "child_of kApexBackupDir (kApexBackupDir @ drop (length kActiveApexPackagesDataDir) q)"
    and "kApexBackupDir @ drop (length kActiveApexPackagesDataDir) q = backup_path a \<Longrightarrow> q = StageDestPath a"
proof -
  have "CHR ''/'' \<in> set q"
    using assms dirname_no_slash [of q] by (auto simp: child_of_def)
  then have q: "q = kActiveApexPackagesDataDir @ CHR ''/'' # basename q"
    using dirname_basename [of q] assms by (simp add: child_of_def)
  have "CHR ''/'' \<notin> set (basename q)" by (auto simp: basename_def dest: set_takeWhileD)
  then show "child_of kApexBackupDir (kApexBackupDir @ drop (length kActiveApexPackagesDataDir) q)"
    by (subst q) simp
  show "q = StageDestPath a" if "kApexBackupDir @ drop (length kActiveApexPackagesDataDir) q = backup_path a"
  proof -
    have "CHR ''/'' # basename q = drop (length kActiveApexPackagesDataDir) q" by (subst (2) q) simp
    with that q show ?thesis by (simp add: StageDestPath_def backup_path_def)
  qed
qed

text \<open>C10. What a backup saved is what a rollback brings back. If the active packages were backed up
  with success, and the backup is still as it was made when the session is rolled back with
  success, then every package that was active at the time of the backup is in the directory
  of active packages again, with the same bytes, under the name of its package id, and
  nothing else is there.
\<close>

theorem backup_survives_rollback:
  assumes backup: "BackupActivePackages E w = (Inr u, w1)" "clear w kApexDataDir"
      "map_of (fs w) kActiveApexPackagesDataDir \<noteq> None"
      "\<And>h p. fault E h (SysStat p) = None" "\<forall>h p. under kApexDataDir p \<longrightarrow> \<not> dev_node E h p"
    and between: "\<forall>q. under kApexBackupDir q \<longrightarrow> map_of (fs w2) q = map_of (fs w1) q"
      "\<not> gInFsCheckpointMode w2" "clear w2 kApexDataDir"
      "map_of (fs w2) kApexBackupDir = Some (Directory bm)"
      "map_of (fs w2) kActiveApexPackagesDataDir = Some (Directory am)"
    and undo: "RollbackActivatedSession E' s w2 = (Inr u', s', w3)"
  shows "(\<forall>p. apex_file_at w p \<longrightarrow> (\<exists>a. package_source E w p a \<and> node_at w p \<noteq> None \<and>
       map_of (fs w3) (StageDestPath a) = node_at w p)) \<and>
    (\<forall>q. child_of kActiveApexPackagesDataDir q \<and> map_of (fs w3) q \<noteq> None \<longrightarrow>
       (\<exists>p a. apex_file_at w p \<and> package_source E w p a \<and> q = StageDestPath a))"
proof -
  let ?b = "\<lambda>q. kApexBackupDir @ drop (length kActiveApexPackagesDataDir) q"
  note bs = BackupActivePackages_spec [OF backup]
  have r: "restored w2 w3" using RollbackActivated_spec [OF undo between(2-5)] by simp
  have src3: "map_of (fs w3) q = map_of (fs w1) (?b q)"
    if "under kActiveApexPackagesDataDir q" "q \<noteq> kActiveApexPackagesDataDir" for q
  proof -
    have "\<not> under kApexSessionsDir q" using dirs_apart(2) [OF that(1)] .
    then have "map_of (fs w3) q = rolled_back w2 q" using r that(2) by (simp add: restored_def)
    moreover have "under kApexBackupDir (?b q)" using under_swap [OF that(1)] .
    ultimately show ?thesis using between(1) that(1) by (simp add: rolled_back_def)
  qed
  show ?thesis
  proof (intro conjI allI impI)
    fix p assume "apex_file_at w p"
    from bs(2) [OF this] obtain a where "backed_up E w w1 p a" by blast
    moreover have "map_of (fs w3) (StageDestPath a) = map_of (fs w1) (backup_path a)" for a
      using src3 [of "StageDestPath a"] by simp
    ultimately show "\<exists>a. package_source E w p a \<and> node_at w p \<noteq> None \<and>
        map_of (fs w3) (StageDestPath a) = node_at w p" unfolding backed_up_def by metis
  next
    fix q assume q: "child_of kActiveApexPackagesDataDir q \<and> map_of (fs w3) q \<noteq> None"
    have "\<not> child_of kActiveApexPackagesDataDir kActiveApexPackagesDataDir" by (simp add: child_of_def
        kActiveApexPackagesDataDir_def dirname_def)
    with q src3 child_under [OF data_dirs(1)] have "map_of (fs w1) (?b q) \<noteq> None" by metis
    from bs(3) [OF backup_child(1) this] q obtain p a where
      "apex_file_at w p" "?b q = backup_path a" "backed_up E w w1 p a" by blast
    with backup_child(2) q show "\<exists>p a. apex_file_at w p \<and> package_source E w p a \<and> q = StageDestPath a"
      unfolding backed_up_def by blast
  qed
qed

text \<open>One active package; after the backup it is replaced, and the session rolled back.\<close>

definition sample_before :: world where
  "sample_before = sample_world\<lparr>fs := [('''', Directory 493), (''/data'', Directory 493),
     (''/data/apex'', Directory 493), (''/data/apex/active'', Directory 488),
     (''/data/apex/active/n@1.apex'', Reg 420 ''n;1;;|k''),
     (''/data/apex/sessions'', Directory 448), (''/data/apex/sessions/1'', Directory 448),
     (''/data/apex/sessions/1/state'', Reg 384 ''1,3,0,'')]\<rparr>"

theorem backup_survives_rollback_witness:
  "\<exists>w1 s' w3 a. BackupActivePackages sample_env sample_before = (Inr (), w1) \<and>
     RollbackActivatedSession sample_env sample_activated
       (w1\<lparr>fs := AList.update ''/data/apex/active/n@1.apex'' (Reg 420 ''other'') (fs w1)\<rparr>) = (Inr (), s', w3) \<and>
     map_of (fs w3) (StageDestPath a) = Some (Reg 420 ''n;1;;|k'')"
proof -
  let ?p = "''/data/apex/active/n@1.apex''"
  let ?w1 = "snd (BackupActivePackages sample_env sample_before)"
  let ?w2 = "?w1\<lparr>fs := AList.update ?p (Reg 420 ''other'') (fs ?w1)\<rparr>"
  let ?r = "RollbackActivatedSession sample_env sample_activated ?w2"
  have ok: "Ok (fst (BackupActivePackages sample_env sample_before))" by code_simp
  then have b: "BackupActivePackages sample_env sample_before = (Inr (), ?w1)"
    by (cases "BackupActivePackages sample_env sample_before") (auto simp: Ok_iff)
  have "Ok (fst ?r)" by code_simp
  then have r: "?r = (Inr (), fst (snd ?r), snd (snd ?r))" by (cases ?r) (auto simp: Ok_iff)
  have c: "clear sample_before kApexDataDir" by (simp add: sample_before_def clear_def sample_world_def)
  have ac: "map_of (fs sample_before) kActiveApexPackagesDataDir \<noteq> None" by code_simp
  have e: "fault sample_env h (SysStat p) = None" "\<forall>h p. under kApexDataDir p \<longrightarrow> \<not> dev_node sample_env h p" for h p
    by (simp_all add: sample_env_def)
  have d: "map_of (fs ?w2) kApexBackupDir = Some (Directory 448)"
    "map_of (fs ?w2) kActiveApexPackagesDataDir = Some (Directory 488)" by code_simp+
  have o: "only_fs (under kApexBackupDir) sample_before ?w1"
    by (rule BackupActivePackages_spec(1) [OF b c ac e])
  have c2: "clear ?w2 kApexDataDir" "\<not> gInFsCheckpointMode ?w2"
    using c clear_only_fs [OF o] only_fs_state [OF o] by (simp_all add: sample_before_def sample_world_def)
  have keep: "\<forall>q. under kApexBackupDir q \<longrightarrow> map_of (fs ?w2) q = map_of (fs ?w1) q"
    by (auto simp: update_conv' under_def kApexBackupDir_def)
  have "apex_file_at sample_before ?p \<and> node_at sample_before ?p = Some (Reg 420 ''n;1;;|k'')"
    by (auto simp: apex_file_at_def node_at_def mount_over_def sample_before_def sample_world_def dirname_def
        basename_def EndsWith_def suffix_def kActiveApexPackagesDataDir_def kApexPackageSuffix_def)
  with backup_survives_rollback [OF b c ac e keep c2(2,1) d r] b r show ?thesis by metis
qed

end
