(* ===== verification/Activate.thy ===== *)
theory Activate
  imports Staging Apexd_Session
begin

text \<open>
  The part of \<open>apexd/apexd.cpp\<close> that activates packages: mounting a package, showing the
  highest version at the package's active mount point, scanning a directory, deactivating a
  package, and taking away the mounts that are not the latest. \<open>None\<close> stands for a daemon
  that aborts on a failed \<open>CHECK\<close>.
\<close>

definition msg_update :: string where "msg_update = ''Failed to update package ''"
definition msg_scan :: string where "msg_scan = ''Failed to scan ''"
definition msg_activate :: string where "msg_activate = ''Failed to activate following packages : ''"

section \<open>Activating a package\<close>

text \<open>
  The callback over the mounted images of the package: is the new version the newest, is it
  mounted, and was the last image of this version that opens the latest? Versions are
  compared as \<open>uint64_t\<close>.
\<close>

fun compare_versions :: "env \<Rightarrow> uint64 \<Rightarrow> pkg_map \<Rightarrow> bool \<Rightarrow> bool \<Rightarrow> bool \<Rightarrow> world \<Rightarrow>
    bool \<times> bool \<times> bool \<times> world" where
  "compare_versions E new_version [] newest mounted_v active w = (newest, mounted_v, active, w)"
| "compare_versions E new_version ((data, latest) # ds) newest mounted_v active w =
     (let (otherApex, w1) = Open E (full_path data) w
      in case otherApex of
           Inl _ \<Rightarrow> compare_versions E new_version ds newest mounted_v active w1
         | Inr a \<Rightarrow>
             (let v = manifest_version (GetManifest a)
              in compare_versions E new_version ds
                   (newest \<and> \<not> v > new_version)
                   (mounted_v \<or> v = new_version)
                   (if v = new_version then latest else active) w1))"

definition show_latest :: "env \<Rightarrow> ApexFile \<Rightarrow> path \<Rightarrow> world \<Rightarrow> (status \<times> world) option" where
  "show_latest E apex_file mountPoint w =
     (let manifest = GetManifest apex_file;
          (update_st, w1) = BindMount E (GetActiveMountPoint manifest) mountPoint w
      in case update_st of
           Inl e \<Rightarrow> Some (Inl (WrapAt msg_update (manifest_name manifest) e), w1)
         | Inr _ \<Rightarrow>
             (case SetLatest (manifest_name manifest) (GetPath apex_file) (gMountedApexes w1) of
                None \<Rightarrow> None
              | Some db \<Rightarrow> Some (Success, w1\<lparr>gMountedApexes := db\<rparr>)))"

definition activatePackageImpl :: "env \<Rightarrow> ApexFile \<Rightarrow> world \<Rightarrow> (status \<times> world) option" where
  "activatePackageImpl E apex_file w =
     (let manifest = GetManifest apex_file
      in if gBootstrap w \<and> \<not> isBootstrapApex apex_file then Some (Success, w)
         else if \<not> kUpdatable E \<and> \<not> gBootstrap w \<and> isBootstrapApex apex_file then Some (Success, w)
         else
      (let (is_newest_version, version_found_mounted, version_found_active, w1) =
             compare_versions E (manifest_version manifest)
               (ForallMountedApexes (gMountedApexes w) (manifest_name manifest)) True False False w
       in if version_found_active then Some (Success, w1)
          else
      (let mountPoint = GetPackageMountPoint manifest
       in case (if version_found_mounted then Some (Success, w1)
                else MountPackage E apex_file mountPoint w1) of
            None \<Rightarrow> None
          | Some (Inl e, w2) \<Rightarrow> Some (Inl e, w2)
          | Some (Inr _, w2) \<Rightarrow>
              if is_newest_version then show_latest E apex_file mountPoint w2
              else Some (Success, w2))))"

definition activatePackage :: "env \<Rightarrow> path \<Rightarrow> world \<Rightarrow> (status \<times> world) option" where
  "activatePackage E path w =
     (let (apex_file, w1) = Open E path w
      in case apex_file of Inl e \<Rightarrow> Some (Inl e, w1) | Inr a \<Rightarrow> activatePackageImpl E a w1)"

definition deactivatePackage :: "env \<Rightarrow> path \<Rightarrow> world \<Rightarrow> status \<times> world" where
  "deactivatePackage E path w =
     (let (apexFile, w1) = Open E path w
      in case apexFile of Inl e \<Rightarrow> (Inl e, w1) | Inr a \<Rightarrow> UnmountPackage E a True w1)"

section \<open>Scanning a directory\<close>

fun Join :: "string list \<Rightarrow> string" where
  "Join [] = ''''"
| "Join [p] = p"
| "Join (p # ps) = p @ '','' @ Join ps"

definition activate_one :: "env \<Rightarrow> (string \<times> uint64) list \<Rightarrow> path \<Rightarrow> world \<Rightarrow> (bool \<times> world) option" where
  "activate_one E packages_with_code name w =
     (let (apex_file, w1) = Open E name w
      in case apex_file of
           Inl _ \<Rightarrow> Some (False, w1)
         | Inr a \<Rightarrow>
             (let new_version = manifest_version (GetManifest a)
              in if (case map_of packages_with_code (manifest_name (GetManifest a)) of
                       Some v \<Rightarrow> v \<ge> new_version | None \<Rightarrow> False)
                 then Some (True, w1)
                 else if \<not> kUpdatable E \<and> \<not> IsFlattened a then Some (True, w1)
                 else (case activatePackageImpl E a w1 of
                     None \<Rightarrow> None
                   | Some (res, w2) \<Rightarrow> Some (Ok res, w2))))"

fun activate_each :: "env \<Rightarrow> (string \<times> uint64) list \<Rightarrow> path list \<Rightarrow> path list \<Rightarrow> world \<Rightarrow>
    (path list \<times> world) option" where
  "activate_each E packages_with_code [] failed_pkgs w = Some (failed_pkgs, w)"
| "activate_each E packages_with_code (name # names) failed_pkgs w =
     (case activate_one E packages_with_code name w of
        None \<Rightarrow> None
      | Some (True, w1) \<Rightarrow> activate_each E packages_with_code names failed_pkgs w1
      | Some (False, w1) \<Rightarrow> activate_each E packages_with_code names (failed_pkgs @ [name]) w1)"

definition scanPackagesDirAndActivate :: "env \<Rightarrow> path \<Rightarrow> world \<Rightarrow> (status \<times> world) option" where
  "scanPackagesDirAndActivate E apex_package_dir w =
     (let (scan, w1) =
            FindApexFilesByName E apex_package_dir (isPathForBuiltinApexes apex_package_dir) w
      in case scan of
           Inl e \<Rightarrow> Some (Inl (WrapAt msg_scan apex_package_dir e), w1)
         | Inr names \<Rightarrow>
             (let (packages_with_code, w2) = GetActivePackagesMap E w1
              in case activate_each E packages_with_code names [] w2 of
                   None \<Rightarrow> None
                 | Some (failed_pkgs, w3) \<Rightarrow>
                     Some (if failed_pkgs \<noteq> [] then Inl (ErrAt msg_activate (Join failed_pkgs))
                           else Success, w3)))"

section \<open>Dangling mounts\<close>

text \<open>The database iterates in the order of the packages, as the \<open>multimap\<close> of the source does.\<close>

definition danglings :: "apex_db \<Rightarrow> (string \<times> MountedApexData) list" where
  "danglings db = map (\<lambda>(package, data, _). (package, data))
     (filter (\<lambda>(_, _, latest). \<not> latest) (ForallMountedApexesAll db))"

definition unmount_dangling :: "env \<Rightarrow> string \<Rightarrow> MountedApexData \<Rightarrow> world \<Rightarrow> world" where
  "unmount_dangling E package data w =
     (let w1 = w\<lparr>gMountedApexes := RemoveMountedApex package (full_path data) (gMountedApexes w)\<rparr>;
          w2 = snd (Unmount E data w1)
      in if StartsWith (full_path data) kActiveApexPackagesDataDir
         then snd (sys_unlink E (full_path data) w2) else w2)"

fun unmount_each :: "env \<Rightarrow> (string \<times> MountedApexData) list \<Rightarrow> world \<Rightarrow> world" where
  "unmount_each E [] w = w"
| "unmount_each E ((package, data) # ds) w = unmount_each E ds (unmount_dangling E package data w)"

definition unmountDanglingMounts :: "env \<Rightarrow> world \<Rightarrow> world" where
  "unmountDanglingMounts E w = unmount_each E (danglings (gMountedApexes w)) w"

end
