(* ===== verification/Checkpoint.thy ===== *)
theory Checkpoint
  imports Apexd_Utils
begin

text \<open>
  \<open>apexd/apexd_checkpoint.h\<close> and \<open>apexd/apexd_checkpoint_vold.cpp\<close>: file-system checkpoints,
  as the service \<open>vold\<close> offers them. The object is its flag \<open>supports_fs_checkpoints_\<close>; the
  answers of \<open>vold\<close> are parameters.
\<close>

definition msg_no_vold :: string where "msg_no_vold = ''Failed to retrieve vold service.''"
definition msg_no_checkpointing :: string where
  "msg_no_checkpointing = ''Device does not support filesystem checkpointing''"

text \<open>A binder call: did it succeed, and the value it hands back.\<close>

definition vold_call_out :: "env \<Rightarrow> vold_call \<Rightarrow> world \<Rightarrow> bool \<times> bool \<times> world" where
  "vold_call_out E c w =
     (vold_ok E (hist w) c, vold_bool E (hist w) c, w\<lparr>hist := Vold c # hist w\<rparr>)"

text \<open>The constructor keeps \<open>false\<close> when \<open>vold\<close> does not answer.\<close>

definition VoldCheckpointInterface :: "env \<Rightarrow> world \<Rightarrow> bool \<times> world" where
  "VoldCheckpointInterface E w =
     (let (isOk, supports, w1) = vold_call_out E VoldSupportsCheckpoint w in (isOk \<and> supports, w1))"

definition Create :: "env \<Rightarrow> world \<Rightarrow> bool status_or \<times> world" where
  "Create E w =
     (let (found, _, w1) = vold_call_out E VoldGetService w
      in if found then (let (supports, w2) = VoldCheckpointInterface E w1 in (Inr supports, w2))
         else (Inl (Err msg_no_vold), w1))"

definition SupportsFsCheckpoints :: "env \<Rightarrow> bool \<Rightarrow> world \<Rightarrow> bool status_or \<times> world" where
  "SupportsFsCheckpoints E supports w = (Inr supports, w)"

definition vold_query :: "env \<Rightarrow> vold_call \<Rightarrow> bool \<Rightarrow> world \<Rightarrow> bool status_or \<times> world" where
  "vold_query E c supports w =
     (if supports then
        (let (isOk, answer, w1) = vold_call_out E c w
         in (if isOk then Inr answer else Inl (Err (vold_error E (hist w) c)), w1))
      else (Inr False, w))"

definition NeedsCheckpoint :: "env \<Rightarrow> bool \<Rightarrow> world \<Rightarrow> bool status_or \<times> world" where
  "NeedsCheckpoint E supports w = vold_query E VoldNeedsCheckpoint supports w"

definition NeedsRollback :: "env \<Rightarrow> bool \<Rightarrow> world \<Rightarrow> bool status_or \<times> world" where
  "NeedsRollback E supports w = vold_query E VoldNeedsRollback supports w"

definition StartCheckpoint :: "env \<Rightarrow> int32 \<Rightarrow> bool \<Rightarrow> world \<Rightarrow> status \<times> world" where
  "StartCheckpoint E numRetries supports w =
     (if supports then
        (let (isOk, _, w1) = vold_call_out E (VoldStartCheckpoint numRetries) w
         in (if isOk then Success else Inl (Err (vold_error E (hist w) (VoldStartCheckpoint numRetries))), w1))
      else (Inl (Err msg_no_checkpointing), w))"

text \<open>The answer of \<open>abortChanges\<close> is ignored.\<close>

definition AbortChanges :: "env \<Rightarrow> string \<Rightarrow> bool \<Rightarrow> bool \<Rightarrow> world \<Rightarrow> status \<times> world" where
  "AbortChanges E msg retry supports w =
     (let (_, _, w1) = vold_call_out E (VoldAbortChanges msg retry) w in (Success, w1))"

section \<open>The interface\<close>

text \<open>
  What the daemon relies on: the service only talks to \<open>vold\<close>; one that reports no support
  for checkpoints never asks for one nor for a rollback, and starts none.
\<close>

locale checkpoint_interface =
  fixes supports_fs :: "env \<Rightarrow> 'c \<Rightarrow> world \<Rightarrow> bool status_or \<times> world"
    and needs_checkpoint :: "env \<Rightarrow> 'c \<Rightarrow> world \<Rightarrow> bool status_or \<times> world"
    and needs_rollback :: "env \<Rightarrow> 'c \<Rightarrow> world \<Rightarrow> bool status_or \<times> world"
    and start_checkpoint :: "env \<Rightarrow> int32 \<Rightarrow> 'c \<Rightarrow> world \<Rightarrow> status \<times> world"
    and abort_changes :: "env \<Rightarrow> string \<Rightarrow> bool \<Rightarrow> 'c \<Rightarrow> world \<Rightarrow> status \<times> world"
  assumes supports_pure: "\<exists>r. \<forall>w. supports_fs E c w = (r, w)"
    and asks_only: "needs_checkpoint E c w = (r, w') \<Longrightarrow> asks w w'"
      "needs_rollback E c w = (r, w') \<Longrightarrow> asks w w'"
      "start_checkpoint E n c w = (st, w') \<Longrightarrow> asks w w'"
      "abort_changes E m b c w = (st, w') \<Longrightarrow> asks w w'"
    and unsupported: "fst (supports_fs E c w) = Inr False \<Longrightarrow>
      needs_checkpoint E c w' = (Inr False, w') \<and> needs_rollback E c w' = (Inr False, w') \<and>
      \<not> Ok (fst (start_checkpoint E n c w'))"
begin

lemma checkpoint_only_if_supported:
  "Ok (fst (start_checkpoint E n c w)) \<Longrightarrow> fst (supports_fs E c v) \<noteq> Inr False"
  using unsupported by blast

lemma rollback_only_if_supported:
  "needs_rollback E c w = (Inr True, w') \<Longrightarrow> fst (supports_fs E c v) \<noteq> Inr False"
  using unsupported by fastforce

lemma mode_only_if_supported:
  "needs_checkpoint E c w = (Inr True, w') \<Longrightarrow> fst (supports_fs E c v) \<noteq> Inr False"
  using unsupported by fastforce

end

interpretation vold: checkpoint_interface SupportsFsCheckpoints NeedsCheckpoint NeedsRollback
    StartCheckpoint AbortChanges
  by unfold_locales
    (auto simp: SupportsFsCheckpoints_def NeedsCheckpoint_def NeedsRollback_def StartCheckpoint_def
      AbortChanges_def vold_query_def vold_call_out_def Let_def split: if_splits)

end
