(* ===== verification/Prepostinstall.thy ===== *)
theory Prepostinstall
  imports Staging
begin

text \<open>
  \<open>apexd/apexd_prepostinstall.cpp\<close> and the functions of \<open>apexd/apexd.cpp\<close> that call it:
  the hooks of packages that are about to be installed. The daemon mounts the packages and
  starts itself as a child, which shows the packages in a mount namespace of its own and
  becomes the hook. \<open>None\<close> stands for a process that aborts.
\<close>

definition msg_multiple_hooks :: string where
  "msg_multiple_hooks = ''Missing support for multiple ''"
definition msg_active_point :: string where "msg_active_point = ''Unable to create mount point''"

section \<open>In the daemon\<close>

text \<open>The position of the only package with a hook. The hook is a field of the manifest.\<close>

fun find_hook :: "(ApexManifest \<Rightarrow> string) \<Rightarrow> string \<Rightarrow> ApexFile list \<Rightarrow> nat \<Rightarrow> nat option \<Rightarrow> nat option status_or" where
  "find_hook fn name [] i hook_file = Inr hook_file"
| "find_hook fn name (f # files) i hook_file =
     (if fn (GetManifest f) \<noteq> '''' then
        (if hook_file \<noteq> None then Inl (ErrAt msg_multiple_hooks name)
         else find_hook fn name files (Suc i) (Some i))
      else find_hook fn name files (Suc i) hook_file)"

text \<open>The loop that mounts the packages, with what the scope guard has to undo so far.\<close>

fun mount_for_hook :: "env \<Rightarrow> ApexFile list \<Rightarrow> ApexFile list \<Rightarrow> path list \<Rightarrow> world \<Rightarrow>
    (status \<times> ApexFile list \<times> path list \<times> world) option" where
  "mount_for_hook E [] mounted_apexes activation_dirs w = Some (Success, mounted_apexes, activation_dirs, w)"
| "mount_for_hook E (apex # apexes) mounted_apexes activation_dirs w =
     (let manifest = GetManifest apex;
          is_mounted = IsMounted (gMountedApexes w) (manifest_name manifest) (GetPath apex)
      in case (if is_mounted then Some (Success, w)
               else MountPackage E apex (GetPackageMountPoint manifest) w) of
           None \<Rightarrow> None
         | Some (Inl e, w1) \<Rightarrow> Some (Inl e, mounted_apexes, activation_dirs, w1)
         | Some (Inr _, w1) \<Rightarrow>
             (let mounted_apexes = (if is_mounted then mounted_apexes else mounted_apexes @ [apex]);
                  active_point = GetActiveMountPoint manifest;
                  (r, w2) = sys_mkdir E active_point kMkdirMode w1
              in case r of
                   Inr _ \<Rightarrow> mount_for_hook E apexes mounted_apexes (activation_dirs @ [active_point]) w2
                 | Inl e \<Rightarrow>
                     if e \<noteq> EEXIST
                     then Some (Inl (PErr msg_active_point active_point e), mounted_apexes, activation_dirs, w2)
                     else mount_for_hook E apexes mounted_apexes activation_dirs w2))"

fun unmount_packages :: "env \<Rightarrow> ApexFile list \<Rightarrow> world \<Rightarrow> world" where
  "unmount_packages E [] w = w"
| "unmount_packages E (f # files) w = unmount_packages E files (snd (private_UnmountPackage E f w))"

fun rmdir_each :: "env \<Rightarrow> path list \<Rightarrow> world \<Rightarrow> world" where
  "rmdir_each E [] w = w"
| "rmdir_each E (p # ps) w = rmdir_each E ps (snd (sys_rmdir E p w))"

definition preinstall_guard :: "env \<Rightarrow> ApexFile list \<Rightarrow> path list \<Rightarrow> world \<Rightarrow> world" where
  "preinstall_guard E mounted_apexes activation_dirs w =
     rmdir_each E activation_dirs (unmount_packages E mounted_apexes w)"

definition hook_args :: "string \<Rightarrow> ApexFile list \<Rightarrow> nat \<Rightarrow> string list" where
  "hook_args arg apexes i =
     [''/system/bin/apexd'', arg, GetPath (apexes ! i)] @
     map GetPath (take i apexes @ drop (Suc i) apexes)"

definition StageFnInstall :: "env \<Rightarrow> ApexFile list \<Rightarrow> (ApexManifest \<Rightarrow> string) \<Rightarrow> string \<Rightarrow> string \<Rightarrow> world \<Rightarrow>
    (status \<times> world) option" where
  "StageFnInstall E apexes fn arg name w =
     (case find_hook fn name apexes 0 None of
        Inl e \<Rightarrow> Some (Inl e, w)
      | Inr None \<Rightarrow> None
      | Inr (Some i) \<Rightarrow>
          (case mount_for_hook E apexes [] [] w of
             None \<Rightarrow> None
           | Some (st, mounted_apexes, activation_dirs, w1) \<Rightarrow>
               (let (st, w2) =
                      (if \<not> Ok st then (st, w1)
                       else (let (res, error_msg, w2) = ForkAndRun E (hook_args arg apexes i) w1
                             in (if res = 0 then Success
                                 else Inl (case error_msg of Some e \<Rightarrow> e | None \<Rightarrow> Err ''''), w2)))
                in Some (st, preinstall_guard E mounted_apexes activation_dirs w2))))"

definition StagePreInstall :: "env \<Rightarrow> ApexFile list \<Rightarrow> world \<Rightarrow> (status \<times> world) option" where
  "StagePreInstall E apexes w = StageFnInstall E apexes preinstallhook ''--pre-install'' ''pre-install'' w"

definition StagePostInstall :: "env \<Rightarrow> ApexFile list \<Rightarrow> world \<Rightarrow> (status \<times> world) option" where
  "StagePostInstall E apexes w = StageFnInstall E apexes postinstallhook ''--post-install'' ''post-install'' w"

section \<open>In the child\<close>

text \<open>The child exits with a code, or goes on as the hook.\<close>

datatype child = Exit int | Executes path

definition bind_for_hook :: "env \<Rightarrow> (ApexManifest \<Rightarrow> string) \<Rightarrow> path \<Rightarrow> world \<Rightarrow> (int + path \<times> string) \<times> world" where
  "bind_for_hook E fn apex w =
     (let (apex_file, w1) = Open E apex w
      in case apex_file of
           Inl _ \<Rightarrow> (Inl 202, w1)
         | Inr a \<Rightarrow>
             (let manifest = GetManifest a;
                  active_point = GetActiveMountPoint manifest;
                  (bind_status, w2) = BindMount E active_point (GetPackageMountPoint manifest) w1
              in (if Ok bind_status then Inr (active_point, fn manifest) else Inl 203, w2)))"

fun bind_each :: "env \<Rightarrow> (ApexManifest \<Rightarrow> string) \<Rightarrow> path list \<Rightarrow> world \<Rightarrow> (int + unit) \<times> world" where
  "bind_each E fn [] w = (Inr (), w)"
| "bind_each E fn (apex # apexes) w =
     (let (r, w1) = bind_for_hook E fn apex w
      in case r of Inl c \<Rightarrow> (Inl c, w1) | Inr _ \<Rightarrow> bind_each E fn apexes w1)"

definition RunFnInstall :: "env \<Rightarrow> string list \<Rightarrow> (ApexManifest \<Rightarrow> string) \<Rightarrow> world \<Rightarrow> (child \<times> world) option" where
  "RunFnInstall E in_argv fn w =
     (let (r, w1) = query E SysUnshare (\<lambda>_. Inr ()) w
      in if \<not> Ok r then Some (Exit 200, w1)
         else
      (let (r, w2) = query E (SysMount '''' ''/'') (\<lambda>_. Inr ()) w1
       in if \<not> Ok r then Some (Exit 201, w2)
          else (case drop 2 in_argv of
              [] \<Rightarrow> None
            | main # others \<Rightarrow>
                (let (r, w3) = bind_for_hook E fn main w2
                 in case r of
                      Inl c \<Rightarrow> Some (Exit c, w3)
                    | Inr (active_point, hook) \<Rightarrow>
                        (let hook_path = slash active_point hook;
                             (r, w4) = bind_each E fn others w3
                         in case r of
                              Inl c \<Rightarrow> Some (Exit c, w4)
                            | Inr _ \<Rightarrow>
                                (let (r, w5) = query E (SysExec [hook_path]) (\<lambda>_. Inr ()) w4
                                 in Some (if Ok r then Executes hook_path else Exit 204, w5)))))))"

definition RunPreInstall :: "env \<Rightarrow> string list \<Rightarrow> world \<Rightarrow> (child \<times> world) option" where
  "RunPreInstall E in_argv w = RunFnInstall E in_argv preinstallhook w"

definition RunPostInstall :: "env \<Rightarrow> string list \<Rightarrow> world \<Rightarrow> (child \<times> world) option" where
  "RunPostInstall E in_argv w = RunFnInstall E in_argv postinstallhook w"

section \<open>When hooks run\<close>

definition PrePostinstallPackages :: "ApexFile list \<Rightarrow> (ApexManifest \<Rightarrow> string) \<Rightarrow>
    (ApexFile list \<Rightarrow> world \<Rightarrow> (status \<times> world) option) \<Rightarrow> world \<Rightarrow> (status \<times> world) option" where
  "PrePostinstallPackages apexes fn call w =
     (if apexes = [] then Some (Inl (Err msg_empty_set), w)
      else if list_ex (\<lambda>a. fn (GetManifest a) \<noteq> '''') apexes then call apexes w
      else Some (Success, w))"

definition PreinstallPackages :: "env \<Rightarrow> ApexFile list \<Rightarrow> world \<Rightarrow> (status \<times> world) option" where
  "PreinstallPackages E apexes w = PrePostinstallPackages apexes preinstallhook (StagePreInstall E) w"

definition PostinstallPackages :: "env \<Rightarrow> ApexFile list \<Rightarrow> world \<Rightarrow> (status \<times> world) option" where
  "PostinstallPackages E apexes w = PrePostinstallPackages apexes postinstallhook (StagePostInstall E) w"

definition preinstallPackages :: "env \<Rightarrow> path list \<Rightarrow> world \<Rightarrow> (status \<times> world) option" where
  "preinstallPackages E paths w =
     (if paths = [] then Some (Inl (Err msg_empty_set), w)
      else HandlePackages E paths (PreinstallPackages E) w)"

definition postinstallPackages :: "env \<Rightarrow> path list \<Rightarrow> world \<Rightarrow> (status \<times> world) option" where
  "postinstallPackages E paths w =
     (if paths = [] then Some (Inl (Err msg_empty_set), w)
      else HandlePackages E paths (PostinstallPackages E) w)"

end
