(* ===== verification/Boot.thy ===== *)
theory Boot
  imports Activate Rollback Prepostinstall Checkpoint Db_Populate
begin

text \<open>
  The life of the daemon: submitting and finishing sessions, staging them at boot, the boot
  sequences and the wait for the end of the boot, from \<open>apexd/apexd.cpp\<close>,
  \<open>apexd/apexd_prop.cpp\<close> and \<open>apexd/apexd_main.cpp\<close>. \<open>None\<close> stands for a process that aborts
  or never returns.
\<close>

definition msg_not_ready :: string where "msg_not_ready = ''. Cannot mark it as ready.''"
definition msg_mark_successful :: string where "msg_mark_successful = '' as successful : ''"
definition msg_not_successful :: string where "msg_not_successful = '' can not be marked successful''"

definition kApexStatusSysprop :: string where "kApexStatusSysprop = ''apexd.status''"
definition kApexStatusStarting :: string where "kApexStatusStarting = ''starting''"
definition kApexStatusReady :: string where "kApexStatusReady = ''ready''"
definition kNumRetriesWhenCheckpointingEnabled :: int32 where "kNumRetriesWhenCheckpointingEnabled = 1"

section \<open>Staging the sessions at boot\<close>

definition dirs_to_scan :: "SessionState \<Rightarrow> path list" where
  "dirs_to_scan session =
     (if child_session_ids session = [] then [session_dir_path (session_id session)]
      else map session_dir_path (child_session_ids session))"

text \<open>One package per directory, or the scan is not successful.\<close>

fun scan_session_dirs :: "env \<Rightarrow> path list \<Rightarrow> path list \<Rightarrow> world \<Rightarrow> path list option \<times> world" where
  "scan_session_dirs E [] apexes w = (Some apexes, w)"
| "scan_session_dirs E (dir # dirs) apexes w =
     (let (scan, w1) = FindApexFilesByName E dir False w
      in case scan of
           Inl _ \<Rightarrow> (None, w1)
         | Inr [p] \<Rightarrow> scan_session_dirs E dirs (apexes @ [p]) w1
         | Inr _ \<Rightarrow> (None, w1))"

definition commit :: "env \<Rightarrow> State \<Rightarrow> SessionState \<Rightarrow> world \<Rightarrow> world" where
  "commit E state session w = snd (snd (UpdateStateAndCommit E state session w))"

definition stage_session :: "env \<Rightarrow> SessionState \<Rightarrow> world \<Rightarrow> world option" where
  "stage_session E session w =
     (let (scan, w1) = scan_session_dirs E (dirs_to_scan session) [] w
      in case scan of
           None \<Rightarrow> Some (commit E ACTIVATION_FAILED session w1)
         | Some apexes \<Rightarrow>
             (case postinstallPackages E apexes w1 of
                None \<Rightarrow> None
              | Some (Inl _, w2) \<Rightarrow> Some (commit E ACTIVATION_FAILED session w2)
              | Some (Inr _, w2) \<Rightarrow>
                  (case stagePackages E apexes w2 of
                     None \<Rightarrow> None
                   | Some (Inl _, w3) \<Rightarrow> Some (commit E ACTIVATION_FAILED session w3)
                   | Some (Inr _, w3) \<Rightarrow> Some (commit E ACTIVATED session w3))))"

fun stage_sessions :: "env \<Rightarrow> SessionState list \<Rightarrow> world \<Rightarrow> world option" where
  "stage_sessions E [] w = Some w"
| "stage_sessions E (session # ss) w =
     (case stage_session E session w of None \<Rightarrow> None | Some w1 \<Rightarrow> stage_sessions E ss w1)"

definition scanStagedSessionsDirAndStage :: "env \<Rightarrow> world \<Rightarrow> world option" where
  "scanStagedSessionsDirAndStage E w =
     (let (stagedSessions, w1) = GetSessionsInState E STAGED w in stage_sessions E stagedSessions w1)"

section \<open>Submitting and marking sessions\<close>

fun verify_session_dirs :: "env \<Rightarrow> int32 list \<Rightarrow> ApexFile list \<Rightarrow> world \<Rightarrow>
    (ApexFile list status_or \<times> world) option" where
  "verify_session_dirs E [] ret w = Some (Inr ret, w)"
| "verify_session_dirs E (sid # ids) ret w =
     (case verifySessionDir E sid w of
        None \<Rightarrow> None
      | Some (Inl e, w1) \<Rightarrow> Some (Inl e, w1)
      | Some (Inr a, w1) \<Rightarrow> verify_session_dirs E ids (ret @ [a]) w1)"

text \<open>Without a checkpoint the active packages are backed up. A null service is dereferenced.\<close>

definition start_checkpoint_or_backup :: "env \<Rightarrow> world \<Rightarrow> (status \<times> world) option" where
  "start_checkpoint_or_backup E w =
     (if gSupportsFsCheckpoints w then
        (case gVoldService w of
           None \<Rightarrow> None
         | Some service \<Rightarrow>
             (let (checkpoint_status, w1) =
                    StartCheckpoint E kNumRetriesWhenCheckpointingEnabled service w
              in if Ok checkpoint_status then Some (Success, w1)
                 else Some (BackupActivePackages E w1)))
      else Some (BackupActivePackages E w))"

definition record_session :: "env \<Rightarrow> int32 \<Rightarrow> int32 list \<Rightarrow> ApexFile list \<Rightarrow> world \<Rightarrow>
    ApexFile list status_or \<times> world" where
  "record_session E sid child_ids ret w =
     (let (session, w1) = CreateSession E sid w
      in case session of
           Inl e \<Rightarrow> (Inl e, w1)
         | Inr s \<Rightarrow>
             (let (commit_status, _, w2) =
                    UpdateStateAndCommit E VERIFIED (SetChildSessionIds child_ids s) w1
              in (case commit_status of Inl e \<Rightarrow> Inl e | Inr _ \<Rightarrow> Inr ret, w2)))"

definition submitStagedSession :: "env \<Rightarrow> int32 \<Rightarrow> int32 list \<Rightarrow> world \<Rightarrow>
    (ApexFile list status_or \<times> world) option" where
  "submitStagedSession E sid child_ids w =
     (let (cleanup_status, w1) = ClearSessions E w
      in case cleanup_status of
           Inl e \<Rightarrow> Some (Inl e, w1)
         | Inr _ \<Rightarrow>
      (case start_checkpoint_or_backup E w1 of
         None \<Rightarrow> None
       | Some (Inl e, w2) \<Rightarrow> Some (Inl e, w2)
       | Some (Inr _, w2) \<Rightarrow>
      (case verify_session_dirs E (if child_ids \<noteq> [] then child_ids else [sid]) [] w2 of
         None \<Rightarrow> None
       | Some (Inl e, w3) \<Rightarrow> Some (Inl e, w3)
       | Some (Inr ret, w3) \<Rightarrow>
      (case PreinstallPackages E ret w3 of
         None \<Rightarrow> None
       | Some (Inl e, w4) \<Rightarrow> Some (Inl e, w4)
       | Some (Inr _, w4) \<Rightarrow> Some (record_session E sid child_ids ret w4)))))"

definition markStagedSessionReady :: "env \<Rightarrow> int32 \<Rightarrow> world \<Rightarrow> status \<times> world" where
  "markStagedSessionReady E sid w =
     (let (session, w1) = GetSession E sid w
      in case session of
           Inl e \<Rightarrow> (Inl e, w1)
         | Inr s \<Rightarrow>
             if session_state s = STAGED then (Success, w1)
             else if session_state s = VERIFIED
             then (let (st, _, w2) = UpdateStateAndCommit E STAGED s w1 in (st, w2))
             else (Inl (ErrAt msg_not_ready (to_string (sint sid))), w1))"

definition markStagedSessionSuccessful :: "env \<Rightarrow> int32 \<Rightarrow> world \<Rightarrow> status \<times> world" where
  "markStagedSessionSuccessful E sid w =
     (let (session, w1) = GetSession E sid w
      in case session of
           Inl e \<Rightarrow> (Inl e, w1)
         | Inr s \<Rightarrow>
             if session_state s = SUCCESS then (Success, w1)
             else if session_state s = ACTIVATED
             then (let (cleanup_status, w2) = DeleteBackup E w1
                   in case cleanup_status of
                        Inl e \<Rightarrow> (Inl (WrapAt msg_mark_successful (show_session s) e), w2)
                      | Inr _ \<Rightarrow> (let (st, _, w3) = UpdateStateAndCommit E SUCCESS s w2 in (st, w3)))
             else (Inl (ErrAt msg_not_successful (show_session s)), w1))"

definition rollbackActiveSessionAndReboot :: "env \<Rightarrow> world \<Rightarrow> (status \<times> world) option" where
  "rollbackActiveSessionAndReboot E w =
     (let (status, w1) = rollbackActiveSession E w
      in if \<not> Ok status then Some (status, w1)
         else if gInFsCheckpointMode w1 then
           (case gVoldService w1 of
              None \<Rightarrow> None
            | Some service \<Rightarrow>
                Some (Success, Reboot (snd (AbortChanges E ''apexd_initiated'' False service w1))))
         else Some (Success, Reboot w1))"

section \<open>Boot\<close>

definition SetProperty :: "env \<Rightarrow> string \<Rightarrow> string \<Rightarrow> world \<Rightarrow> bool \<times> world" where
  "SetProperty E name value w =
     (let (r, w1) = query E (SetProp name value) (\<lambda>_. Inr ()) w in (Ok r, w1))"

definition onBootstrap :: "env \<Rightarrow> world \<Rightarrow> (int \<times> world) option" where
  "onBootstrap E w =
     (case preAllocateLoopDevices E (w\<lparr>gBootstrap := True\<rparr>) of
        None \<Rightarrow> None
      | Some (_, w1) \<Rightarrow>
          (let (status, w2) = collectApexKeys E w1
           in if \<not> Ok status then Some (1, w2)
              else (case scanPackagesDirAndActivate E kApexPackageSystemDir w2 of
                  None \<Rightarrow> None
                | Some (status, w3) \<Rightarrow> Some (if Ok status then 0 else 1, w3))))"

text \<open>Asking the checkpoint service, if there is one.\<close>

definition use_checkpoint_service :: "env \<Rightarrow> bool option \<Rightarrow> world \<Rightarrow> world" where
  "use_checkpoint_service E checkpoint_service w =
     (case checkpoint_service of
        None \<Rightarrow> w
      | Some service \<Rightarrow>
          (let (supports, w1) = SupportsFsCheckpoints E service (w\<lparr>gVoldService := Some service\<rparr>);
               w2 = (case supports of Inr b \<Rightarrow> w1\<lparr>gSupportsFsCheckpoints := b\<rparr> | Inl _ \<Rightarrow> w1)
           in if gSupportsFsCheckpoints w2 then
                (let (needs_checkpoint, w3) = NeedsCheckpoint E service w2
                 in case needs_checkpoint of Inr b \<Rightarrow> w3\<lparr>gInFsCheckpointMode := b\<rparr> | Inl _ \<Rightarrow> w3)
              else w2))"

definition rollback_if_asked :: "env \<Rightarrow> world \<Rightarrow> world option" where
  "rollback_if_asked E w =
     (if gSupportsFsCheckpoints w then
        (case gVoldService w of
           None \<Rightarrow> None
         | Some service \<Rightarrow>
             (let (needs_rollback, w1) = NeedsRollback E service w
              in if needs_rollback = Inr True then Some (snd (rollbackStagedSessionIfAny E w1))
                 else Some w1))
      else Some w)"

fun scan_builtin :: "env \<Rightarrow> path list \<Rightarrow> world \<Rightarrow> world option" where
  "scan_builtin E [] w = Some w"
| "scan_builtin E (dir # dirs) w =
     (case scanPackagesDirAndActivate E dir w of None \<Rightarrow> None | Some (_, w1) \<Rightarrow> scan_builtin E dirs w1)"

definition activate_all :: "env \<Rightarrow> world \<Rightarrow> world option" where
  "activate_all E w =
     (case scanPackagesDirAndActivate E kActiveApexPackagesDataDir w of
        None \<Rightarrow> None
      | Some (status, w1) \<Rightarrow>
          (case (if Ok status then Some (Success, w1) else rollbackActiveSessionAndReboot E w1) of
             None \<Rightarrow> None
           | Some (_, w2) \<Rightarrow> scan_builtin E kApexPackageBuiltinDirs w2))"

definition onStart :: "env \<Rightarrow> bool option \<Rightarrow> world \<Rightarrow> world option" where
  "onStart E checkpoint_service w =
     (let w1 = snd (SetProperty E kApexStatusSysprop kApexStatusStarting w);
          w2 = use_checkpoint_service E checkpoint_service w1
      in case rollback_if_asked E w2 of
           None \<Rightarrow> None
         | Some w3 \<Rightarrow>
             (let (status, w4) = collectApexKeys E w3
              in if \<not> Ok status then Some w4
                 else (case PopulateFromMounts E w4 of
                     None \<Rightarrow> None
                   | Some w5 \<Rightarrow>
                       (case scanStagedSessionsDirAndStage E w5 of
                          None \<Rightarrow> None
                        | Some w6 \<Rightarrow> activate_all E (snd (resumeRollbackIfNeeded E w6))))))"

definition onAllPackagesReady :: "env \<Rightarrow> world \<Rightarrow> world" where
  "onAllPackagesReady E w = snd (SetProperty E kApexStatusSysprop kApexStatusReady w)"

section \<open>After boot\<close>

text \<open>The loop ends when an updatable process crashes or the boot is complete.\<close>

partial_function (option) waitForBootStatus ::
    "env \<Rightarrow> (world \<Rightarrow> (status \<times> world) option) \<Rightarrow> (world \<Rightarrow> world) \<Rightarrow> world \<Rightarrow> world option" where
  "waitForBootStatus E rollback_fn complete_fn w =
     (let crashing = wait_property E (hist w) ''ro.init.updatable_crashing'' ''1'';
          w1 = w\<lparr>hist := WaitProp ''ro.init.updatable_crashing'' ''1'' # hist w\<rparr>
      in if crashing then
           (case rollback_fn w1 of
              None \<Rightarrow> None
            | Some (status, w2) \<Rightarrow> Some (if Ok status then Reboot w2 else w2))
         else
           (let completed = (property E (hist w1) ''sys.boot_completed'' = ''1'');
                w2 = w1\<lparr>hist := GetProp ''sys.boot_completed'' # hist w1\<rparr>
            in if completed then Some (complete_fn w2)
               else waitForBootStatus E rollback_fn complete_fn w2))"

declare waitForBootStatus.simps [code]

text \<open>A process returns a code, becomes a hook, or serves its callers for ever.\<close>

datatype process = Returns int | Becomes path | Serves

fun child_process :: "child \<Rightarrow> process" where
  "child_process (Exit c) = Returns c"
| "child_process (Executes p) = Becomes p"

definition HandleSubcommand :: "env \<Rightarrow> string list \<Rightarrow> world \<Rightarrow> (process \<times> world) option" where
  "HandleSubcommand E argv w =
     (if argv ! 1 = ''--pre-install''
      then map_option (\<lambda>(c, w). (child_process c, w)) (RunPreInstall E argv w)
      else if argv ! 1 = ''--post-install''
      then map_option (\<lambda>(c, w). (child_process c, w)) (RunPostInstall E argv w)
      else if argv ! 1 = ''--bootstrap''
      then map_option (\<lambda>(c, w). (Returns c, w)) (onBootstrap E w)
      else Some (Returns 1, w))"

definition apexd_main :: "env \<Rightarrow> string list \<Rightarrow> world \<Rightarrow> (process \<times> world) option" where
  "apexd_main E argv w =
     (if length argv > 1 then HandleSubcommand E argv w
      else (let (vold_service_st, w1) = Create E w;
                vold_service = (case vold_service_st of Inl _ \<Rightarrow> None | Inr s \<Rightarrow> Some s)
            in case onStart E vold_service w1 of
                 None \<Rightarrow> None
               | Some w2 \<Rightarrow>
                   (case waitForBootStatus E (rollbackActiveSessionAndReboot E)
                           (unmountDanglingMounts E) (onAllPackagesReady E w2) of
                      None \<Rightarrow> None
                    | Some w3 \<Rightarrow> Some (Serves, w3))))"

end
