(* ===== verification/Service.thy ===== *)
theory Service
  imports Boot
begin

text \<open>
  \<open>apexd/apexservice.cpp\<close>: the binder service in front of the daemon, its data, and the
  shell command and dump that print it. Out-parameters are returned; an object the caller
  passes in uninitialized is an argument. Reading a parcel is a parameter of \<open>onTransact\<close>.
\<close>

section \<open>Data of the interface\<close>

record ApexInfo =
  packageName :: string
  packagePath :: path
  versionCode :: int64
  versionName :: string
  isFactory :: bool
  isActive :: bool

record ApexSessionInfo =
  sessionId :: int32
  isUnknown :: bool
  isVerified :: bool
  isStaged :: bool
  isActivated :: bool
  isRollbackInProgress :: bool
  isActivationFailed :: bool
  isSuccess :: bool
  isRolledBack :: bool
  isRollbackFailed :: bool

datatype BinderStatus = BinderOk | EX_SECURITY string | EX_ILLEGAL_ARGUMENT error

definition of_status :: "status \<Rightarrow> BinderStatus" where
  "of_status res = (case res of Inl e \<Rightarrow> EX_ILLEGAL_ARGUMENT e | Inr _ \<Rightarrow> BinderOk)"

text \<open>\<open>android::base::GetBoolProperty\<close> with the default \<open>false\<close>.\<close>

definition GetBoolProperty :: "env \<Rightarrow> string \<Rightarrow> world \<Rightarrow> bool \<times> world" where
  "GetBoolProperty E name w =
     (property E (hist w) name \<in> set [''1'', ''y'', ''yes'', ''on'', ''true''],
      w\<lparr>hist := GetProp name # hist w\<rparr>)"

definition CheckDebuggable :: "env \<Rightarrow> string \<Rightarrow> world \<Rightarrow> BinderStatus \<times> world" where
  "CheckDebuggable E name w =
     (let (debuggable, w1) = GetBoolProperty E ''ro.debuggable'' w
      in (if \<not> debuggable then EX_SECURITY (name @ '' unavailable'') else BinderOk, w1))"

text \<open>A call that only debuggable devices offer.\<close>

definition debug_only :: "env \<Rightarrow> string \<Rightarrow> (world \<Rightarrow> (status \<times> world) option) \<Rightarrow> world \<Rightarrow>
    (BinderStatus \<times> world) option" where
  "debug_only E name call w =
     (let (debugCheck, w1) = CheckDebuggable E name w
      in if debugCheck \<noteq> BinderOk then Some (debugCheck, w1)
         else map_option (\<lambda>(res, w2). (of_status res, w2)) (call w1))"

section \<open>Changing packages\<close>

definition service_stagePackages :: "env \<Rightarrow> path list \<Rightarrow> bool \<Rightarrow> world \<Rightarrow>
    (BinderStatus \<times> bool \<times> world) option" where
  "service_stagePackages E paths aidl_return w =
     (let (debugCheck, w1) = CheckDebuggable E ''stagePackages'' w
      in if debugCheck \<noteq> BinderOk then Some (debugCheck, aidl_return, w1)
         else map_option (\<lambda>(res, w2). (of_status res, Ok res, w2)) (stagePackages E paths w1))"

definition service_stagePackage :: "env \<Rightarrow> path \<Rightarrow> bool \<Rightarrow> world \<Rightarrow>
    (BinderStatus \<times> bool \<times> world) option" where
  "service_stagePackage E packageTmpPath aidl_return w =
     (let (debugCheck, w1) = CheckDebuggable E ''stagePackage'' w
      in if debugCheck \<noteq> BinderOk then Some (debugCheck, aidl_return, w1)
         else service_stagePackages E [packageTmpPath] aidl_return w1)"

definition service_unstagePackages :: "env \<Rightarrow> path list \<Rightarrow> world \<Rightarrow> BinderStatus \<times> world" where
  "service_unstagePackages E paths w =
     (let (res, w1) = unstagePackages E paths w in (of_status res, w1))"

definition service_activatePackage :: "env \<Rightarrow> path \<Rightarrow> world \<Rightarrow> (BinderStatus \<times> world) option" where
  "service_activatePackage E path w = debug_only E ''activatePackage'' (activatePackage E path) w"

definition service_deactivatePackage :: "env \<Rightarrow> path \<Rightarrow> world \<Rightarrow> (BinderStatus \<times> world) option" where
  "service_deactivatePackage E path w =
     debug_only E ''deactivatePackage'' (\<lambda>w. Some (deactivatePackage E path w)) w"

definition service_preinstallPackages :: "env \<Rightarrow> path list \<Rightarrow> world \<Rightarrow> (BinderStatus \<times> world) option" where
  "service_preinstallPackages E paths w = debug_only E ''preinstallPackages'' (preinstallPackages E paths) w"

definition service_postinstallPackages :: "env \<Rightarrow> path list \<Rightarrow> world \<Rightarrow> (BinderStatus \<times> world) option" where
  "service_postinstallPackages E paths w = debug_only E ''postinstallPackages'' (postinstallPackages E paths) w"

section \<open>Sessions\<close>

text \<open>The version name is not filled in here.\<close>

definition submitted_info :: "ApexInfo \<Rightarrow> ApexFile \<Rightarrow> ApexInfo" where
  "submitted_info fresh package = fresh\<lparr>packageName := manifest_name (GetManifest package),
     packagePath := GetPath package, versionCode := manifest_version (GetManifest package)\<rparr>"

definition service_submitStagedSession :: "env \<Rightarrow> ApexInfo \<Rightarrow> int32 \<Rightarrow> int32 list \<Rightarrow> world \<Rightarrow>
    (ApexInfo list \<times> bool \<times> world) option" where
  "service_submitStagedSession E fresh sid child_ids w =
     map_option (\<lambda>(packages, w1). case packages of
           Inl _ \<Rightarrow> ([], False, w1)
         | Inr ps \<Rightarrow> (map (submitted_info fresh) ps, True, w1))
       (submitStagedSession E sid child_ids w)"

definition service_markStagedSessionReady :: "env \<Rightarrow> int32 \<Rightarrow> world \<Rightarrow> bool \<times> world" where
  "service_markStagedSessionReady E sid w =
     (let (success, w1) = markStagedSessionReady E sid w in (Ok success, w1))"

definition service_markStagedSessionSuccessful :: "env \<Rightarrow> int32 \<Rightarrow> world \<Rightarrow> BinderStatus \<times> world" where
  "service_markStagedSessionSuccessful E sid w =
     (let (ret, w1) = markStagedSessionSuccessful E sid w in (of_status ret, w1))"

definition ClearSessionInfo :: ApexSessionInfo where
  "ClearSessionInfo = \<lparr>sessionId = - 1, isUnknown = False, isVerified = False, isStaged = False,
     isActivated = False, isRollbackInProgress = False, isActivationFailed = False,
     isSuccess = False, isRolledBack = False, isRollbackFailed = False\<rparr>"

definition convertToApexSessionInfo :: "SessionState \<Rightarrow> ApexSessionInfo" where
  "convertToApexSessionInfo session =
     (let session_info = ClearSessionInfo\<lparr>sessionId := session_id session\<rparr>
      in case session_state session of
           VERIFIED \<Rightarrow> session_info\<lparr>isVerified := True\<rparr>
         | STAGED \<Rightarrow> session_info\<lparr>isStaged := True\<rparr>
         | ACTIVATED \<Rightarrow> session_info\<lparr>isActivated := True\<rparr>
         | ACTIVATION_FAILED \<Rightarrow> session_info\<lparr>isActivationFailed := True\<rparr>
         | SUCCESS \<Rightarrow> session_info\<lparr>isSuccess := True\<rparr>
         | ROLLBACK_IN_PROGRESS \<Rightarrow> session_info\<lparr>isRollbackInProgress := True\<rparr>
         | ROLLED_BACK \<Rightarrow> session_info\<lparr>isRolledBack := True\<rparr>
         | ROLLBACK_FAILED \<Rightarrow> session_info\<lparr>isRollbackFailed := True\<rparr>
         | _ \<Rightarrow> session_info\<lparr>isUnknown := True\<rparr>)"

definition service_getSessions :: "env \<Rightarrow> world \<Rightarrow> ApexSessionInfo list \<times> world" where
  "service_getSessions E w =
     (let (sessions, w1) = GetSessions E w in (map convertToApexSessionInfo sessions, w1))"

definition service_getStagedSessionInfo :: "env \<Rightarrow> int32 \<Rightarrow> world \<Rightarrow> ApexSessionInfo \<times> world" where
  "service_getStagedSessionInfo E sid w =
     (let (session, w1) = GetSession E sid w
      in (case session of
            Inl _ \<Rightarrow> ClearSessionInfo\<lparr>isUnknown := True\<rparr>
          | Inr s \<Rightarrow> convertToApexSessionInfo s, w1))"

definition service_abortActiveSession :: "env \<Rightarrow> world \<Rightarrow> BinderStatus \<times> world" where
  "service_abortActiveSession E w =
     (let (res, w1) = abortActiveSession E w in (of_status res, w1))"

definition service_rollbackActiveSession :: "env \<Rightarrow> world \<Rightarrow> (BinderStatus \<times> world) option" where
  "service_rollbackActiveSession E w =
     debug_only E ''rollbackActiveSession'' (\<lambda>w. Some (rollbackActiveSession E w)) w"

definition service_resumeRollbackIfNeeded :: "env \<Rightarrow> world \<Rightarrow> (BinderStatus \<times> world) option" where
  "service_resumeRollbackIfNeeded E w =
     debug_only E ''resumeRollbackIfNeeded'' (\<lambda>w. Some (resumeRollbackIfNeeded E w)) w"

section \<open>Reading packages\<close>

definition getApexInfo :: "ApexInfo \<Rightarrow> ApexFile \<Rightarrow> ApexInfo" where
  "getApexInfo fresh package = fresh\<lparr>packageName := manifest_name (GetManifest package),
     packagePath := GetPath package, versionCode := manifest_version (GetManifest package),
     versionName := versionname (GetManifest package)\<rparr>"

definition contains :: "ApexFile list \<Rightarrow> ApexFile \<Rightarrow> bool" where
  "contains list apexFile \<longleftrightarrow> list_ex (\<lambda>listFile.
     manifest_name (GetManifest apexFile) = manifest_name (GetManifest listFile) \<and>
     manifest_version (GetManifest apexFile) = manifest_version (GetManifest listFile)) list"

definition service_getActivePackages :: "env \<Rightarrow> ApexInfo \<Rightarrow> world \<Rightarrow> ApexInfo list \<times> world" where
  "service_getActivePackages E fresh w =
     (let (packages, w1) = getActivePackages E w
      in (map (\<lambda>p. (getApexInfo fresh p)\<lparr>isActive := True,
                 isFactory := isPathForBuiltinApexes (GetPath p)\<rparr>) packages, w1))"

definition service_getActivePackage :: "env \<Rightarrow> string \<Rightarrow> ApexInfo \<Rightarrow> world \<Rightarrow> ApexInfo \<times> world" where
  "service_getActivePackage E name aidl_return w =
     (let (apex, w1) = getActivePackage E name w
      in (case apex of
            Inl _ \<Rightarrow> aidl_return
          | Inr a \<Rightarrow> (getApexInfo aidl_return a)\<lparr>isActive := True,
              isFactory := isPathForBuiltinApexes (GetPath a)\<rparr>, w1))"

definition service_getAllPackages :: "env \<Rightarrow> ApexInfo \<Rightarrow> world \<Rightarrow> ApexInfo list \<times> world" where
  "service_getAllPackages E fresh w =
     (let (activePackages, w1) = getActivePackages E w;
          (factoryPackages, w2) = getFactoryPackages E w1
      in (map (\<lambda>f. (getApexInfo fresh f)\<lparr>isFactory := True, isActive := contains activePackages f\<rparr>)
            factoryPackages @
          map (\<lambda>a. (getApexInfo fresh a)\<lparr>isFactory := False, isActive := True\<rparr>)
            (filter (\<lambda>a. \<not> contains factoryPackages a) activePackages), w2))"

section \<open>Printing\<close>

definition show_bool :: "bool \<Rightarrow> string" where
  "show_bool b = (if b then ''true'' else ''false'')"

definition show_flag :: "bool \<Rightarrow> string" where
  "show_flag b = (if b then ''1'' else ''0'')"

definition endl :: string where "endl = [CHR 0x0A]"

definition toString :: "ApexInfo \<Rightarrow> string" where
  "toString package = ''Package: '' @ packageName package @
     '' Version: '' @ to_string (sint (versionCode package)) @
     '' VersionName: '' @ versionName package @
     '' Path: '' @ packagePath package @
     '' IsActive: '' @ show_bool (isActive package) @
     '' IsFactory: '' @ show_bool (isFactory package) @ endl"

definition show_child_ids :: "int32 list \<Rightarrow> string" where
  "show_child_ids child_ids =
     (if child_ids = [] then '''' else
        ''Child IDs:'' @ concat (map (\<lambda>i. '' '' @ to_string (sint i)) child_ids))"

definition show_session_line :: "SessionState \<Rightarrow> string" where
  "show_session_line session = ''Session ID: '' @ to_string (sint (session_id session)) @
     show_child_ids (child_session_ids session) @ '' State: '' @ State_Name (session_state session) @ endl"

definition show_session_info :: "ApexSessionInfo \<Rightarrow> string" where
  "show_session_info s = ''session_info: '' @ '' isUnknown: '' @ show_flag (isUnknown s) @
     '' isVerified: '' @ show_flag (isVerified s) @ '' isStaged: '' @ show_flag (isStaged s) @
     '' isActivated: '' @ show_flag (isActivated s) @
     '' isActivationFailed: '' @ show_flag (isActivationFailed s) @ endl"

text \<open>
  What is written to the descriptors \<open>out\<close> and \<open>err\<close>; how \<open>libbinder\<close> prints a status is
  left open.
\<close>

datatype shell_output = ToOut string | ToErr string | Failed string BinderStatus

text \<open>The help, after what was wrong. Two of its entries share a line.\<close>

definition print_help :: "string option \<Rightarrow> string" where
  "print_help what =
     (case what of None \<Rightarrow> '''' | Some p \<Rightarrow> p @ endl) @
     ''ApexService:'' @ endl @
     ''  help - display this help'' @ endl @
     ''  stagePackage [packagePath] - stage package from the given path'' @ endl @
     ''  stagePackages [packagePath1] ([packagePath2]...) - stage multiple packages from the given path'' @ endl @
     ''  getActivePackage [packageName] - return info for active package with given name, if present'' @ endl @
     ''  getAllPackages - return the list of all packages'' @ endl @
     ''  getActivePackages - return the list of active packages'' @ endl @
     ''  activatePackage [packagePath] - activate package from the given path'' @ endl @
     ''  deactivatePackage [packagePath] - deactivate package from the given path'' @ endl @
     ''  preinstallPackages [packagePath1] ([packagePath2]...) - run pre-install hooks of the given packages'' @ endl @
     ''  postinstallPackages [packagePath1] ([packagePath2]...) - run post-install hooks of the given packages'' @ endl @
     ''  getStagedSessionInfo [sessionId] - displays information about a given session previously submitted'' @
     ''  submitStagedSession [sessionId] - attempts to submit the installer session with given id'' @ endl"

datatype status_t = OK | BAD_VALUE | OtherStatus int32

definition service_dump :: "env \<Rightarrow> ApexInfo \<Rightarrow> world \<Rightarrow> shell_output list \<times> status_t \<times> world" where
  "service_dump E fresh w =
     (let (list, w1) = service_getActivePackages E fresh w;
          (sessions, w2) = GetSessions E w1
      in ([ToOut (''ACTIVE PACKAGES:'' @ endl)] @ map (\<lambda>i. ToOut (toString i)) list @
          [ToOut (''SESSIONS:'' @ endl)] @ map (\<lambda>s. ToOut (show_session_line s)) sessions, OK, w2))"

section \<open>The shell command\<close>

text \<open>\<open>strtol\<close> on base 10: leading space, a sign, digits; it saturates at the bounds of \<open>long\<close>.\<close>

definition is_space :: "char \<Rightarrow> bool" where
  "is_space c \<longleftrightarrow> c \<in> set [CHR '' '', CHR 0x09, CHR 0x0A, CHR 0x0B, CHR 0x0C, CHR 0x0D]"

definition is_digit :: "char \<Rightarrow> bool" where
  "is_digit c \<longleftrightarrow> (48::nat) \<le> of_char c \<and> of_char c \<le> (57::nat)"

definition strtol :: "string \<Rightarrow> int" where
  "strtol s =
     (let t = dropWhile is_space s;
          (negative, u) = (case t of c # cs \<Rightarrow> if c = CHR ''-'' then (True, cs)
                             else if c = CHR ''+'' then (False, cs) else (False, t) | [] \<Rightarrow> (False, t));
          n = int (decimal_value (takeWhile is_digit u))
      in max (- (2 ^ 63)) (min (2 ^ 63 - 1) (if negative then - n else n)))"

text \<open>\<open>int session_id = strtol(...)\<close>, and the test that guards its use.\<close>

definition parse_session_id :: "string \<Rightarrow> int32 option" where
  "parse_session_id s = (let sid = word_of_int (strtol s) in if sint sid < 0 then None else Some sid)"

definition binder_result :: "string \<Rightarrow> BinderStatus \<times> world \<Rightarrow> shell_output list \<times> status_t \<times> world" where
  "binder_result msg r = (case r of (st, w) \<Rightarrow>
     if st = BinderOk then ([], OK, w) else ([Failed msg st], BAD_VALUE, w))"

definition msg_session_id :: string where
  "msg_session_id = ''Failed to parse session id. Must be an integer.''"

definition shell_stage :: "env \<Rightarrow> string list \<Rightarrow> bool \<Rightarrow> world \<Rightarrow> (shell_output list \<times> status_t \<times> world) option" where
  "shell_stage E args ret_value w =
     (if length args < 2
      then Some ([ToErr (print_help (Some ''stagePackage(s) requires at least one packagePath''))], BAD_VALUE, w)
      else if length args \<noteq> 2 \<and> hd args = ''stagePackage''
      then Some ([ToErr (print_help (Some ''stagePackage requires one packagePath''))], BAD_VALUE, w)
      else map_option (\<lambda>(st, _, w1). binder_result ''Failed to stage package(s): '' (st, w1))
             (service_stagePackages E (tl args) ret_value w))"

definition shell_hooks :: "env \<Rightarrow> string list \<Rightarrow> world \<Rightarrow> (shell_output list \<times> status_t \<times> world) option" where
  "shell_hooks E args w =
     (if length args < 2
      then Some ([ToErr (print_help (Some ''preinstallPackages/postinstallPackages requires at least one packagePath''))], BAD_VALUE, w)
      else map_option (binder_result ''Failed to pre/postinstall package(s): '')
             (if hd args = ''preinstallPackages'' then service_preinstallPackages E (tl args) w
              else service_postinstallPackages E (tl args) w))"

definition shell_session_info :: "env \<Rightarrow> string list \<Rightarrow> world \<Rightarrow> shell_output list \<times> status_t \<times> world" where
  "shell_session_info E args w =
     (if length args \<noteq> 2
      then ([ToErr (print_help (Some ''getStagedSessionInfo requires one session id''))], BAD_VALUE, w)
      else case parse_session_id (args ! 1) of
          None \<Rightarrow> ([ToErr msg_session_id], BAD_VALUE, w)
        | Some sid \<Rightarrow>
            (let (session_info, w1) = service_getStagedSessionInfo E sid w
             in ([ToOut (show_session_info session_info)], OK, w1)))"

definition shell_submit :: "env \<Rightarrow> ApexInfo \<Rightarrow> string list \<Rightarrow> world \<Rightarrow>
    (shell_output list \<times> status_t \<times> world) option" where
  "shell_submit E fresh args w =
     (if length args \<noteq> 2
      then Some ([ToErr (print_help (Some ''submitStagedSession requires one session id''))], BAD_VALUE, w)
      else case parse_session_id (args ! 1) of
          None \<Rightarrow> Some ([ToErr msg_session_id], BAD_VALUE, w)
        | Some sid \<Rightarrow>
            map_option (\<lambda>(infos, ret_value, w1).
                (if ret_value then map (\<lambda>i. ToOut (toString i)) infos
                 else [ToOut (''Verification failed.'' @ endl)], OK, w1))
              (service_submitStagedSession E fresh sid [] w))"

definition shell_list :: "string list \<Rightarrow> (world \<Rightarrow> ApexInfo list \<times> world) \<Rightarrow> world \<Rightarrow>
    shell_output list \<times> status_t \<times> world" where
  "shell_list args call w =
     (if length args \<noteq> 1 then ([ToErr (print_help (Some ''Unrecognized options''))], BAD_VALUE, w)
      else (let (list, w1) = call w in (map (\<lambda>i. ToOut (toString i)) list, OK, w1)))"

definition shell_help :: "string list \<Rightarrow> world \<Rightarrow> shell_output list \<times> status_t \<times> world" where
  "shell_help args w =
     (if length args \<noteq> 1 then ([ToErr (print_help (Some ''Help has no options''))], BAD_VALUE, w)
      else ([ToOut (print_help None)], OK, w))"

text \<open>\<open>bad_fd\<close>: one of the descriptors is \<open>BAD_TYPE\<close>.\<close>

definition shellCommand :: "env \<Rightarrow> ApexInfo \<Rightarrow> bool \<Rightarrow> bool \<Rightarrow> string list \<Rightarrow> world \<Rightarrow>
    (shell_output list \<times> status_t \<times> world) option" where
  "shellCommand E fresh ret_value bad_fd args w =
     (if bad_fd then Some ([], BAD_VALUE, w)
      else if args = [] then Some ([ToErr (print_help (Some ''No command given''))], BAD_VALUE, w)
      else let cmd = hd args in
      if cmd = ''stagePackage'' \<or> cmd = ''stagePackages'' then shell_stage E args ret_value w
      else if cmd = ''getAllPackages'' then Some (shell_list args (service_getAllPackages E fresh) w)
      else if cmd = ''getActivePackages'' then Some (shell_list args (service_getActivePackages E fresh) w)
      else if cmd = ''getActivePackage'' then
        Some (if length args \<noteq> 2 then ([ToErr (print_help (Some ''Unrecognized options''))], BAD_VALUE, w)
              else (let (package, w1) = service_getActivePackage E (args ! 1) fresh w
                    in ([ToOut (toString package)], OK, w1)))
      else if cmd = ''activatePackage'' then
        (if length args \<noteq> 2
         then Some ([ToErr (print_help (Some ''activatePackage requires one packagePath''))], BAD_VALUE, w)
         else map_option (binder_result ''Failed to activate package: '')
                (service_activatePackage E (args ! 1) w))
      else if cmd = ''deactivatePackage'' then
        (if length args \<noteq> 2
         then Some ([ToErr (print_help (Some ''deactivatePackage requires one packagePath''))], BAD_VALUE, w)
         else map_option (binder_result ''Failed to deactivate package: '')
                (service_deactivatePackage E (args ! 1) w))
      else if cmd = ''getStagedSessionInfo'' then Some (shell_session_info E args w)
      else if cmd = ''submitStagedSession'' then shell_submit E fresh args w
      else if cmd = ''preinstallPackages'' \<or> cmd = ''postinstallPackages'' then shell_hooks E args w
      else if cmd = ''help'' then Some (shell_help args w)
      else Some ([ToErr (print_help None)], BAD_VALUE, w))"

section \<open>Transactions\<close>

text \<open>
  What \<open>onTransact\<close> uses of \<open>libbinder\<close>: reading from a parcel, which leaves the rest of it, and
  the constants. A binder that is read is known by whether it is null.
\<close>

record 'p parcel_api =
  BAD_TYPE :: int32
  SHELL_COMMAND_TRANSACTION :: uint32
  readFileDescriptor :: "'p \<Rightarrow> int32 \<times> 'p"
  readInt32 :: "'p \<Rightarrow> int32 \<times> 'p"
  readString16 :: "'p \<Rightarrow> string \<times> 'p"
  dataAvail :: "'p \<Rightarrow> nat"
  readNullableStrongBinder :: "'p \<Rightarrow> status_t \<times> bool \<times> 'p"

text \<open>\<open>for (int i = 0; i < argc && dataAvail() > 0; i++)\<close>, with the rounds that are left.\<close>

fun read_args :: "'p parcel_api \<Rightarrow> nat \<Rightarrow> 'p \<Rightarrow> string list \<times> 'p" where
  "read_args api 0 data = ([], data)"
| "read_args api (Suc n) data =
     (if dataAvail api data = 0 then ([], data)
      else let (arg, data1) = readString16 api data;
               (args, data2) = read_args api n data1
           in (arg # args, data2))"

text \<open>
  The status that the receiver, if there is one, is sent, is returned beside that of the
  transaction. All other codes are left to the generated class.
\<close>

definition onTransact :: "env \<Rightarrow> 'p parcel_api \<Rightarrow>
    (uint32 \<Rightarrow> 'p \<Rightarrow> world \<Rightarrow> (shell_output list \<times> status_t option \<times> status_t \<times> world) option) \<Rightarrow>
    ApexInfo \<Rightarrow> bool \<Rightarrow> uint32 \<Rightarrow> 'p \<Rightarrow> world \<Rightarrow>
    (shell_output list \<times> status_t option \<times> status_t \<times> world) option" where
  "onTransact E api BnApexService_onTransact fresh ret_value aidl_code aidl_data w =
     (if aidl_code = SHELL_COMMAND_TRANSACTION api then
        let (fd_in, d1) = readFileDescriptor api aidl_data;
            (fd_out, d2) = readFileDescriptor api d1;
            (fd_err, d3) = readFileDescriptor api d2;
            (argc, d4) = readInt32 api d3;
            (args, d5) = read_args api (nat (sint argc)) d4;
            (status, _, d6) = readNullableStrongBinder api d5
        in if status \<noteq> OK then Some ([], None, status, w)
           else let (status, has_receiver, d7) = readNullableStrongBinder api d6
                in if status \<noteq> OK then Some ([], None, status, w)
                   else map_option (\<lambda>(outs, status, w1).
                            (outs, if has_receiver then Some status else None, OK, w1))
                          (shellCommand E fresh ret_value (BAD_TYPE api \<in> set [fd_in, fd_out, fd_err]) args w)
      else BnApexService_onTransact aidl_code aidl_data w)"

end
