(* ===== verification/Daemon_Frame.thy ===== *)
theory Daemon_Frame
  imports Boot Rollback_Props
begin

text \<open>
  The operations of the daemon followed through, once for every relation that its primitive
  steps respect: changes of files outside \<open>/data/apex/sessions\<close>, mounts and unmounts below
  \<open>/apex\<close>, the bind mount that shows the latest package, and changes of memory. The clients
  instantiate the relation.
\<close>

section \<open>The invariant\<close>

text \<open>
  No mount shadows \<open>/data/apex\<close>, and the database knows mounts below \<open>/apex\<close> only; both are
  kept by every operation.
\<close>

definition rooted :: "world \<Rightarrow> bool" where
  "rooted w \<longleftrightarrow> clear w kApexDataDir \<and> db_inv (gMountedApexes w) \<and>
     (\<forall>p d. mounted (gMountedApexes w) p d \<noteq> None \<longrightarrow> under kApexRoot (mount_point d))"

lemma rooted_cong: "mnts w' = mnts w \<Longrightarrow> gMountedApexes w' = gMountedApexes w \<Longrightarrow> rooted w' = rooted w"
  by (simp add: rooted_def clear_cong [of w' w])

lemma root_apart: "under kApexRoot p \<Longrightarrow> \<not> under kApexDataDir p" "under kApexRoot p \<Longrightarrow> \<not> under p kApexDataDir"
  "under kApexRoot p \<Longrightarrow> \<not> under kApexSessionsDir p"
  by (auto simp: under_def kApexRoot_def kApexDataDir_def kApexSessionsDir_def prefix_def
      append_eq_Cons_conv Cons_eq_append_conv)

lemma clear_iff: "clear w d \<longleftrightarrow> (\<forall>p. under d p \<longrightarrow> mount_over w p = None)"
proof
  assume *: "\<forall>p. under d p \<longrightarrow> mount_over w p = None"
  show "clear w d"
    unfolding clear_def
  proof (clarify, safe)
    fix t img assume t: "(t, img) \<in> set (mnts w)"
    show False if "under t d" using * t that by (force simp: mount_over_def find_None_iff)
    show False if "under d t" using * t that by (force simp: mount_over_def find_None_iff)
  qed
qed (blast intro: clear_mount_over)

lemma package_mount_under [simp]:
  "under kApexRoot (GetPackageMountPoint m)" "under kApexRoot (GetActiveMountPoint m)"
  by (simp_all add: GetPackageMountPoint_def GetActiveMountPoint_def)

lemma find_mounted_in:
  "find_mounted db p path = Some (d, l) \<Longrightarrow> (d, l) \<in> set (ForallMountedApexes db p) \<and> full_path d = path"
  "find_mounted db p path = None \<Longrightarrow> (d, l) \<in> set (ForallMountedApexes db p) \<Longrightarrow> full_path d \<noteq> path"
proof -
  let ?f = "\<lambda>r (d, l). if full_path d = path then Some (d, l) else r"
  have some: "foldl ?f r m = Some (d, l) \<Longrightarrow> r = Some (d, l) \<or> (d, l) \<in> set m \<and> full_path d = path"
    for r and m :: pkg_map
  proof (induction m arbitrary: r)
    case (Cons x m)
    obtain e k where x: "x = (e, k)" by (cases x)
    from Cons.IH [of "if full_path e = path then Some (e, k) else r"] Cons.prems x
    show ?case by (cases "full_path e = path") auto
  qed simp
  have none: "foldl ?f r m = None \<Longrightarrow> r = None \<and> (\<forall>(d, l) \<in> set m. full_path d \<noteq> path)" for r and m :: pkg_map
  proof (induction m arbitrary: r)
    case (Cons x m)
    obtain e k where x: "x = (e, k)" by (cases x)
    from Cons.IH [of "if full_path e = path then Some (e, k) else r"] Cons.prems x
    show ?case by (cases "full_path e = path") auto
  qed simp
  show "find_mounted db p path = Some (d, l) \<Longrightarrow> (d, l) \<in> set (ForallMountedApexes db p) \<and> full_path d = path"
    unfolding find_mounted_def using some by blast
  show "find_mounted db p path = None \<Longrightarrow> (d, l) \<in> set (ForallMountedApexes db p) \<Longrightarrow> full_path d \<noteq> path"
    unfolding find_mounted_def using none by blast
qed

lemma mounted_in: "(d, l) \<in> set (ForallMountedApexes db p) \<Longrightarrow> mounted db p d \<noteq> None"
  by (auto simp: mounted_def map_of_eq_None_iff intro: rev_image_eqI)

lemma BindMount_at: "BindMount E target src w = (r, w') \<Longrightarrow> at_mount target w w'"
proof -
  assume b: "BindMount E target src w = (r, w')"
  obtain st w1 where s: "sys_stat E target w = (st, w1)" by (cases "sys_stat E target w")
  obtain ex isdir where x: "(case st of Inl e \<Rightarrow> if e = ENOENT then (False, False) else (True, True)
      | Inr n \<Rightarrow> (True, is_dir n)) = (ex, isdir)" by fastforce
  obtain ex' w2 where u: "(if ex \<and> \<not> isdir then (False, snd (sys_unlink E target w1)) else (ex, w1)) = (ex', w2)"
    by fastforce
  obtain made w3 where m: "(if \<not> ex' then sys_mkdir E target kMkdirMode w2 else (Inr (), w2)) = (made, w3)"
    by fastforce
  define w4 where "w4 = (if ex' then snd (sys_umount E target w3) else w3)"
  obtain r5 w5 where k: "sys_mount_bind E src target w4 = (r5, w5)" by (cases "sys_mount_bind E src target w4")
  have "at_mount target w w1" by (rule at_mount_asks [OF sys_stat_asks [OF s]])
  also have "at_mount target w1 w2"
    using u sys_unlink_frame [of target w1 E] by (auto split: if_splits intro: at_mount_only_fs)
  also have "at_mount target w2 w3"
    using m sys_mkdir_frame [of target w2 E kMkdirMode] by (auto split: if_splits intro: at_mount_only_fs)
  finally have s3: "at_mount target w w3" .
  also have "at_mount target w3 w4"
    using sys_umount_at [OF prod.collapse [symmetric]] by (simp add: w4_def)
  also have "at_mount target w4 w5" by (rule sys_mount_bind_at [OF k])
  finally have "at_mount target w w5" .
  moreover from b s x u m k have "w' = w3 \<or> w' = w5"
    by (auto simp: BindMount_def w4_def Let_def split: sum.splits)
  ultimately show ?thesis using s3 by blast
qed

lemma rooted_data: "rooted w \<Longrightarrow> under kApexDataDir p \<Longrightarrow> mount_over w p = None \<and> clear w p"
  unfolding rooted_def using clear_mount_over clear_under by blast

lemma active_files:
  assumes "FindApexFilesByName E kActiveApexPackagesDataDir b w = (Inr ps, w')" and "rooted w" and "p \<in> set ps"
  shows "under kActiveApexPackagesDataDir p"
proof -
  have "p \<in> set (list_dir w kActiveApexPackagesDataDir)"
    using FindApexFilesByName_Inr [OF assms(1)] assms(3) by simp
  moreover have "mount_over w kActiveApexPackagesDataDir = None" using rooted_data [OF assms(2)] by simp
  ultimately show ?thesis by (auto simp: set_list_dir intro: child_under)
qed

lemma filter_paths_asks: "filter_paths E code ps w = (r, w') \<Longrightarrow> asks w w'"
proof (induction ps arbitrary: w r)
  case (Cons p ps)
  then show ?case
    by (auto simp: Let_def split: prod.splits if_splits) (metis needs_staging_asks asks_trans)+
qed simp

lemma Filter_asks: "FilterUnnecessaryStagingPaths E ps w = (r, w') \<Longrightarrow> asks w w'"
  by (auto simp: FilterUnnecessaryStagingPaths_def split: prod.splits
      dest!: filter_paths_asks GetActivePackagesMap_spec intro: asks_trans)

lemma backup_each_only: "backup_each E ps w = (st, w') \<Longrightarrow> only_fs (under kApexBackupDir) w w'"
proof (induction ps arbitrary: w)
  case (Cons p ps)
  obtain r1 w1 where o: "Open E p w = (r1, w1)" by (cases "Open E p w")
  note s1 = asks_only_fs [OF Open_asks [OF o], of "under kApexBackupDir"]
  show ?case
  proof (cases r1)
    case (Inl e)
    with Cons.prems o s1 show ?thesis by simp
  next
    case (Inr a)
    obtain r2 w2 where l: "sys_link E (GetPath a) (backup_path a) w1 = (r2, w2)"
      by (cases "sys_link E (GetPath a) (backup_path a) w1")
    have "only_fs (under kApexBackupDir) w1 w2"
      using only_fs_mono [OF sys_link_frame [where E = E and a = "GetPath a" and b = "backup_path a" and w = w1],
          of "under kApexBackupDir"] l backup_path_under by auto
    with s1 have s2: "only_fs (under kApexBackupDir) w w2" by (rule only_fs_chain)
    show ?thesis
    proof (cases r2)
      case (Inl e)
      with Cons.prems o Inr l s2 show ?thesis by simp
    next
      case r2: (Inr u)
      with Cons.prems o Inr l have "backup_each E ps w2 = (st, w')" by simp
      with Cons.IH s2 only_fs_chain show ?thesis by blast
    qed
  qed
qed (simp add: only_fs_refl)

lemma move_tree_other: "\<not> under a q \<Longrightarrow> \<not> under b q \<Longrightarrow> map_of (move_tree a b t) q = map_of t q"
proof (induction t)
  case (Cons x t)
  obtain p n where x: "x = (p, n)" by (cases x)
  have "under b (b @ drop (length a) p)" if "under a p" using that by (rule under_swap)
  with Cons x show ?case by (cases "under a p") (auto simp: move_tree_def)
qed (simp add: move_tree_def)

lemma rename_only: "sys_rename E a b w = (r, w') \<Longrightarrow> only_fs (\<lambda>q. under a q \<or> under b q) w w'"
proof -
  have "only_fs (\<lambda>q. under a q \<or> under b q) w (snd (sys_rename E a b w))"
    unfolding sys_rename_def
    by (rule fs_call_frame)
      (auto simp: rename_eff_def move_tree_other AList.delete_conv'
        split: option.splits sum.splits if_splits)
  moreover assume "sys_rename E a b w = (r, w')"
  ultimately show ?thesis by simp
qed

lemma compare_versions_asks:
  "compare_versions E v ds n m a w = (n', m', a', w') \<Longrightarrow> asks w w'"
proof (induction ds arbitrary: n m a w)
  case (Cons d ds)
  obtain data l where d: "d = (data, l)" by (cases d)
  obtain r w1 where o: "Open E (full_path data) w = (r, w1)" by (cases "Open E (full_path data) w")
  from Cons.prems o d obtain n1 m1 a1 where
    "compare_versions E v ds n1 m1 a1 w1 = (n', m', a', w')"
    by (cases r) (simp_all add: Let_def)
  with Cons.IH Open_asks [OF o] asks_trans show ?case by blast
qed simp

lemma GetActivePackagesMap_asks: "GetActivePackagesMap E w = (r, w') \<Longrightarrow> asks w w'"
  by (drule GetActivePackagesMap_spec) simp

text \<open>The places of package files, which the daemon writes to.\<close>

definition owned :: "path \<Rightarrow> bool" where
  "owned p \<longleftrightarrow> \<not> under kApexSessionsDir p \<and> under kApexDataDir p"

lemma owned_dirs:
  "under kActiveApexPackagesDataDir p \<Longrightarrow> owned p" "under kApexBackupDir p \<Longrightarrow> owned p"
  using dirs_apart(2,3) data_under under_trans unfolding owned_def by blast+

lemma active_prefix: "StartsWith p kActiveApexPackagesDataDir \<Longrightarrow> owned p"
  by (auto simp: StartsWith_def owned_def under_def kActiveApexPackagesDataDir_def kApexSessionsDir_def
      kApexDataDir_def prefix_def)

lemma all_mounted: "(p, d, l) \<in> set (ForallMountedApexesAll db) \<Longrightarrow> sorted_map db \<Longrightarrow> mounted db p d \<noteq> None"
proof -
  assume "(p, d, l) \<in> set (ForallMountedApexesAll db)" "sorted_map db"
  then obtain m where "(p, m) \<in> set db" "(d, l) \<in> set m"
    by (auto simp: ForallMountedApexesAll_def)
  moreover from this(1) have "map_of db p = Some m"
    using sorted_map_distinct [OF \<open>sorted_map db\<close>] by simp
  ultimately show ?thesis using mounted_in [of d l db p] by (simp add: ForallMountedApexes_def)
qed

lemma scan_flattened_asks: "scan_flattened_dirs E ds m w = (r, w') \<Longrightarrow> asks w w'"
proof (induction ds arbitrary: m w)
  case (Cons d ds)
  obtain m1 st w1 where x: "WalkDir E d (flattened_entry E) m w = (m1, st, w1)" by (rule prod_cases3)
  have e: "asks w w'" if "flattened_entry E p s w = (s', w')" for p s w s' w'
    using that by (auto simp: flattened_entry_def Let_def split: prod.splits sum.splits if_splits
        dest!: isFlattenedApex_asks inodeFor_asks intro: asks_trans)
  have "asks w w1" using e x by (rule WalkDir_asks)
  with Cons x show ?case by (auto intro: asks_trans)
qed simp

lemma scan_session_dirs_asks: "scan_session_dirs E ds acc w = (r, w') \<Longrightarrow> asks w w'"
proof (induction ds arbitrary: acc w)
  case (Cons d ds)
  obtain f w1 where f: "FindApexFilesByName E d False w = (f, w1)" by (cases "FindApexFilesByName E d False w")
  note a = FindApexFilesByName_asks [OF f]
  from Cons.prems f have "w' = w1 \<or> (\<exists>acc. scan_session_dirs E ds acc w1 = (r, w'))"
    by (auto split: sum.splits list.splits)
  with Cons.IH a show ?case by (blast intro: asks_trans)
qed simp

lemma access_each_asks: "access_each E ps w = (r, w') \<Longrightarrow> asks w w'"
  by (induction ps arbitrary: w)
    (fastforce simp: Let_def sys_access_def dest: query_asks intro: asks_trans split: prod.splits sum.splits)+

lemma Reboot_asks: "asks w (Reboot w)"
  by (simp add: Reboot_def)

lemma SetProperty_asks: "asks w (snd (SetProperty E n v w))"
  by (simp add: SetProperty_def query_eq split: prod.splits)

lemma loop_ctl_add_asks: "loop_ctl_add E is w = (r, w') \<Longrightarrow> asks w w'"
proof (induction "is" arbitrary: w)
  case (Cons i "is")
  obtain x w1 where i: "sys_ioctl E kLoopControl (LOOP_CTL_ADD i) w = (x, w1)"
    by (cases "sys_ioctl E kLoopControl (LOOP_CTL_ADD i) w")
  then have "asks w w1" by (simp add: sys_ioctl_def query_eq)
  moreover from Cons.prems i have "w' = w1 \<or> loop_ctl_add E is w1 = (r, w')"
    by (auto split: sum.splits if_splits)
  ultimately show ?case using Cons.IH asks_trans by blast
qed simp

lemma wait_for_file_asks:
  assumes "wait_for_file_from E p st t w = Some rw"
  shows "asks w (snd rw)"
proof (rule wait_for_file_from.raw_induct [where P = "\<lambda>E p st t w rw. asks w (snd rw)", OF _ assms])
  fix f E p st t w rw
  assume IH: "\<And>E p st t w rw. f E p st t w = Some rw \<Longrightarrow> asks w (snd rw)"
    and run: "(if clock E (hist w) - st < t then
        (case sys_stat E p w of
           (Inr _, w1) \<Rightarrow> Some (Success, w1)
         | (Inl _, w1) \<Rightarrow> f E p st t (w1\<lparr>hist := Sleep # hist w1\<rparr>))
      else Some (Inl (ErrAt msg_wait_file p), w)) = Some rw"
  obtain x w1 where x: "sys_stat E p w = (x, w1)" by (cases "sys_stat E p w")
  note a = sys_stat_asks [OF x]
  from run x have "snd rw = w \<or> snd rw = w1 \<or> f E p st t (w1\<lparr>hist := Sleep # hist w1\<rparr>) = Some rw"
    by (auto split: if_splits sum.splits)
  with a IH asks_hist asks_trans asks_refl show "asks w (snd rw)" by metis
qed

lemma count_loop_devices_asks: "count_loop_devices E ps n w = (k, w') \<Longrightarrow> asks w w'"
proof (induction ps arbitrary: n w)
  case (Cons p ps)
  obtain x w1 where x: "Open E p w = (x, w1)" by (cases "Open E p w")
  from Cons.prems x have "\<exists>n. count_loop_devices E ps n w1 = (k, w')" by (auto split: sum.splits if_splits)
  with Cons.IH Open_asks [OF x] asks_trans show ?case by blast
qed simp


lemma preAllocateLoopDevices_asks:
  assumes run: "preAllocateLoopDevices E w = Some (r, w')"
  shows "asks w w'"
proof -
  have l: "asks w w'" if "loop_preAllocateLoopDevices E n w = Some (r, w')" for n r w w'
  proof -
    from that obtain x w1 where x: "WaitForFile E kLoopControl 20000000000 w = Some (x, w1)"
      by (auto simp: loop_preAllocateLoopDevices_def split: option.splits)
    obtain f w2 where f: "sys_open E kLoopControl w1 = (f, w2)" by (cases "sys_open E kLoopControl w1")
    have "asks w w1" using wait_for_file_asks [OF x [unfolded WaitForFile_def]] by simp
    moreover have "asks w1 w2" using f by (simp add: sys_open_def query_eq)
    moreover from that x f have "w' = w1 \<or> w' = w2 \<or> (\<exists>r. loop_ctl_add E [0..<n] w2 = (r, w'))"
      by (auto simp: loop_preAllocateLoopDevices_def split: sum.splits)
    ultimately show ?thesis using loop_ctl_add_asks asks_trans by blast
  qed
  obtain s w1 where s: "FindApexes E kApexPackageBuiltinDirs w = (s, w1)"
    by (cases "FindApexes E kApexPackageBuiltinDirs w")
  show ?thesis
  proof (cases s)
    case (Inl e)
    with run s FindApexes_asks [OF s] show ?thesis by (simp add: preAllocateLoopDevices_def)
  next
    case (Inr ps)
    obtain n w2 where c: "count_loop_devices E ps 0 w1 = (n, w2)" by (cases "count_loop_devices E ps 0 w1")
    from run s Inr c have "w' = w2 \<or> loop_preAllocateLoopDevices E n w2 = Some (r, w')"
      by (auto simp: preAllocateLoopDevices_def split: if_splits)
    with FindApexes_asks [OF s] count_loop_devices_asks [OF c] l show ?thesis using asks_trans by blast
  qed
qed

lemma rooted_at_mount:
  assumes "at_mount mp w w'" and "under kApexRoot mp" and "rooted w"
  shows "rooted w'"
proof -
  have "mount_over w' p = mount_over w p" if "under kApexDataDir p" for p
    by (rule at_mount_over [OF assms(1)]) (use that assms(2) root_apart(1) under_trans in blast)
  then have "clear w kApexDataDir \<Longrightarrow> clear w' kApexDataDir" by (simp add: clear_iff)
  with assms(3) at_mount_state [OF assms(1)] show ?thesis by (simp add: rooted_def)
qed

lemma rooted_add:
  assumes "AddMountedApex p l d (gMountedApexes w) = Some db" and "under kApexRoot (mount_point d)"
    and "rooted w"
  shows "rooted (w\<lparr>gMountedApexes := db\<rparr>)"
  using AddMountedApex_SomeD(1,3) [OF assms(1)] assms(2,3)
  by (auto simp: rooted_def clear_def split: if_splits)

lemma rooted_latest:
  assumes "SetLatest p path (gMountedApexes w) = Some db"
  shows "rooted w \<longrightarrow> rooted (w\<lparr>gMountedApexes := db\<rparr>)"
  unfolding rooted_def
  by (clarify, rule SetLatest_SomeD [OF assms], assumption)
    (auto simp: clear_def split: if_splits)

lemma rooted_remove:
  "rooted w \<Longrightarrow> rooted (w\<lparr>gMountedApexes := RemoveMountedApex p path (gMountedApexes w)\<rparr>)"
  unfolding rooted_def
  using RemoveMountedApex_spec [of "gMountedApexes w" p path]
  by (auto simp: clear_def split: option.splits if_splits)

section \<open>The frame\<close>

definition framed :: "(world \<Rightarrow> world \<Rightarrow> bool) \<Rightarrow> world \<Rightarrow> world \<Rightarrow> bool" where
  "framed P w w' \<longleftrightarrow> (rooted w \<longrightarrow> rooted w' \<and> P w w')"

text \<open>Hooks are other programs; what they may do is a hypothesis of the operations that run them.\<close>

definition execs_keep :: "env \<Rightarrow> (world \<Rightarrow> world \<Rightarrow> bool) \<Rightarrow> bool" where
  "execs_keep E P \<longleftrightarrow> (\<forall>w args h. P w (w\<lparr>fs := exec_effect E (hist w) args (fs w), hist := h\<rparr>))"

lemma framedD: "framed P w w' \<Longrightarrow> rooted w \<Longrightarrow> rooted w'" "framed P w w' \<Longrightarrow> rooted w \<Longrightarrow> P w w'"
  by (simp_all add: framed_def)

lemma frame_guarded: "(rooted w \<Longrightarrow> framed P w w') \<Longrightarrow> framed P w w'"
  by (auto simp: framed_def)

locale daemon_frame =
  fixes E :: env and P :: "world \<Rightarrow> world \<Rightarrow> bool"
  assumes P_trans: "P w1 w2 \<Longrightarrow> P w2 w3 \<Longrightarrow> P w1 w3"
    and P_state: "fs w' = fs w \<Longrightarrow> mnts w' = mnts w \<Longrightarrow> gScannedApexKeys w' = gScannedApexKeys w \<Longrightarrow> P w w'"
    and P_collect: "collectApexKeys E w = (r, w') \<Longrightarrow> P w w'"
    and P_only_fs: "only_fs R w w' \<Longrightarrow> (\<And>q. R q \<Longrightarrow> owned q) \<Longrightarrow> P w w'"
    and P_mkdir: "under kApexRoot p \<Longrightarrow> P w (snd (sys_mkdir E p md w))"
    and P_rmdir: "under kApexRoot p \<Longrightarrow> P w (snd (sys_rmdir E p w))"
    and P_mount: "MountPackageImpl E a mp dm vi w = (mr, w') \<Longrightarrow> under kApexRoot mp \<Longrightarrow> P w w'"
    and P_unmount: "Unmount E d w = (r, w') \<Longrightarrow> under kApexRoot (mount_point d) \<Longrightarrow> P w w'"
    and P_umount: "sys_umount E mp w = (ur, w') \<Longrightarrow> under kApexRoot mp \<Longrightarrow> P w w'"
    and P_bind: "BindMount E (GetActiveMountPoint m) (GetPackageMountPoint m) w = (r, w') \<Longrightarrow> P w w'"
begin

lemma frame_trans: "framed P w1 w2 \<Longrightarrow> framed P w2 w3 \<Longrightarrow> framed P w1 w3"
  by (auto simp: framed_def intro: P_trans)

lemma frame_fields: "rooted w' = rooted w \<Longrightarrow> fs w' = fs w \<Longrightarrow> mnts w' = mnts w \<Longrightarrow>
    gScannedApexKeys w' = gScannedApexKeys w \<Longrightarrow> framed P w w'"
  by (simp add: framed_def P_state)

lemma frame_refl [simp]: "framed P w w"
  by (rule frame_fields) simp_all

lemma frame_only_fs:
  assumes "only_fs R w w'" and "\<And>q. rooted w \<Longrightarrow> R q \<Longrightarrow> owned q"
  shows "framed P w w'"
  using only_fs_state [OF assms(1)] assms(2) rooted_cong [of w' w] P_only_fs [OF assms(1)]
  unfolding framed_def by blast

lemma frame_asks: "asks w w' \<Longrightarrow> framed P w w'"
  by (rule frame_only_fs [where R = "\<lambda>_. False"]) (auto simp: asks_only_fs)

lemma frame_mount: "MountPackageImpl E a mp dm vi w = (mr, w') \<Longrightarrow> under kApexRoot mp \<Longrightarrow> framed P w w'"
  using rooted_at_mount MountPackageImpl_at P_mount unfolding framed_def by blast

lemma frame_unmount:
  "Unmount E d w = (r, w') \<Longrightarrow> (rooted w \<Longrightarrow> under kApexRoot (mount_point d)) \<Longrightarrow> framed P w w'"
  using rooted_at_mount Unmount_at P_unmount unfolding framed_def by blast

lemma frame_umount: "sys_umount E mp w = (ur, w') \<Longrightarrow> under kApexRoot mp \<Longrightarrow> framed P w w'"
  using rooted_at_mount sys_umount_at P_umount unfolding framed_def by blast

lemma frame_bind: "BindMount E (GetActiveMountPoint m) (GetPackageMountPoint m) w = (r, w') \<Longrightarrow> framed P w w'"
  using rooted_at_mount BindMount_at P_bind package_mount_under(2) unfolding framed_def by blast

lemma frame_rmdir: "under kApexRoot p \<Longrightarrow> framed P w (snd (sys_rmdir E p w))"
  using rooted_cong [of "snd (sys_rmdir E p w)" w] only_fs_state [OF sys_rmdir_frame [of p w E]] P_rmdir
  by (simp add: framed_def)

lemma frame_mkdir: "under kApexRoot p \<Longrightarrow> framed P w (snd (sys_mkdir E p m w))"
  using rooted_cong [of "snd (sys_mkdir E p m w)" w] only_fs_state [OF sys_mkdir_frame [of p w E m]] P_mkdir
  by (simp add: framed_def)

lemma frame_add:
  "AddMountedApex p l d (gMountedApexes w) = Some db \<Longrightarrow> under kApexRoot (mount_point d) \<Longrightarrow>
     framed P w (w\<lparr>gMountedApexes := db\<rparr>)"
  unfolding framed_def using rooted_add by (auto intro: P_state)

lemma frame_latest:
  "SetLatest p path (gMountedApexes w) = Some db \<Longrightarrow> framed P w (w\<lparr>gMountedApexes := db\<rparr>)"
  unfolding framed_def using rooted_latest by (auto intro: P_state)

lemma frame_remove: "framed P w (w\<lparr>gMountedApexes := RemoveMountedApex p path (gMountedApexes w)\<rparr>)"
  unfolding framed_def using rooted_remove by (auto intro: P_state)

end

sublocale daemon_frame < vf: verify_frame E "framed P"
  by unfold_locales (blast intro: frame_trans frame_asks frame_mount frame_unmount)+

context daemon_frame
begin

lemma frame_HandlePackages:
  assumes "\<And>as w r w'. fn as w = Some (r, w') \<Longrightarrow> framed P w w'"
    and h: "HandlePackages E paths fn w = Some (r, w')"
  shows "framed P w w'"
proof -
  obtain r1 w1 where o: "open_all E paths w = (r1, w1)" by (cases "open_all E paths w")
  note s1 = frame_asks [OF open_all_asks [OF o]]
  show ?thesis
  proof (cases r1)
    case (Inl e)
    with h o s1 show ?thesis by (simp add: HandlePackages_def)
  next
    case (Inr as)
    with h o have "fn as w1 = Some (r, w')" by (simp add: HandlePackages_def)
    from s1 assms(1) [OF this] show ?thesis by (rule frame_trans)
  qed
qed

section \<open>Mounting, hooks and staging\<close>

lemma frame_MountPackage:
  assumes "MountPackage E a mp w = Some (r, w')" and "under kApexRoot mp"
  shows "framed P w w'"
proof -
  obtain ret w1 where m: "MountPackageImpl E a mp (GetPackageId (GetManifest a)) False w = (ret, w1)"
    by (cases "MountPackageImpl E a mp (GetPackageId (GetManifest a)) False w")
  have s1: "framed P w w1" by (rule frame_mount [OF m assms(2)])
  show ?thesis
  proof (cases ret)
    case (Inl e)
    with assms m s1 show ?thesis by (simp add: MountPackage_def)
  next
    case (Inr d)
    with assms m obtain db where "AddMountedApex (manifest_name (GetManifest a)) False d
        (gMountedApexes w1) = Some db" "w' = w1\<lparr>gMountedApexes := db\<rparr>"
      by (auto simp: MountPackage_def split: option.splits)
    moreover have "mount_point d = mp" using m Inr MountPackageImpl_mount_point by blast
    ultimately show ?thesis using s1 frame_add assms(2) frame_trans by metis
  qed
qed

lemma frame_UnmountPackage: "UnmountPackage E a al w = (r, w') \<Longrightarrow> framed P w w'"
proof -
  let ?name = "manifest_name (GetManifest a)" and ?mp = "GetActiveMountPoint (GetManifest a)"
  assume u: "UnmountPackage E a al w = (r, w')"
  show ?thesis
  proof (cases "find_mounted (gMountedApexes w) ?name (GetPath a)")
    case None
    with u show ?thesis by (simp add: UnmountPackage_def)
  next
    case (Some dl)
    obtain d l where dl: "dl = (d, l)" by (cases dl)
    obtain r1 w1 where a: "(if l then sys_umount E ?mp w else (Inr (), w)) = (r1, w1)" by fastforce
    define w2 where "w2 = (if l then snd (sys_rmdir E ?mp w1) else w1)"
    define w3 where "w3 = w2\<lparr>gMountedApexes := RemoveMountedApex ?name (GetPath a) (gMountedApexes w2)\<rparr>"
    obtain r4 w4 where c: "Unmount E d w3 = (r4, w4)" by (cases "Unmount E d w3")
    have s1: "framed P w w1" using a by (auto split: if_splits intro: frame_umount)
    have s2: "framed P w1 w2"
      by (simp add: w2_def frame_rmdir)
    have s3: "framed P w2 w3" unfolding w3_def by (rule frame_remove)
    have "under kApexRoot (mount_point d)" if "rooted w"
      using that find_mounted_in(1) [OF Some [unfolded dl]] mounted_in unfolding rooted_def by blast
    with frame_unmount [OF c] have s4: "framed P w w3 \<Longrightarrow> framed P w w4"
      by (metis frame_guarded frame_trans)
    from u Some dl a c have "w' = w \<or> w' = w1 \<or> w' = w4"
      by (auto simp: UnmountPackage_def w3_def w2_def Let_def split: if_splits sum.splits)
    with s1 s2 s3 s4 show ?thesis by (meson frame_refl frame_trans)
  qed
qed

lemma frame_ForkAndRun:
  assumes "execs_keep E P" and f: "ForkAndRun E args w = (rc, e, w')"
  shows "framed P w w'"
proof -
  have s: "framed P w (w\<lparr>fs := exec_effect E (hist w) args (fs w), hist := h\<rparr>)" for h
    using assms(1) by (simp add: framed_def rooted_def execs_keep_def clear_def)
  have "asks w1 w2" if "WaitChild E st w1 = (rc, w2)" for st w1 rc w2
    using that by (auto simp: WaitChild_def query_eq Let_def split: prod.splits sum.splits if_splits)
  then have c: "framed P w1 w2" if "WaitChild E st w1 = (rc, w2)" for st w1 rc w2
    using that frame_asks by blast
  with f s show ?thesis
    by (auto simp: ForkAndRun_def Let_def split: option.splits prod.splits
        intro: frame_asks frame_trans [OF s c])
qed

lemma frame_mount_for_hook:
  "mount_for_hook E as ma ad w = Some (st, ma', ad', w') \<Longrightarrow> \<forall>p \<in> set ad. under kApexRoot p \<Longrightarrow>
     framed P w w' \<and> (\<forall>p \<in> set ad'. under kApexRoot p)"
proof (induction "as" arbitrary: ma ad w)
  case (Cons a "as")
  let ?m = "GetManifest a" and ?mt = "IsMounted (gMountedApexes w) (manifest_name (GetManifest a)) (GetPath a)"
  let ?ap = "GetActiveMountPoint (GetManifest a)"
  from Cons.prems(1) obtain r1 w1 where m: "(if ?mt then Some (Success, w)
      else MountPackage E a (GetPackageMountPoint ?m) w) = Some (r1, w1)"
    by (auto simp: Let_def split: option.splits)
  have s1: "framed P w w1" using m by (auto split: if_splits intro: frame_MountPackage)
  obtain r2 w2 where k: "sys_mkdir E ?ap kMkdirMode w1 = (r2, w2)" by (cases "sys_mkdir E ?ap kMkdirMode w1")
  have s2: "framed P w1 w2"
    using frame_mkdir [of ?ap w1 kMkdirMode] k by simp
  let ?ma = "if ?mt then ma else ma @ [a]"
  have step: "mount_for_hook E (a # as) ma ad w = (case r1 of Inl e \<Rightarrow> Some (Inl e, ma, ad, w1)
      | Inr _ \<Rightarrow> (case r2 of Inr _ \<Rightarrow> mount_for_hook E as ?ma (ad @ [?ap]) w2
        | Inl e \<Rightarrow> if e \<noteq> EEXIST then Some (Inl (PErr msg_active_point ?ap e), ?ma, ad, w2)
                  else mount_for_hook E as ?ma ad w2))"
    using m k by (cases r1) (simp_all add: Let_def)
  show ?case
  proof (cases r1)
    case (Inl e)
    with Cons.prems step s1 show ?thesis by simp
  next
    case r1: (Inr u)
    show ?thesis
    proof (cases r2)
      case (Inl e)
      with Cons.prems step r1 s1 s2 Cons.IH [of ?ma ad w2] show ?thesis
        by (auto split: if_splits intro: frame_trans)
    next
      case (Inr v)
      with Cons.prems step r1 have "mount_for_hook E as ?ma (ad @ [?ap]) w2 = Some (st, ma', ad', w')" by simp
      from Cons.IH [OF this] Cons.prems(2) s1 s2 show ?thesis by (auto intro: frame_trans)
    qed
  qed
qed simp

lemma frame_unmount_packages: "framed P w (unmount_packages E as w)"
proof (induction "as" arbitrary: w)
  case (Cons a "as")
  have "framed P w (snd (private_UnmountPackage E a w))"
    unfolding private_UnmountPackage_def by (rule frame_UnmountPackage [OF prod.collapse [symmetric]])
  with Cons.IH show ?case by (auto intro: frame_trans)
qed simp

lemma frame_rmdir_each: "\<forall>p \<in> set ps. under kApexRoot p \<Longrightarrow> framed P w (rmdir_each E ps w)"
proof (induction ps arbitrary: w)
  case (Cons p ps)
  then have "framed P w (snd (sys_rmdir E p w))" by (simp add: frame_rmdir)
  with Cons show ?case by (auto intro: frame_trans)
qed simp

lemma frame_StageFnInstall:
  assumes "execs_keep E P" and s: "StageFnInstall E apexes fn arg name w = Some (st, w')"
  shows "framed P w w'"
proof (cases "find_hook fn name apexes 0 None")
  case (Inl e)
  with s show ?thesis by (simp add: StageFnInstall_def)
next
  case (Inr i)
  with s obtain k where i: "i = Some k" by (cases i) (simp_all add: StageFnInstall_def)
  from s Inr i obtain st1 ma ad w1 where m: "mount_for_hook E apexes [] [] w = Some (st1, ma, ad, w1)"
    by (auto simp: StageFnInstall_def split: option.splits)
  note s1 = frame_mount_for_hook [OF m, simplified]
  obtain rc e w2 where f: "ForkAndRun E (hook_args arg apexes k) w1 = (rc, e, w2)" by (rule prod_cases3)
  from s Inr i m f have "w' = preinstall_guard E ma ad w1 \<or> w' = preinstall_guard E ma ad w2"
    by (auto simp: StageFnInstall_def Let_def split: if_splits)
  moreover have "framed P v (preinstall_guard E ma ad v)" for v
    using frame_unmount_packages frame_rmdir_each s1 unfolding preinstall_guard_def by (blast intro: frame_trans)
  ultimately show ?thesis using s1 frame_ForkAndRun [OF assms(1) f] by (blast intro: frame_trans)
qed


lemma frame_PreinstallPackages:
  assumes "execs_keep E P"
  shows "PreinstallPackages E as w = Some (st, w') \<Longrightarrow> framed P w w'"
    and "PostinstallPackages E as w = Some (st, w') \<Longrightarrow> framed P w w'"
  by (auto simp: PreinstallPackages_def PostinstallPackages_def PrePostinstallPackages_def
      StagePreInstall_def StagePostInstall_def split: if_splits dest: frame_StageFnInstall [OF assms])

lemma frame_preinstallPackages:
  assumes "execs_keep E P"
  shows "preinstallPackages E ps w = Some (st, w') \<Longrightarrow> framed P w w'"
    and "postinstallPackages E ps w = Some (st, w') \<Longrightarrow> framed P w w'"
  using frame_HandlePackages [where fn = "PreinstallPackages E", OF frame_PreinstallPackages(1) [OF assms]]
    frame_HandlePackages [where fn = "PostinstallPackages E", OF frame_PreinstallPackages(2) [OF assms]]
  by (auto simp: preinstallPackages_def postinstallPackages_def split: if_splits)

section \<open>Below the directories of packages\<close>

lemma frame_active: "only_fs (under kActiveApexPackagesDataDir) w w' \<Longrightarrow> framed P w w'"
  using owned_dirs(1) by (blast intro: frame_only_fs)

lemma frame_backup: "only_fs (under kApexBackupDir) w w' \<Longrightarrow> framed P w w'"
  using owned_dirs(2) by (blast intro: frame_only_fs)

lemma frame_createDir:
  "createDirIfNeeded E kActiveApexPackagesDataDir m w = (r, w') \<Longrightarrow> framed P w w'"
  "createDirIfNeeded E kApexBackupDir m w = (r, w') \<Longrightarrow> framed P w w'"
  by (drule createDirIfNeeded_frame, rule frame_active, erule only_fs_mono, simp)
    (drule createDirIfNeeded_frame, rule frame_backup, erule only_fs_mono, simp)

lemma frame_unlink: "under kActiveApexPackagesDataDir p \<Longrightarrow> framed P w (snd (sys_unlink E p w))"
  by (rule frame_active) (auto intro: only_fs_mono [OF sys_unlink_frame])

lemma frame_unlink_staged: "\<forall>p \<in> set ps. under kActiveApexPackagesDataDir p \<Longrightarrow> framed P w (unlink_staged E ps w)"
  by (rule frame_active) (auto intro: only_fs_mono [OF unlink_staged_frame])

lemma frame_stage_each: "stage_each E ps fl pk w = (st, fl', pk', w') \<Longrightarrow>
    \<forall>p \<in> set fl. under kActiveApexPackagesDataDir p \<Longrightarrow>
    framed P w w' \<and> (\<forall>p \<in> set fl'. under kActiveApexPackagesDataDir p)"
proof (induction ps arbitrary: fl pk w)
  case (Cons p ps)
  obtain r1 w1 where o: "Open E p w = (r1, w1)" by (cases "Open E p w")
  note s1 = frame_asks [OF Open_asks [OF o]]
  show ?case
  proof (cases r1)
    case (Inl e)
    with Cons.prems o s1 show ?thesis by auto
  next
    case (Inr a)
    obtain r2 w2 where l: "sys_link E (GetPath a) (StageDestPath a) w1 = (r2, w2)"
      by (cases "sys_link E (GetPath a) (StageDestPath a) w1")
    have "only_fs (under kActiveApexPackagesDataDir) w1 w2"
      using only_fs_mono [OF sys_link_frame [where E = E and a = "GetPath a" and b = "StageDestPath a" and w = w1],
          of "under kActiveApexPackagesDataDir"] l by auto
    then have s2: "framed P w w2" using frame_trans [OF s1] frame_active by blast
    show ?thesis
    proof (cases r2)
      case (Inl e)
      with Cons.prems o Inr l s2 show ?thesis by auto
    next
      case r2: (Inr u)
      with Cons.prems(1) o Inr l have "stage_each E ps (StageDestPath a # fl)
          (manifest_name (GetManifest a) # pk) w2 = (st, fl', pk', w')" by simp
      from Cons.IH [OF this] Cons.prems(2) s2 show ?thesis by (auto intro: frame_trans)
    qed
  qed
qed simp


lemma frame_RemovePrevious:
  assumes r: "RemovePreviouslyActiveApexFiles E aff keep w = (st, w')"
  shows "framed P w w'"
proof -
  obtain r1 w1 where f: "FindApexFilesByName E kActiveApexPackagesDataDir False w = (r1, w1)"
    by (cases "FindApexFilesByName E kActiveApexPackagesDataDir False w")
  note s1 = frame_asks [OF FindApexFilesByName_asks [OF f]]
  show ?thesis
  proof (cases r1)
    case (Inl e)
    with r f s1 show ?thesis by (simp add: RemovePreviouslyActiveApexFiles_def)
  next
    case (Inr ps)
    with r f have "remove_previous E aff keep ps w1 = (st, w')"
      by (simp add: RemovePreviouslyActiveApexFiles_def)
    with remove_previous_spec have o: "only_fs (\<lambda>p. p \<in> set ps) w1 w'"
      by (blast intro: only_fs_mono)
    have "framed P w1 w'" if "rooted w"
      by (rule frame_active, rule only_fs_mono [OF o], rule active_files [OF f [unfolded Inr] that])
    with s1 show ?thesis by (blast intro: frame_guarded frame_trans)
  qed
qed

lemma frame_stage_verified: "stage_verified E ps w = (st, w') \<Longrightarrow> framed P w w'"
proof -
  assume s: "stage_verified E ps w = (st, w')"
  obtain r1 w1 where c: "createDirIfNeeded E kActiveApexPackagesDataDir 488 w = (r1, w1)"
    by (cases "createDirIfNeeded E kActiveApexPackagesDataDir 488 w")
  obtain qs w2 where f: "FilterUnnecessaryStagingPaths E ps w1 = (qs, w2)"
    by (cases "FilterUnnecessaryStagingPaths E ps w1")
  obtain r3 fl pk w3 where l: "stage_each E qs [] [] w2 = (r3, fl, pk, w3)" by (rule prod_cases4)
  obtain r4 w4 where v: "RemovePreviouslyActiveApexFiles E pk fl w3 = (r4, w4)"
    by (cases "RemovePreviouslyActiveApexFiles E pk fl w3")
  note l' = frame_stage_each [OF l, simplified]
  note s1 = frame_createDir(1) [OF c] frame_asks [OF Filter_asks [OF f]] l' [THEN conjunct1]
    frame_unlink_staged [OF l' [THEN conjunct2], of w3] frame_RemovePrevious [OF v]
  from s c f l v have "w' = w1 \<or> w' = w2 \<or> w' = unlink_staged E fl w3 \<or> w' = w4"
    by (auto simp: stage_verified_def split: if_splits)
  with s1 show ?thesis by (blast intro: frame_trans)
qed

lemma frame_stagePackages: "stagePackages E ps w = Some (st, w') \<Longrightarrow> framed P w w'"
  by (auto simp: stagePackages_def split: if_splits option.splits sum.splits
      dest!: vf.verifyPackages_Boot_Q frame_stage_verified intro: frame_trans)

lemma frame_DeleteDirContent:
  assumes "DeleteDirContent E d w = (r, w')" and "d = kApexBackupDir \<or> d = kActiveApexPackagesDataDir"
  shows "framed P w w'"
proof (rule frame_guarded)
  assume "rooted w"
  with assms(2) have c: "clear w d" using rooted_data by auto
  have d: "d \<noteq> ''''" using assms(2) by (metis data_dirs(1,2))
  have "only_fs (under d) w w'"
    using DeleteDirContent_spec(1) [OF assms(1) c d] child_under [OF d] by (blast intro: only_fs_mono)
  with assms(2) show "framed P w w'" by (auto intro: frame_active frame_backup)
qed

lemma frame_DeleteBackup: "DeleteBackup E w = (r, w') \<Longrightarrow> framed P w w'"
  by (auto simp: DeleteBackup_def split: prod.splits sum.splits bool.splits
      dest!: PathExists_asks frame_asks frame_DeleteDirContent intro: frame_trans)

lemma frame_BackupActivePackages: "BackupActivePackages E w = (r, w') \<Longrightarrow> framed P w w'"
proof -
  assume b: "BackupActivePackages E w = (r, w')"
  obtain r1 w1 where c: "createDirIfNeeded E kApexBackupDir 448 w = (r1, w1)"
    by (cases "createDirIfNeeded E kApexBackupDir 448 w")
  obtain r2 w2 where p: "PathExists E kActiveApexPackagesDataDir w1 = (r2, w2)"
    by (cases "PathExists E kActiveApexPackagesDataDir w1")
  obtain r3 w3 where f: "FindApexFilesByName E kActiveApexPackagesDataDir False w2 = (r3, w3)"
    by (cases "FindApexFilesByName E kActiveApexPackagesDataDir False w2")
  obtain r4 w4 where d: "DeleteBackup E w3 = (r4, w4)" by (cases "DeleteBackup E w3")
  note s = frame_createDir(2) [OF c] frame_asks [OF PathExists_asks [OF p]]
    frame_asks [OF FindApexFilesByName_asks [OF f]] frame_DeleteBackup [OF d]
  have e: "framed P w4 w5 \<and> framed P w4 (snd (DeleteDirContent E kApexBackupDir w5))"
    if "backup_each E ps w4 = (r5, w5)" for ps r5 w5
    using frame_backup [OF backup_each_only [OF that]]
      frame_DeleteDirContent [OF prod.collapse [symmetric], where d = kApexBackupDir and w = w5]
    by (blast intro: frame_trans)
  from b c p f d have "w' = w1 \<or> w' = w2 \<or> w' = w3 \<or> w' = w4 \<or> (\<exists>ps r5 w5. backup_each E ps w4 = (r5, w5) \<and>
      (w' = w5 \<or> w' = snd (DeleteDirContent E kApexBackupDir w5)))"
    by (auto simp: BackupActivePackages_def split: sum.splits bool.splits prod.splits if_splits)
  with s e show ?thesis by (blast intro: frame_trans)
qed

lemma frame_restore_backup: "restore_backup E w = (st, w') \<Longrightarrow> framed P w w'"
proof -
  assume b: "restore_backup E w = (st, w')"
  let ?a = kActiveApexPackagesDataDir and ?b = kApexBackupDir
  obtain r1 w1 where p: "PathExists E ?b w = (r1, w1)" by (cases "PathExists E ?b w")
  obtain r2 w2 where t: "sys_stat E ?a w1 = (r2, w2)" by (cases "sys_stat E ?a w1")
  obtain r3 w3 where d: "DeleteDirContent E ?a w2 = (r3, w3)" by (cases "DeleteDirContent E ?a w2")
  obtain r4 w4 where n: "sys_rename E ?b ?a w3 = (r4, w4)" by (cases "sys_rename E ?b ?a w3")
  have s: "framed P w3 w4"
    using rename_only [OF n] owned_dirs by (blast intro: frame_only_fs)
  have c: "framed P w4 (snd (sys_chmod E ?a m w4))" for m
    by (rule frame_active) (auto intro: only_fs_mono [OF sys_chmod_frame])
  note s = frame_asks [OF PathExists_asks [OF p]] frame_asks [OF sys_stat_asks [OF t]]
    frame_DeleteDirContent [OF d] s c
  from b p t d n have "w' = w1 \<or> w' = w2 \<or> w' = w3 \<or> w' = w4 \<or> (\<exists>m. w' = snd (sys_chmod E ?a m w4))"
    by (auto simp: restore_backup_def split: sum.splits bool.splits prod.splits if_splits) (metis snd_conv)+
  with s show ?thesis by (blast intro: frame_trans)
qed


section \<open>Activation and startup\<close>

lemma frame_show_latest:
  "show_latest E a (GetPackageMountPoint (GetManifest a)) w = Some (r, w') \<Longrightarrow> framed P w w'"
proof -
  let ?mp = "GetPackageMountPoint (GetManifest a)"
  assume s: "show_latest E a ?mp w = Some (r, w')"
  let ?ap = "GetActiveMountPoint (GetManifest a)"
  obtain st w1 where b: "BindMount E ?ap ?mp w = (st, w1)" by (cases "BindMount E ?ap ?mp w")
  note s1 = frame_bind [OF b]
  from s b have "w' = w1 \<or> (\<exists>p path db. SetLatest p path (gMountedApexes w1) = Some db \<and>
      w' = w1\<lparr>gMountedApexes := db\<rparr>)"
    by (auto simp: show_latest_def Let_def split: sum.splits option.splits)
  then show ?thesis
    using s1 frame_trans [OF s1 frame_latest] by blast
qed

lemma frame_activatePackageImpl: "activatePackageImpl E a w = Some (r, w') \<Longrightarrow> framed P w w'"
proof -
  let ?m = "GetManifest a"
  let ?ds = "ForallMountedApexes (gMountedApexes w) (manifest_name ?m)"
  assume run: "activatePackageImpl E a w = Some (r, w')"
  obtain n mv av w1 where c: "compare_versions E (manifest_version ?m) ?ds True False False w = (n, mv, av, w1)"
    by (rule prod_cases4)
  note s1 = frame_asks [OF compare_versions_asks [OF c]]
  show ?thesis
  proof (cases "w' = w \<or> w' = w1")
    case True
    with s1 show ?thesis by auto
  next
    case False
    with run c obtain r2 w2 where
      m: "(if mv then Some (Success, w1) else MountPackage E a (GetPackageMountPoint ?m) w1) = Some (r2, w2)"
      and f: "w' = w2 \<or> (\<exists>r. show_latest E a (GetPackageMountPoint ?m) w2 = Some (r, w'))"
      by (auto simp: activatePackageImpl_def Let_def split: if_splits option.splits sum.splits)
    have "framed P w1 w2" using m by (auto split: if_splits intro: frame_MountPackage)
    with s1 f frame_show_latest show ?thesis by (blast intro: frame_trans)
  qed
qed

lemma frame_activatePackage: "activatePackage E p w = Some (r, w') \<Longrightarrow> framed P w w'"
  by (auto simp: activatePackage_def split: prod.splits sum.splits
      dest!: Open_asks frame_asks frame_activatePackageImpl intro: frame_trans)

lemma frame_deactivatePackage: "deactivatePackage E p w = (r, w') \<Longrightarrow> framed P w w'"
  by (auto simp: deactivatePackage_def split: prod.splits sum.splits
      dest!: Open_asks frame_asks frame_UnmountPackage intro: frame_trans)

lemma frame_activate_one: "activate_one E code p w = Some (b, w') \<Longrightarrow> framed P w w'"
  by (auto simp: activate_one_def Let_def split: prod.splits sum.splits option.splits if_splits
      dest!: Open_asks frame_asks frame_activatePackageImpl intro: frame_trans)

lemma frame_activate_each: "activate_each E code ps fl w = Some (fl', w') \<Longrightarrow> framed P w w'"
proof (induction ps arbitrary: fl w)
  case (Cons p ps)
  from Cons.prems obtain b w1 where o: "activate_one E code p w = Some (b, w1)"
    by (auto split: option.splits)
  with Cons.prems obtain fl1 where "activate_each E code ps fl1 w1 = Some (fl', w')"
    by (cases b) auto
  with Cons.IH frame_activate_one [OF o] frame_trans show ?case by blast
qed simp

lemma frame_scanPackagesDir: "scanPackagesDirAndActivate E d w = Some (r, w') \<Longrightarrow> framed P w w'"
proof -
  assume s: "scanPackagesDirAndActivate E d w = Some (r, w')"
  obtain r1 w1 where f: "FindApexFilesByName E d (isPathForBuiltinApexes d) w = (r1, w1)"
    by (cases "FindApexFilesByName E d (isPathForBuiltinApexes d) w")
  obtain code w2 where g: "GetActivePackagesMap E w1 = (code, w2)" by (cases "GetActivePackagesMap E w1")
  from s f g have "w' = w1 \<or> (\<exists>ps fl. activate_each E code ps [] w2 = Some (fl, w'))"
    by (auto simp: scanPackagesDirAndActivate_def split: sum.splits option.splits)
  with frame_asks [OF FindApexFilesByName_asks [OF f]] frame_asks [OF GetActivePackagesMap_asks [OF g]]
    frame_activate_each show ?thesis by (blast intro: frame_trans)
qed

lemma frame_scan_builtin: "scan_builtin E ds w = Some w' \<Longrightarrow> framed P w w'"
proof (induction ds arbitrary: w)
  case (Cons d ds)
  from Cons.prems obtain r w1 where "scanPackagesDirAndActivate E d w = Some (r, w1)"
    "scan_builtin E ds w1 = Some w'" by (auto split: option.splits)
  with Cons.IH frame_scanPackagesDir frame_trans show ?case by blast
qed simp

lemma frame_unmount_dangling:
  assumes "rooted w \<Longrightarrow> under kApexRoot (mount_point data)"
  shows "framed P w (unmount_dangling E p data w)"
proof -
  let ?w1 = "w\<lparr>gMountedApexes := RemoveMountedApex p (full_path data) (gMountedApexes w)\<rparr>"
  obtain r w2 where u: "Unmount E data ?w1 = (r, w2)" by (cases "Unmount E data ?w1")
  have s: "framed P w w2"
    using frame_remove frame_unmount [OF u] assms by (metis frame_guarded frame_trans)
  have "framed P w2 (snd (sys_unlink E (full_path data) w2))"
    if "StartsWith (full_path data) kActiveApexPackagesDataDir"
    by (rule frame_only_fs [OF sys_unlink_frame]) (use active_prefix [OF that] in auto)
  with s u show ?thesis by (auto simp: unmount_dangling_def Let_def intro: frame_trans)
qed

lemma frame_unmount_each:
  "\<forall>(p, data) \<in> set ds. under kApexRoot (mount_point data) \<Longrightarrow> framed P w (unmount_each E ds w)"
proof (induction ds arbitrary: w)
  case (Cons d ds)
  obtain p data where d: "d = (p, data)" by (cases d)
  with Cons.prems have "framed P w (unmount_dangling E p data w)" by (auto intro: frame_unmount_dangling)
  with Cons d show ?case by (auto intro: frame_trans)
qed simp

lemma frame_unmountDanglingMounts: "framed P w (unmountDanglingMounts E w)"
proof (rule frame_guarded)
  assume "rooted w"
  then have "\<forall>(p, data) \<in> set (danglings (gMountedApexes w)). under kApexRoot (mount_point data)"
    using all_mounted by (fastforce simp: danglings_def rooted_def db_inv_def)
  then show "framed P w (unmountDanglingMounts E w)"
    unfolding unmountDanglingMounts_def by (rule frame_unmount_each)
qed

lemma frame_collectApexKeys: "collectApexKeys E w = (r, w') \<Longrightarrow> framed P w w'"
proof -
  assume c: "collectApexKeys E w = (r, w')"
  then have "asks (w\<lparr>gScannedApexKeys := gScannedApexKeys w'\<rparr>) w'"
    unfolding collectApexKeys_def using collect_dirs_frame by blast
  then have "rooted w' = rooted w" using rooted_cong [of w' w] asks_fields(1,2,7) by simp
  with P_collect [OF c] show ?thesis by (simp add: framed_def)
qed

lemma frame_populate_lines: "populate_lines E inodes ls vs w = Some w' \<Longrightarrow> framed P w w'"
proof (induction ls arbitrary: vs w)
  case (Cons l ls)
  obtain block mp where b: "parseMountInfo l = (block, mp)" by (cases "parseMountInfo l")
  obtain md w1 where r: "resolveMountInfo E (basename block) mp inodes w = (md, w1)"
    by (cases "resolveMountInfo E (basename block) mp inodes w")
  obtain p v where pv: "parseMountPoint E mp = (p, v)" by (cases "parseMountPoint E mp")
  note s1 = frame_asks [OF resolveMountInfo_asks [OF r]]
  show ?case
  proof (cases "dirname mp \<noteq> kApexRoot \<or> isActiveMountPoint mp \<or> \<not> Ok md")
    case True
    with Cons.prems b r have "\<exists>vs. populate_lines E inodes ls vs w = Some w' \<or> populate_lines E inodes ls vs w1 = Some w'"
      by (auto simp: Let_def Ok_def split: if_splits sum.splits)
    with Cons.IH s1 frame_trans show ?thesis by blast
  next
    case False
    then obtain d where d: "md = Inr d" by (auto simp: Ok_iff)
    have mp: "under kApexRoot (mount_point d)"
      using False resolveMountInfo_mount_point [OF r [unfolded d]]
      by (auto intro: under_dirname simp: kApexRoot_def)
    from Cons.prems b r pv d False obtain db where
      a: "AddMountedApex p False d (gMountedApexes w1) = Some db" by (auto simp: Let_def split: option.splits)
    have s2: "framed P w1 (w1\<lparr>gMountedApexes := db\<rparr>)" by (rule frame_add [OF a mp])
    from b r pv d False a have "populate_lines E inodes (l # ls) vs w = (if active_version vs p < v then
        (case SetLatest p (full_path d) db of None \<Rightarrow> None | Some db' \<Rightarrow>
          populate_lines E inodes ls (AList.update p v vs) (w1\<lparr>gMountedApexes := db'\<rparr>))
        else populate_lines E inodes ls vs (w1\<lparr>gMountedApexes := db\<rparr>))"
      by simp
    moreover have "framed P w1 (w1\<lparr>gMountedApexes := db'\<rparr>)" if "SetLatest p (full_path d) db = Some db'" for db'
      using frame_trans [OF s2 frame_latest [of p "full_path d" "w1\<lparr>gMountedApexes := db\<rparr>" db']] that by simp
    ultimately obtain vs' w2 where "populate_lines E inodes ls vs' w2 = Some w'" "framed P w1 w2"
      using Cons.prems s2 by (cases "SetLatest p (full_path d) db") (auto split: if_splits)
    with Cons.IH s1 show ?thesis by (blast intro: frame_trans)
  qed
qed simp

lemma frame_PopulateFromMounts: "PopulateFromMounts E w = Some w' \<Longrightarrow> framed P w w'"
proof -
  assume p: "PopulateFromMounts E w = Some w'"
  obtain inodes w1 where s: "scanFlattendedPackages E w = (inodes, w1)" by (cases "scanFlattendedPackages E w")
  then have "asks w w1" unfolding scanFlattendedPackages_def by (rule scan_flattened_asks)
  then have "asks w (w1\<lparr>hist := h\<rparr>)" for h using asks_trans asks_hist by blast
  moreover from p s obtain ls h where "populate_lines E inodes ls [] (w1\<lparr>hist := h\<rparr>) = Some w'"
    by (auto simp: PopulateFromMounts_def query_eq Let_def split: prod.splits)
  ultimately show ?thesis using frame_asks frame_populate_lines frame_trans by blast
qed


lemma frame_backup_or_checkpoint:
  assumes "start_checkpoint_or_backup E w = Some (r, w')"
  shows "framed P w w'"
proof -
  have cp: "framed P w1 w2" if "StartCheckpoint E n b w1 = (r, w2)" for n b w1 r w2
    using vold.asks_only(3) [OF that] by (rule frame_asks)
  have t: "framed P w1 w3" if "framed P w2 w3" "StartCheckpoint E n b w1 = (r, w2)" for n b w1 r w2 w3
    using cp [OF that(2)] that(1) by (rule frame_trans)
  from assms show ?thesis
    by (auto simp: start_checkpoint_or_backup_def split: if_splits option.splits prod.splits
        dest!: frame_BackupActivePackages intro: t [OF frame_refl] t)
qed

lemma frame_verify_dirs: "verify_session_dirs E ids ret w = Some (r, w') \<Longrightarrow> framed P w w'"
proof (induction ids arbitrary: ret w)
  case (Cons i ids)
  from Cons.prems obtain r1 w1 where v: "verifySessionDir E i w = Some (r1, w1)" by (auto split: option.splits)
  with Cons.prems have "w' = w1 \<or> (\<exists>ret. verify_session_dirs E ids ret w1 = Some (r, w'))"
    by (auto split: sum.splits)
  with Cons.IH vf.verifySessionDir_Q [OF v] show ?case by (blast intro: frame_trans)
qed simp

text \<open>Unstaging deletes whatever files its caller names; the relation must allow for that.\<close>

lemma frame_unstage_each:
  "(\<And>p w. p \<in> set ps \<Longrightarrow> P w (snd (sys_unlink E p w))) \<Longrightarrow> framed P w (snd (unstage_each E ps w))"
proof (induction ps arbitrary: w)
  case (Cons p ps)
  have "rooted (snd (sys_unlink E p w)) = rooted w"
    using only_fs_state [OF sys_unlink_frame [of p w E]] by (intro rooted_cong) simp_all
  then have u: "framed P w (snd (sys_unlink E p w))" using Cons.prems by (simp add: framed_def)
  have "framed P v (snd (unstage_each E ps v))" for v using Cons.IH Cons.prems by simp
  with u show ?case
    by (cases "sys_unlink E p w") (auto simp: Let_def intro: frame_trans split: sum.splits)
qed simp

lemma frame_unstagePackages:
  assumes "\<And>p w. p \<in> set ps \<Longrightarrow> P w (snd (sys_unlink E p w))"
  shows "framed P w (snd (unstagePackages E ps w))"
proof -
  obtain r w1 where a: "access_each E ps w = (r, w1)" by (cases "access_each E ps w")
  from frame_asks [OF access_each_asks [OF a]] frame_unstage_each [of ps w1, OF assms] a show ?thesis
    by (auto simp: unstagePackages_def intro: frame_trans)
qed

lemma frame_globals [simp]:
  "framed P w (w\<lparr>gVoldService := v\<rparr>)" "framed P w (w\<lparr>gSupportsFsCheckpoints := b\<rparr>)"
  "framed P w (w\<lparr>gInFsCheckpointMode := b\<rparr>)" "framed P w (w\<lparr>gBootstrap := b\<rparr>)"
  by (rule frame_fields; simp add: rooted_def clear_def)+

lemma frame_use_checkpoint: "framed P w (use_checkpoint_service E cs w)"
proof (cases cs)
  case None
  then show ?thesis by (simp add: use_checkpoint_service_def)
next
  case (Some c)
  define w1 where "w1 = w\<lparr>gVoldService := Some c, gSupportsFsCheckpoints := c\<rparr>"
  obtain n w2 where n: "NeedsCheckpoint E c w1 = (n, w2)" by (cases "NeedsCheckpoint E c w1")
  have s1: "framed P w w1" by (rule frame_fields) (simp_all add: w1_def rooted_def clear_def)
  note s2 = frame_trans [OF s1 frame_asks [OF vold.asks_only(1) [OF n]]]
  have s3: "framed P w (w2\<lparr>gInFsCheckpointMode := b\<rparr>)" for b by (rule frame_trans [OF s2]) simp
  from Some n have "use_checkpoint_service E cs w = w1 \<or> use_checkpoint_service E cs w = w2 \<or>
      (\<exists>b. use_checkpoint_service E cs w = w2\<lparr>gInFsCheckpointMode := b\<rparr>)"
    by (auto simp: use_checkpoint_service_def SupportsFsCheckpoints_def w1_def Let_def split: sum.splits prod.splits)
  with s1 s2 s3 show ?thesis by auto
qed

lemma frame_preAllocate: "preAllocateLoopDevices E w = Some (r, w') \<Longrightarrow> framed P w w'"
  by (rule frame_asks [OF preAllocateLoopDevices_asks])

lemma frame_onBootstrap:
  assumes run: "onBootstrap E w = Some (r, w')"
  shows "framed P w w'"
proof -
  let ?w = "w\<lparr>gBootstrap := True\<rparr>"
  from run obtain x w1 where p: "preAllocateLoopDevices E ?w = Some (x, w1)"
    by (auto simp: onBootstrap_def split: option.splits)
  obtain y w2 where c: "collectApexKeys E w1 = (y, w2)" by (cases "collectApexKeys E w1")
  have s: "framed P w w1" "framed P w1 w2"
    using frame_trans [OF _ frame_preAllocate [OF p]] frame_collectApexKeys [OF c] by simp_all
  from run p c have "w' = w2 \<or> (\<exists>r. scanPackagesDirAndActivate E kApexPackageSystemDir w2 = Some (r, w'))"
    by (auto simp: onBootstrap_def split: if_splits option.splits)
  with s frame_scanPackagesDir show ?thesis using frame_trans by blast
qed

end

end
