(* ===== verification/Session_Frame.thy ===== *)
theory Session_Frame
  imports Daemon_Frame
begin

text \<open>
  What the daemon leaves alone: nothing but the session operations themselves touches
  \<open>/data/apex/sessions\<close>, whatever fails, as long as the daemon's own mounts are below \<open>/apex\<close>
  and the hooks of packages, which run as other programs, stay away from it.
\<close>

definition same_sessions :: "world \<Rightarrow> world \<Rightarrow> bool" where
  "same_sessions w w' \<longleftrightarrow> (\<forall>q. under kApexSessionsDir q \<longrightarrow> map_of (fs w') q = map_of (fs w) q)"

definition hooks_spare :: "env \<Rightarrow> bool" where
  "hooks_spare E \<longleftrightarrow> (\<forall>h args t q. under kApexSessionsDir q \<longrightarrow> map_of (exec_effect E h args t) q = map_of t q)"

lemma execs_spare: "hooks_spare E \<Longrightarrow> execs_keep E same_sessions"
  by (simp add: hooks_spare_def execs_keep_def same_sessions_def)

lemma same_sessions_at: "at_mount mp w w' \<Longrightarrow> under kApexRoot mp \<Longrightarrow> same_sessions w w'"
  unfolding same_sessions_def using at_mount_lookup root_apart(3) by metis

interpretation sess: daemon_frame E same_sessions for E
proof unfold_locales
  show "same_sessions w w'" if "only_fs R w w'" "\<And>q. R q \<Longrightarrow> owned q" for R w w'
    using only_fs_lookup [OF that(1)] that(2) unfolding same_sessions_def owned_def by metis
  show "same_sessions w (snd (sys_mkdir E p m w))" "same_sessions w (snd (sys_rmdir E p w))"
    if "under kApexRoot p" for E p m w
    using that root_apart(3) only_fs_lookup [OF sys_mkdir_frame [of p w E m]]
      only_fs_lookup [OF sys_rmdir_frame [of p w E]] unfolding same_sessions_def by metis+
  show "same_sessions w w'" if "collectApexKeys E w = (r, w')" for E w r w'
    using asks_fields(1) [OF conjunct1 [OF collect_dirs_frame [OF that [unfolded collectApexKeys_def]]]]
    by (simp add: same_sessions_def)
  show "same_sessions w w'"
    if "BindMount E (GetActiveMountPoint m) (GetPackageMountPoint m) w = (r, w')" for m w r w'
    using BindMount_at [OF that] by (rule same_sessions_at) simp
qed (auto simp: same_sessions_def [symmetric] intro: same_sessions_at MountPackageImpl_at Unmount_at sys_umount_at,
    auto simp: same_sessions_def)

abbreviation spares :: "world \<Rightarrow> world \<Rightarrow> bool" where
  "spares \<equiv> framed same_sessions"

lemma sparesD: "spares w w' \<Longrightarrow> rooted w \<Longrightarrow> rooted w'"
  "spares w w' \<Longrightarrow> rooted w \<Longrightarrow> under kApexSessionsDir q \<Longrightarrow> map_of (fs w') q = map_of (fs w) q"
  by (simp_all add: framed_def same_sessions_def)

end
