(* ===== verification/Session_Store.thy ===== *)
theory Session_Store
  imports Session_Frame
begin

text \<open>
  The session directory as a map from ids to sessions: what the operations of
  \<open>apexd/apexd_session.cpp\<close> do to this map when reading the directory works and a state file
  is written whole. All other calls may fail in any way.
\<close>

section \<open>Well-formed session directories\<close>

definition store_env :: "env \<Rightarrow> bool" where
  "store_env E \<longleftrightarrow> (\<forall>s. session_parse E (session_serialize E s) = Some s) \<and> hooks_spare E \<and>
     (\<forall>h p. under kApexSessionsDir p \<longrightarrow> fault E h (SysOpen p) = None \<and> fault E h (SysRead p) = None \<and>
        fault E h (SysOpenDir p) = None \<and> fault E h (SysReadDir p) = None \<and>
        (\<forall>c. fault E h (SysWrite p c) = None))"

text \<open>
  Every node below the directory has its parent directory, and every session that can be
  read lies in the directory of its own id.
\<close>

definition parents_ok :: "world \<Rightarrow> bool" where
  "parents_ok w \<longleftrightarrow> (\<forall>q. under kApexSessionsDir q \<and> q \<noteq> kApexSessionsDir \<and> map_of (fs w) q \<noteq> None \<longrightarrow>
     (\<exists>m. map_of (fs w) (dirname q) = Some (Directory m)))"

definition session_at :: "env \<Rightarrow> world \<Rightarrow> path \<Rightarrow> SessionState option" where
  "session_at E w d = (case map_of (fs w) (slash d kStateFileName) of
      Some (Reg _ c) \<Rightarrow> session_parse E c
    | _ \<Rightarrow> None)"

definition own_ids :: "env \<Rightarrow> world \<Rightarrow> bool" where
  "own_ids E w \<longleftrightarrow> (\<forall>d s. child_of kApexSessionsDir d \<and> session_at E w d = Some s \<longrightarrow>
     d = getSessionDir (session_id s))"

definition store_inv :: "env \<Rightarrow> world \<Rightarrow> bool" where
  "store_inv E w \<longleftrightarrow> rooted w \<and> parents_ok w \<and> own_ids E w"

lemma disk_session_at: "disk_session E w i = session_at E w (getSessionDir i)"
  by (simp add: disk_session_def session_at_def getSessionStateFilePath_def)

lemma session_dir_child [simp]: "child_of kApexSessionsDir (getSessionDir i)"
  by (simp add: getSessionDir_def)

lemma session_dir_under [simp]: "under kApexSessionsDir (getSessionDir i)"
  by (simp add: child_under)

lemma state_file_under: "child_of kApexSessionsDir d \<Longrightarrow> under kApexSessionsDir (slash d kStateFileName)"
  by (erule under_trans [OF child_under [OF sessions_dir_ne]]) simp

lemma dirname_session [simp]: "dirname (getSessionDir i) = kApexSessionsDir"
  "dirname (getSessionStateFilePath i) = getSessionDir i"
  using session_dir_child [of i] by (simp_all add: child_of_def getSessionStateFilePath_def)

lemma session_paths_ne [simp]: "getSessionDir i \<noteq> kApexSessionsDir" "kApexSessionsDir \<noteq> getSessionDir i"
  "getSessionStateFilePath i \<noteq> kApexSessionsDir" "getSessionStateFilePath i \<noteq> getSessionDir j"
  "getSessionDir j \<noteq> getSessionStateFilePath i" "kApexSessionsDir \<noteq> getSessionStateFilePath i"
proof -
  have l: "length kApexSessionsDir < length (getSessionDir i)" for i
    by (rule dirname_shorter) simp_all
  then have ne: "getSessionDir i \<noteq> kApexSessionsDir" for i by (metis less_irrefl)
  have "getSessionDir i \<noteq> ''''" using l [of i] by fastforce
  then have "length (getSessionDir i) < length (getSessionStateFilePath i)"
    by (rule dirname_shorter) simp
  with l [of i] have "getSessionStateFilePath i \<noteq> kApexSessionsDir" by fastforce
  moreover have "getSessionStateFilePath i \<noteq> getSessionDir j" using ne [of i] dirname_session by metis
  ultimately show "getSessionDir i \<noteq> kApexSessionsDir" "kApexSessionsDir \<noteq> getSessionDir i"
    "getSessionStateFilePath i \<noteq> kApexSessionsDir" "getSessionStateFilePath i \<noteq> getSessionDir j"
    "getSessionDir j \<noteq> getSessionStateFilePath i" "kApexSessionsDir \<noteq> getSessionStateFilePath i"
    using ne [of i] by metis+
qed

lemma under_dirname_mono:
  assumes "under d q" and "q \<noteq> d"
  shows "under d (dirname q)"
proof -
  obtain z where z: "q = d @ CHR ''/'' # z" using assms by (auto simp: under_def prefix_def)
  then have "d @ CHR ''/'' # z = dirname q @ CHR ''/'' # basename q" using dirname_basename [of q] by simp
  moreover have "CHR ''/'' \<notin> set (basename q)" by (auto simp: basename_def dest: set_takeWhileD)
  ultimately show ?thesis
    by (auto simp: append_eq_append_conv2 append_eq_Cons_conv Cons_eq_append_conv under_def prefix_def)
      (metis in_set_conv_decomp, metis)
qed

lemma disk_own_id: "store_inv E w \<Longrightarrow> disk_session E w i = Some s \<Longrightarrow> session_id s = i"
  unfolding store_inv_def own_ids_def disk_session_at using session_dir_child session_dir_eq by metis

lemma store_inv_cong:
  assumes "\<And>q. under kApexSessionsDir q \<Longrightarrow> map_of (fs w') q = map_of (fs w) q"
    and "rooted w" "rooted w'"
  shows "store_inv E w' = store_inv E w" and "disk_session E w' = disk_session E w"
proof -
  have at: "session_at E w' d = session_at E w d" if "child_of kApexSessionsDir d" for d
    using assms(1) [OF state_file_under [OF that]] by (simp add: session_at_def)
  have "parents_ok w' = parents_ok w"
    using assms(1) under_dirname_mono [of kApexSessionsDir] unfolding parents_ok_def by metis
  with at assms(2,3) show "store_inv E w' = store_inv E w" by (auto simp: store_inv_def own_ids_def)
  show "disk_session E w' = disk_session E w" using at by (simp add: disk_session_at fun_eq_iff)
qed

lemma spares_store:
  assumes "spares w w'" and "store_inv E w"
  shows "store_inv E w'" and "disk_session E w' = disk_session E w"
proof -
  have "rooted w" using assms(2) by (simp add: store_inv_def)
  note s = sparesD(1) [OF assms(1) this] sparesD(2) [OF assms(1) this]
  show "store_inv E w'" "disk_session E w' = disk_session E w"
    using store_inv_cong [of w' w E, OF s(2) \<open>rooted w\<close> s(1)] assms(2) by simp_all
qed

section \<open>Reading\<close>

text \<open>All sessions on disk are found, each once.\<close>

lemma GetSessionFromFile_at:
  assumes E: "store_env E" and inv: "rooted w" and d: "child_of kApexSessionsDir d"
    and run: "GetSessionFromFile E (slash d kStateFileName) w = (r, w')"
  shows "session_at E w d = (case r of Inl _ \<Rightarrow> None | Inr s \<Rightarrow> Some s)"
proof -
  let ?p = "slash d kStateFileName"
  have u: "under kApexSessionsDir ?p" by (rule state_file_under [OF d])
  have host: "mount_over w ?p = None" using rooted_data [OF inv, of ?p] u under_trans [OF data_under(3)] by blast
  have nf: "fault E h (SysOpen ?p) = None" "fault E h (SysRead ?p) = None" for h
    using E u unfolding store_env_def by blast+
  show ?thesis
    using run host nf
    by (auto simp: GetSessionFromFile_def sys_open_def sys_read_def query_def stat_eff_def read_eff_def
        node_at_host session_at_def Let_def split: option.splits node.splits sum.splits prod.splits if_splits)
qed

lemma load_sessions_at:
  assumes E: "store_env E" and inv: "rooted w"
  shows "\<forall>d \<in> set ds. child_of kApexSessionsDir d \<Longrightarrow> load_sessions E ds w = (ss, w') \<Longrightarrow>
    asks w w' \<and> map Some ss = filter (\<lambda>s. s \<noteq> None) (map (session_at E w) ds)"
  using inv
proof (induction ds arbitrary: w w' ss)
  case (Cons d ds)
  obtain r w1 where g: "GetSessionFromFile E (slash d kStateFileName) w = (r, w1)"
    by (cases "GetSessionFromFile E (slash d kStateFileName) w")
  obtain rest w2 where l: "load_sessions E ds w1 = (rest, w2)" by (cases "load_sessions E ds w1")
  note a = GetSessionFromFile_asks [OF g]
  have "rooted w1" using Cons.prems(3) rooted_cong [of w1 w] asks_fields(2,7) [OF a] by simp
  with Cons.IH l Cons.prems(1) have IH: "asks w1 w2"
    "map Some rest = filter (\<lambda>s. s \<noteq> None) (map (session_at E w1) ds)" by auto
  have "session_at E w1 = session_at E w" by (simp add: session_at_def fun_eq_iff asks_fields(1) [OF a])
  with IH GetSessionFromFile_at [OF E Cons.prems(3) _ g] Cons.prems(1,2) g l a show ?case
    by (auto split: sum.splits intro: asks_trans)
qed simp

lemma filter_map_Some:
  "map Some ss = filter (\<lambda>s. s \<noteq> None) (map f ds) \<Longrightarrow> \<forall>d \<in> set ds. \<forall>s. f d = Some s \<longrightarrow> d = g s \<Longrightarrow>
     map g ss = filter (\<lambda>d. f d \<noteq> None) ds"
proof (induction ds arbitrary: ss)
  case (Cons d ds)
  show ?case
  proof (cases "f d")
    case None
    with Cons show ?thesis by simp
  next
    case (Some s)
    with Cons.prems(1) obtain ss' where "ss = s # ss'" "map Some ss' = filter (\<lambda>s. s \<noteq> None) (map f ds)" by auto
    with Cons Some show ?thesis by simp
  qed
qed simp

lemma GetSessions_all:
  assumes E: "store_env E" and inv: "store_inv E w" and run: "GetSessions E w = (ss, w')"
  shows "asks w w'" and "s \<in> set ss \<longleftrightarrow> disk_session E w (session_id s) = Some s"
    and "distinct (map session_id ss)"
proof -
  let ?S = kApexSessionsDir
  have r: "rooted w" and p: "parents_ok w" and o: "own_ids E w" using inv by (simp_all add: store_inv_def)
  have host: "mount_over w ?S = None" using rooted_data [OF r] by simp
  have none: "disk_session E w i = None" if "\<not> (\<exists>m. map_of (fs w) ?S = Some (Directory m))" for i
  proof (rule ccontr)
    assume "disk_session E w i \<noteq> None"
    then have "map_of (fs w) (getSessionStateFilePath i) \<noteq> None" by (auto simp: disk_session_def split: option.splits)
    then have "map_of (fs w) (getSessionDir i) \<noteq> None"
      using p session_path_under unfolding parents_ok_def by (metis dirname_session(2) option.distinct(1) session_paths_ne(3))
    then show False
      using that p unfolding parents_ok_def by (metis dirname_session(1) session_dir_under session_paths_ne(1))
  qed
  have "asks w w' \<and> (\<forall>s. s \<in> set ss \<longleftrightarrow> disk_session E w (session_id s) = Some s) \<and> distinct (map session_id ss)"
  proof (cases "\<exists>m. map_of (fs w) ?S = Some (Directory m)")
    case False
    then have "fst (ReadDir E ?S dir_entry w) \<noteq> Inr ps" for ps
      using ReadDir_result(2) [OF prod.collapse [symmetric], of E ?S dir_entry w] host by (auto simp: node_at_host)
    then have "ss = []" using run by (auto simp: GetSessions_def split: prod.splits sum.splits)
    with none [OF False] GetSessions_asks [OF run] show ?thesis by simp
  next
    case True
    then obtain m where dir: "node_at w ?S = Some (Directory m)" using host by (auto simp: node_at_host)
    have nf: "fault E h (SysOpenDir ?S) = None" "fault E h (SysReadDir ?S) = None" for h
      using E unfolding store_env_def by simp_all
    define ds where "ds = filter (\<lambda>p. dir_entry p (node_at w p)) (list_dir w ?S)"
    from ReadDir_works [OF nf dir] obtain w1 where rd: "ReadDir E ?S dir_entry w = (Inr ds, w1)"
      unfolding ds_def by blast
    note a = ReadDir_result(1) [OF rd]
    have ld: "load_sessions E ds w1 = (ss, w')" using run rd by (simp add: GetSessions_def)
    have r1: "rooted w1" using r rooted_cong [of w1 w] asks_fields(2,7) [OF a] by simp
    have ds: "set ds = {d. child_of ?S d \<and> (\<exists>m. map_of (fs w) d = Some (Directory m))}"
    proof -
      have "node_at w d = map_of (fs w) d" if "child_of ?S d" for d
        using rooted_data [OF r, of d] child_under [OF sessions_dir_ne that] under_trans [OF data_under(3)]
        by (simp add: node_at_host)
      then show ?thesis
        by (auto simp: ds_def set_list_dir [OF host] dir_entry_def split: option.splits elim!: is_dir.elims)
    qed
    note l = load_sessions_at [OF E r1 _ ld]
    have at: "session_at E w1 = session_at E w" by (simp add: session_at_def fun_eq_iff asks_fields(1) [OF a])
    have ss: "map Some ss = filter (\<lambda>s. s \<noteq> None) (map (session_at E w) ds)" "asks w1 w'"
      using l ds by (auto simp: at)
    have dist: "distinct ds" using host by (simp add: ds_def list_dir_host)
    have own: "\<forall>d \<in> set ds. \<forall>s. session_at E w d = Some s \<longrightarrow> d = getSessionDir (session_id s)"
      using o ds by (auto simp: own_ids_def)
    have "s \<in> set ss \<longleftrightarrow> (\<exists>d \<in> set ds. session_at E w d = Some s)" for s
    proof -
      have "s \<in> set ss \<longleftrightarrow> Some s \<in> set (map Some ss)" by auto
      also have "\<dots> \<longleftrightarrow> (\<exists>d \<in> set ds. session_at E w d = Some s)" unfolding ss(1) by (auto simp: image_iff) metis
      finally show ?thesis .
    qed
    moreover have "getSessionDir i \<in> set ds" if s: "disk_session E w i = Some s" for s i
    proof -
      have "map_of (fs w) (getSessionStateFilePath i) \<noteq> None" using s by (auto simp: disk_session_def split: option.splits)
      then show ?thesis
        using p session_path_under session_paths_ne(3) unfolding parents_ok_def ds by fastforce
    qed
    ultimately have "s \<in> set ss \<longleftrightarrow> disk_session E w (session_id s) = Some s" for s
      using own unfolding disk_session_at by metis
    moreover have "distinct (map (\<lambda>s. getSessionDir (session_id s)) ss)"
      using filter_map_Some [OF ss(1) own] dist by simp
    then have "distinct (map session_id ss)" by (auto simp: distinct_map inj_on_def)
    ultimately show ?thesis using asks_trans [OF a ss(2)] by blast
  qed
  then show "asks w w'" "s \<in> set ss \<longleftrightarrow> disk_session E w (session_id s) = Some s" "distinct (map session_id ss)"
    by blast+
qed

section \<open>Writing\<close>

text \<open>
  What one operation on the directory may do to a node: leave it, take it away, or make a
  directory or a state file under a parent that is there.
\<close>

lemma parents_step:
  assumes "parents_ok w"
    and same: "\<And>q. q \<noteq> p \<Longrightarrow> map_of (fs w') q = map_of (fs w) q"
    and new: "map_of (fs w) p = None \<Longrightarrow> map_of (fs w') p \<noteq> None \<Longrightarrow> p \<noteq> kApexSessionsDir \<Longrightarrow>
      \<exists>m. map_of (fs w) (dirname p) = Some (Directory m)"
    and kind: "\<And>m. map_of (fs w) p = Some (Directory m) \<Longrightarrow>
      (\<exists>m'. map_of (fs w') p = Some (Directory m')) \<or> (\<forall>q. under p q \<and> q \<noteq> p \<longrightarrow> map_of (fs w) q = None)"
    and "p \<noteq> ''''"
  shows "parents_ok w'"
  unfolding parents_ok_def
proof clarify
  fix q n assume q: "under kApexSessionsDir q" "q \<noteq> kApexSessionsDir" "map_of (fs w') q = Some n"
  have old: "\<exists>m. map_of (fs w) (dirname q) = Some (Directory m)"
  proof (cases "map_of (fs w) q = None")
    case True
    with q same have "q = p" by fastforce
    with True q new show ?thesis by simp
  next
    case False
    with assms(1) q show ?thesis by (simp add: parents_ok_def)
  qed
  show "\<exists>m. map_of (fs w') (dirname q) = Some (Directory m)"
  proof (cases "dirname q = p")
    case False
    with old same show ?thesis by simp
  next
    case True
    then have "under p q" "q \<noteq> p" using assms(5) under_dirname dirname_neq by blast+
    moreover from this have "map_of (fs w) q \<noteq> None" using same q(3) by simp
    ultimately show ?thesis using old kind True by metis
  qed
qed

lemma own_ids_step:
  assumes "own_ids E w" and "\<And>d s. child_of kApexSessionsDir d \<Longrightarrow> session_at E w' d = Some s \<Longrightarrow>
    session_at E w d = Some s \<or> d = getSessionDir (session_id s)"
  shows "own_ids E w'"
  using assms unfolding own_ids_def by blast

lemma write_stream_blocked:
  assumes "open_trunc_eff E p w = Inl e" and "write_stream E p c w = (b, w')"
  shows "fs w' = fs w"
  using assms by (auto simp: write_stream_def fs_call_def split: option.splits)

lemma write_stream_new:
  assumes ws: "write_stream E p c w = (b, w')" and host: "mount_over w p = None" "mount_over w (dirname p) = None"
  shows "map_of (fs w) p = None \<Longrightarrow> map_of (fs w') p \<noteq> None \<Longrightarrow> \<exists>m. map_of (fs w) (dirname p) = Some (Directory m)"
    and "map_of (fs w) p = Some (Directory m) \<Longrightarrow> fs w' = fs w"
proof -
  show "\<exists>m. map_of (fs w) (dirname p) = Some (Directory m)" if new: "map_of (fs w) p = None" "map_of (fs w') p \<noteq> None"
  proof (rule ccontr)
    assume "\<not> ?thesis"
    then have "\<exists>e. open_trunc_eff E p w = Inl e"
      using host new(1) by (auto simp: open_trunc_eff_def parent_ok_def node_at_host split: option.splits
          elim!: is_dir.elims)
    with write_stream_blocked [OF _ ws] new show False by auto
  qed
  show "fs w' = fs w" if "map_of (fs w) p = Some (Directory m)"
    using that host write_stream_blocked [OF _ ws, of EISDIR] by (simp add: open_trunc_eff_def node_at_host)
qed

lemma commit_store:
  assumes E: "store_env E" and inv: "store_inv E w" and run: "UpdateStateAndCommit E st s w = (r, s', w')"
  shows "store_inv E w'" and "s' = s\<lparr>session_state := st\<rparr>"
    and "disk_session E w' =
      (if Ok r then (disk_session E w)(session_id s \<mapsto> s\<lparr>session_state := st\<rparr>) else disk_session E w)"
proof -
  let ?p = "getSessionStateFilePath (session_id s)" and ?c = "session_serialize E (s\<lparr>session_state := st\<rparr>)"
  note fr = UpdateStateAndCommit_frame [OF run]
  show s': "s' = s\<lparr>session_state := st\<rparr>" using fr by simp
  have r: "rooted w" and p: "parents_ok w" and o: "own_ids E w" using inv by (simp_all add: store_inv_def)
  have host: "mount_over w q = None" if "under kApexSessionsDir q" for q
    using rooted_data [OF r] that under_trans [OF data_under(3)] by blast
  obtain b w1 where ws: "write_stream E ?p ?c w = (b, w1)" by (cases "write_stream E ?p ?c w")
  with run have b: "b = Ok r" "w1 = w'" by (auto simp: UpdateStateAndCommit_def Let_def split: if_splits)
  note ws = ws [unfolded b]
  have nf: "\<forall>h. fault E h (SysWrite ?p ?c) = None" using E session_path_under unfolding store_env_def by blast
  have parse: "session_parse E ?c = Some (s\<lparr>session_state := st\<rparr>)" using E by (simp add: store_env_def)
  note wf = write_stream_file [OF ws host [OF session_path_under]]
  have same: "map_of (fs w') q = map_of (fs w) q" if "q \<noteq> ?p" for q
    using only_fs_lookup [OF conjunct1 [OF fr]] that by simp
  have out: "(\<exists>m. Ok r \<and> map_of (fs w') ?p = Some (Reg m ?c)) \<or> \<not> Ok r \<and> map_of (fs w') ?p = map_of (fs w) ?p"
    using wf(2,3) nf by blast
  have at: "session_at E w' d = (if Ok r \<and> d = getSessionDir (session_id s)
      then Some (s\<lparr>session_state := st\<rparr>) else session_at E w d)" for d
  proof (cases "d = getSessionDir (session_id s)")
    case True
    with out parse show ?thesis by (auto simp: session_at_def getSessionStateFilePath_def)
  next
    case False
    then have "slash d kStateFileName \<noteq> ?p" by (simp add: getSessionStateFilePath_def)
    with same False show ?thesis by (simp add: session_at_def)
  qed
  show "disk_session E w' =
      (if Ok r then (disk_session E w)(session_id s \<mapsto> s\<lparr>session_state := st\<rparr>) else disk_session E w)"
    by (auto simp: disk_session_at at fun_eq_iff)
  have "own_ids E w'" by (rule own_ids_step [OF o]) (auto simp: at split: if_splits)
  moreover have "parents_ok w'"
  proof (rule parents_step [OF p same])
    show "\<exists>m. map_of (fs w) (dirname ?p) = Some (Directory m)"
      if "map_of (fs w) ?p = None" "map_of (fs w') ?p \<noteq> None"
      using write_stream_new(1) [OF ws host [OF session_path_under] _ that] host by simp
    show "(\<exists>m'. map_of (fs w') ?p = Some (Directory m')) \<or> (\<forall>q. under ?p q \<and> q \<noteq> ?p \<longrightarrow> map_of (fs w) q = None)"
      if "map_of (fs w) ?p = Some (Directory m)" for m
      using write_stream_new(2) [OF ws host [OF session_path_under] _ that] host that by simp
    show "?p \<noteq> ''''" by (simp add: getSessionStateFilePath_def)
  qed
  moreover have "rooted w'" using only_fs_state [OF conjunct1 [OF fr]] rooted_cong [of w' w] r by simp
  ultimately show "store_inv E w'" by (simp add: store_inv_def)
qed


text \<open>Making a directory of the store.\<close>

lemma createDirIfNeeded_step:
  assumes c: "createDirIfNeeded E p k w = (r, w')" and host: "mount_over w p = None" "mount_over w (dirname p) = None"
  shows "map_of (fs w') p = map_of (fs w) p \<or> (\<exists>m. map_of (fs w') p = Some (Directory m))"
    and "map_of (fs w) p = None \<Longrightarrow> map_of (fs w') p \<noteq> None \<Longrightarrow> \<exists>m. map_of (fs w) (dirname p) = Some (Directory m)"
proof -
  obtain st w1 where s: "sys_stat E p w = (st, w1)" by (cases "sys_stat E p w")
  note a = asks_fields [OF sys_stat_asks [OF s]]
  obtain r2 w2 where m: "sys_mkdir E p k w1 = (r2, w2)" by (cases "sys_mkdir E p k w1")
  have mk: "\<not> Ok r2 \<and> fs w2 = fs w \<or> Ok r2 \<and> map_of (fs w) p = None \<and> (\<exists>m. map_of (fs w2) p = Some (Directory m)) \<and>
      (\<exists>m. map_of (fs w) (dirname p) = Some (Directory m))"
    using m host
    by (auto simp: sys_mkdir_def fs_call_eq mkdir_eff_def parent_ok_def node_at_host a update_conv'
        split: option.splits sum.splits if_splits elim!: is_dir.elims)
  have mn: "mnts w2 = mnts w" using only_fs_state [OF sys_mkdir_frame [of p w1 E k]] m a by simp
  have ch: "map_of (fs w3) p = Some (Directory m) \<or> map_of (fs w3) p = Some (Directory k)"
    if "sys_chmod E p k v = (r3, w3)" "mnts v = mnts w" "map_of (fs v) p = Some (Directory m)" for v r3 w3 m
    using that host(1) mount_over_cong [of v w]
    by (auto simp: sys_chmod_def fs_call_eq chmod_eff_def node_at_host update_conv'
        split: option.splits sum.splits if_splits)
  have "(fs w' = fs w) \<or> (\<exists>m. map_of (fs w') p = Some (Directory m)) \<and>
      (map_of (fs w) p \<noteq> None \<or> (\<exists>m. map_of (fs w) (dirname p) = Some (Directory m)))"
  proof (cases st)
    case (Inl e)
    show ?thesis
    proof (cases "e = ENOENT \<and> Ok r2")
      case False
      with c s Inl m have "w' = w1 \<or> w' = w2 \<and> \<not> Ok r2"
        by (cases r2) (auto simp: createDirIfNeeded_def split: if_splits)
      with mk a(1) show ?thesis by auto
    next
      case True
      obtain r3 w3 where k: "sys_chmod E p k w2 = (r3, w3)" by (cases "sys_chmod E p k w2")
      from c s Inl m True k have "w' = w3" by (auto simp: createDirIfNeeded_def Ok_def split: sum.splits)
      with True mk ch [OF k mn] show ?thesis by blast
    qed
  next
    case (Inr n)
    show ?thesis
    proof (cases "is_dir n")
      case False
      with c s Inr have "w' = w1" by (simp add: createDirIfNeeded_def)
      with a(1) show ?thesis by simp
    next
      case True
      obtain r3 w3 where k: "sys_chmod E p k w1 = (r3, w3)" by (cases "sys_chmod E p k w1")
      from c s Inr True k have "w' = w3" by (auto simp: createDirIfNeeded_def split: sum.splits)
      moreover from s Inr True host have "\<exists>m. map_of (fs w) p = Some (Directory m)"
        by (auto simp: sys_stat_def query_eq stat_eff_def node_at_host split: option.splits if_splits elim!: is_dir.elims)
      ultimately show ?thesis using ch [OF k] a(1,2) by (metis option.distinct(1))
    qed
  qed
  then show "map_of (fs w') p = map_of (fs w) p \<or> (\<exists>m. map_of (fs w') p = Some (Directory m))"
    and "map_of (fs w) p = None \<Longrightarrow> map_of (fs w') p \<noteq> None \<Longrightarrow> \<exists>m. map_of (fs w) (dirname p) = Some (Directory m)"
    by auto
qed

lemma state_file_ne: "child_of kApexSessionsDir d \<Longrightarrow> slash d kStateFileName \<noteq> kApexSessionsDir"
  "child_of kApexSessionsDir d \<Longrightarrow> slash d kStateFileName \<noteq> getSessionDir i"
proof -
  assume d: "child_of kApexSessionsDir d"
  have dn: "dirname (slash d kStateFileName) = d" by simp
  have "dirname kApexSessionsDir \<noteq> d"
    using d by (auto simp: child_of_def kApexSessionsDir_def kApexDataDir_def dirname_def)
  with dn show "slash d kStateFileName \<noteq> kApexSessionsDir" by metis
  have "d \<noteq> kApexSessionsDir" using d dirname_neq [OF sessions_dir_ne] by (auto simp: child_of_def)
  with dn show "slash d kStateFileName \<noteq> getSessionDir i" by (metis dirname_session(1))
qed

lemma createDir_store:
  assumes c: "createDirIfNeeded E p k w = (r, w')" and p: "p = kApexSessionsDir \<or> p = getSessionDir i"
    and inv: "store_inv E w"
  shows "store_inv E w' \<and> disk_session E w' = disk_session E w"
proof -
  have rt: "rooted w" and po: "parents_ok w" and o: "own_ids E w" using inv by (simp_all add: store_inv_def)
  note fr = createDirIfNeeded_frame [OF c]
  have "mount_over w p = None" using rooted_data [OF rt] p under_trans [OF data_under(3)] by auto
  moreover have "under kApexDataDir (dirname p)"
    using p by (auto simp: dirname_session) (simp add: kApexSessionsDir_def kApexDataDir_def dirname_def)
  then have "mount_over w (dirname p) = None" using rooted_data [OF rt] by simp
  ultimately have new: "map_of (fs w') p = map_of (fs w) p \<or> (\<exists>m. map_of (fs w') p = Some (Directory m))"
    "map_of (fs w) p = None \<Longrightarrow> map_of (fs w') p \<noteq> None \<Longrightarrow> \<exists>m. map_of (fs w) (dirname p) = Some (Directory m)"
    using createDirIfNeeded_step [OF c] by blast+
  have same: "map_of (fs w') q = map_of (fs w) q" if "q \<noteq> p" for q
    using only_fs_lookup [OF fr] that by simp
  have at: "session_at E w' d = session_at E w d" if "child_of kApexSessionsDir d" for d
    using same state_file_ne [OF that] p unfolding session_at_def by metis
  have "parents_ok w'"
  proof (rule parents_step [OF po same])
    show "(\<exists>m'. map_of (fs w') p = Some (Directory m')) \<or> (\<forall>q. under p q \<and> q \<noteq> p \<longrightarrow> map_of (fs w) q = None)"
      if "map_of (fs w) p = Some (Directory m)" for m using new(1) that by auto
    show "p \<noteq> ''''" using p by (metis append_is_Nil_conv getSessionDir_def sessions_dir_ne)
  qed (use new(2) in auto)
  moreover have "own_ids E w'" by (rule own_ids_step [OF o]) (simp add: at)
  moreover have "rooted w'" using only_fs_state [OF fr] rooted_cong [of w' w] rt by simp
  ultimately show ?thesis using at by (simp add: store_inv_def disk_session_at fun_eq_iff)
qed

lemma CreateSession_store:
  assumes inv: "store_inv E w" and c: "CreateSession E i w = (r, w')"
  shows "store_inv E w' \<and> disk_session E w' = disk_session E w \<and>
    (\<forall>s. r = Inr s \<longrightarrow> s = empty_session\<lparr>session_id := i\<rparr>)"
proof -
  obtain r1 w1 where a: "createDirIfNeeded E kApexSessionsDir 448 w = (r1, w1)"
    by (cases "createDirIfNeeded E kApexSessionsDir 448 w")
  obtain r2 w2 where b: "createDirIfNeeded E (getSessionDir i) 448 w1 = (r2, w2)"
    by (cases "createDirIfNeeded E (getSessionDir i) 448 w1")
  have 1: "store_inv E w1" "disk_session E w1 = disk_session E w" using createDir_store [OF a _ inv] by auto
  have 2: "store_inv E w2" "disk_session E w2 = disk_session E w1" using createDir_store [OF b _ 1(1)] by auto
  from c a b have "w' = w1 \<or> w' = w2" "\<forall>s. r = Inr s \<longrightarrow> s = empty_session\<lparr>session_id := i\<rparr>"
    by (auto simp: CreateSession_def createSessionDirIfNeeded_def Let_def split: sum.splits prod.splits)
  with 1 2 show ?thesis by auto
qed

text \<open>Removing a session's directory.\<close>

lemma remove_each_store:
  "\<forall>p \<in> set ps. under (getSessionDir i) p \<Longrightarrow> store_inv E w \<Longrightarrow> remove_each E ps w = (r, w') \<Longrightarrow>
     store_inv E w' \<and> (\<forall>q. map_of (fs w') q = map_of (fs w) q \<or> q \<in> set ps \<and> map_of (fs w') q = None) \<and>
     (Ok r \<longrightarrow> (\<forall>q \<in> set ps. map_of (fs w') q = None))"
proof (induction ps arbitrary: w)
  case (Cons p ps)
  obtain r1 w1 where c: "fs_call E (SysRemove p) (remove_eff p) w = (r1, w1)"
    by (cases "fs_call E (SysRemove p) (remove_eff p) w")
  have inv: "rooted w" "parents_ok w" "own_ids E w" using Cons.prems(2) by (simp_all add: store_inv_def)
  have up: "under kApexSessionsDir p"
    by (rule under_trans [OF session_dir_under [of i]]) (use Cons.prems(1) in simp)
  have host: "mount_over w p = None" using rooted_data [OF inv(1)] up under_trans [OF data_under(3)] by blast
  have del: "fs w1 = fs w \<and> \<not> Ok r1 \<or> Ok r1 \<and> fs w1 = AList.delete p (fs w) \<and>
      (\<forall>m. map_of (fs w) p = Some (Directory m) \<longrightarrow> (\<forall>q. under p q \<and> q \<noteq> p \<longrightarrow> map_of (fs w) q = None))"
    using c host
    by (auto simp: fs_call_eq remove_eff_def node_at_host occupied_def list_ex_iff map_of_eq_None_iff
        split: option.splits sum.splits if_splits)
  have "only_fs (\<lambda>_. True) w (snd (fs_call E (SysRemove p) (remove_eff p) w))" by (rule fs_call_frame) simp
  then have st: "rooted w1" using only_fs_state c inv(1) rooted_cong [of w1 w] by (metis snd_conv)
  show ?case
  proof (cases "Ok r1")
    case False
    with del have "fs w1 = fs w" by blast
    moreover from c Cons.prems(3) False have "w' = w1" "r = r1" by simp_all
    ultimately show ?thesis
      using store_inv_cong(1) [of w1 w E] Cons.prems(2) st inv(1) False by simp
  next
    case True
    with del have d: "map_of (fs w1) q = (if q = p then None else map_of (fs w) q)" for q
      by (simp add: AList.delete_conv')
    have "parents_ok w1"
    proof (rule parents_step [OF inv(2), of p])
      show "p \<noteq> ''''" using up sessions_dir_ne by (metis under_def append_is_Nil_conv prefix_Nil list.discI)
      show "(\<exists>m'. map_of (fs w1) p = Some (Directory m')) \<or> (\<forall>q. under p q \<and> q \<noteq> p \<longrightarrow> map_of (fs w) q = None)"
        if "map_of (fs w) p = Some (Directory m)" for m using del True that by blast
    qed (simp_all add: d)
    moreover have "own_ids E w1"
      by (rule own_ids_step [OF inv(3)]) (auto simp: session_at_def d split: if_splits)
    ultimately have 1: "store_inv E w1" using st by (simp add: store_inv_def)
    from c True Cons.prems(3) have "remove_each E ps w1 = (r, w')" by simp
    from Cons.IH [OF _ 1 this] Cons.prems(1) d show ?thesis by (auto split: if_splits)
  qed
qed simp

lemma DeleteSession_store:
  assumes inv: "store_inv E w" and run: "DeleteSession E s w = (r, w')"
  shows "store_inv E w'" and "disk_session E w' = (disk_session E w)(session_id s := None) \<or>
      \<not> Ok r \<and> disk_session E w' = disk_session E w"
proof -
  let ?d = "getSessionDir (session_id s)"
  define ps where "ps = rev (sort_key length (filter (under ?d) (remdups (map fst (fs w)))))"
  from run obtain r1 where e: "remove_each E ps w = (r1, w')" "Ok r = Ok r1"
    by (auto simp: DeleteSession_def deleteSessionDir_def remove_all_def ps_def split: prod.splits sum.splits)
  have ps: "set ps = {p. under ?d p \<and> map_of (fs w) p \<noteq> None}" by (auto simp: ps_def map_of_eq_None_iff)
  have m: "store_inv E w' \<and> (\<forall>q. map_of (fs w') q = map_of (fs w) q \<or> q \<in> set ps \<and> map_of (fs w') q = None) \<and>
     (Ok r1 \<longrightarrow> (\<forall>q \<in> set ps. map_of (fs w') q = None))"
    by (rule remove_each_store [OF _ inv e(1), of "session_id s"]) (simp add: ps)
  then show "store_inv E w'" by simp
  have other: "\<not> under ?d (getSessionStateFilePath i)" if "i \<noteq> session_id s" for i
  proof
    assume "under ?d (getSessionStateFilePath i)"
    then have "under ?d (getSessionDir i)" using under_dirname_mono by fastforce
    then have "under ?d kApexSessionsDir" using under_dirname_mono that by fastforce
    moreover have "length kApexSessionsDir < length ?d" by (rule dirname_shorter) simp_all
    ultimately show False by (auto simp: under_def dest: prefix_length_le)
  qed
  have keep: "disk_session E w' i = disk_session E w i" if "i \<noteq> session_id s" for i
  proof -
    have "map_of (fs w') (getSessionStateFilePath i) = map_of (fs w) (getSessionStateFilePath i)"
      using m other [OF that] ps by blast
    then show ?thesis by (simp add: disk_session_def)
  qed
  let ?q = "getSessionStateFilePath (session_id s)"
  have q: "?q \<in> set ps \<longleftrightarrow> map_of (fs w) ?q \<noteq> None" by (simp add: ps getSessionStateFilePath_def)
  have "disk_session E w' (session_id s) = None \<or>
      \<not> Ok r \<and> disk_session E w' (session_id s) = disk_session E w (session_id s)"
  proof (cases "map_of (fs w') ?q = None")
    case True
    then show ?thesis by (simp add: disk_session_def)
  next
    case False
    with m have "map_of (fs w') ?q = map_of (fs w) ?q" by metis
    moreover from this False m q e(2) have "\<not> Ok r" by metis
    ultimately show ?thesis by (simp add: disk_session_def)
  qed
  with keep show "disk_session E w' = (disk_session E w)(session_id s := None) \<or>
      \<not> Ok r \<and> disk_session E w' = disk_session E w"
    unfolding fun_eq_iff fun_upd_apply by metis
qed

text \<open>On success no session is left.\<close>

lemma delete_sessions_store:
  "store_inv E w \<Longrightarrow> delete_sessions E ss w = (r, w') \<Longrightarrow>
     store_inv E w' \<and> (\<exists>I \<subseteq> session_id ` set ss. disk_session E w' = disk_session E w |` (- I) \<and>
       (Ok r \<longrightarrow> I = session_id ` set ss))"
proof (induction ss arbitrary: w)
  case Nil
  then show ?case by auto
next
  case (Cons s ss)
  obtain r1 w1 where d: "DeleteSession E s w = (r1, w1)" by (cases "DeleteSession E s w")
  note ds = DeleteSession_store [OF Cons.prems(1) d]
  show ?case
  proof (cases "Ok r1")
    case False
    with Cons.prems(2) d have "w' = w1" "r = r1" by simp_all
    with ds False show ?thesis
      by (intro conjI exI [of _ "if disk_session E w' = disk_session E w then {} else {session_id s}"])
        (auto simp: restrict_map_def fun_eq_iff)
  next
    case True
    with Cons.prems(2) d have "delete_sessions E ss w1 = (r, w')" by simp
    with Cons.IH [OF ds(1)] obtain I where I: "store_inv E w'" "I \<subseteq> session_id ` set ss"
      "disk_session E w' = disk_session E w1 |` (- I)" "Ok r \<longrightarrow> I = session_id ` set ss" by blast
    moreover have "disk_session E w' = disk_session E w |` (- insert (session_id s) I)"
      using I(3) ds(2) True by (auto simp: restrict_map_def fun_eq_iff)
    ultimately show ?thesis by (intro conjI exI [of _ "insert (session_id s) I"]) auto
  qed
qed

lemma ClearSessions_store:
  assumes E: "store_env E" and inv: "store_inv E w" and run: "ClearSessions E w = (r, w')"
  shows "store_inv E w'" and "\<exists>I. disk_session E w' = disk_session E w |` (- I)"
    and "Ok r \<Longrightarrow> disk_session E w' = Map.empty"
proof -
  obtain ss w1 where g: "GetSessions E w = (ss, w1)" by (cases "GetSessions E w")
  with run have d: "delete_sessions E ss w1 = (r, w')" by (simp add: ClearSessions_def)
  note a = GetSessions_all [OF E inv g]
  note sp = spares_store [OF sess.frame_asks [OF a(1)] inv]
  note ds = delete_sessions_store [OF sp(1) d]
  then show "store_inv E w'" "\<exists>I. disk_session E w' = disk_session E w |` (- I)" using sp(2) by auto
  have "i \<in> session_id ` set ss" if "disk_session E w i = Some s" for i s
    using a(2) disk_own_id [OF inv that] that by (metis image_eqI)
  with ds sp(2) show "Ok r \<Longrightarrow> disk_session E w' = Map.empty"
    by (auto simp: restrict_map_def fun_eq_iff) (metis not_None_eq)
qed


section \<open>The active session\<close>

text \<open>The sessions on disk that are neither successful, failed to activate nor done rolling back.\<close>

definition unfinished_on_disk :: "env \<Rightarrow> world \<Rightarrow> SessionState set" where
  "unfinished_on_disk E w = {s. \<exists>i. disk_session E w i = Some s \<and>
     session_state s \<notin> {SUCCESS, ACTIVATION_FAILED, ROLLED_BACK, ROLLBACK_FAILED}}"

lemma IsFinalized_iff: "IsFinalized st \<longleftrightarrow> st \<in> {SUCCESS, ACTIVATION_FAILED, ROLLED_BACK, ROLLBACK_FAILED}"
  by (cases st) simp_all

text \<open>C20. Let the directory of sessions be readable and each session stand in the directory of its id.
  The active session is then the only session on disk in a state other than \<open>SUCCESS\<close>,
  \<open>ACTIVATION_FAILED\<close>, \<open>ROLLED_BACK\<close> and \<open>ROLLBACK_FAILED\<close>; the result is none exactly if there
  is no such session, and an error exactly if there are several.
\<close>

theorem GetActiveSession_correct:
  assumes E: "store_env E" and inv: "store_inv E w" and run: "GetActiveSession E w = (r, w')"
  shows "asks w w' \<and> (case r of
      Inr None \<Rightarrow> unfinished_on_disk E w = {}
    | Inr (Some s) \<Rightarrow> unfinished_on_disk E w = {s}
    | Inl _ \<Rightarrow> \<exists>s \<in> unfinished_on_disk E w. \<exists>t \<in> unfinished_on_disk E w. s \<noteq> t)"
proof -
  obtain ss w1 where g: "GetSessions E w = (ss, w1)" by (cases "GetSessions E w")
  note a = GetSessions_all [OF E inv g]
  let ?un = "filter (\<lambda>s. \<not> IsFinalized (session_state s)) ss"
  have "disk_session E w i = Some s \<longleftrightarrow> session_id s = i \<and> s \<in> set ss" for s i
    using a(2) disk_own_id [OF inv] by metis
  then have un: "set ?un = unfinished_on_disk E w"
    by (auto simp: unfinished_on_disk_def IsFinalized_iff)
  have d: "distinct ?un" using a(3) by (simp add: distinct_map)
  have r: "r = active_session ss None" "w' = w1" using run g by (simp_all add: GetActiveSession_def)
  consider "?un = []" | s where "?un = [s]" | s t us where "?un = s # t # us"
    by (metis neq_Nil_conv)
  then have "case active_session ss None of Inr None \<Rightarrow> set ?un = {} | Inr (Some s) \<Rightarrow> set ?un = {s}
      | Inl _ \<Rightarrow> \<exists>s \<in> set ?un. \<exists>t \<in> set ?un. s \<noteq> t"
  proof cases
    case (3 s t us)
    with d have "s \<noteq> t" "s \<in> set ?un" "t \<in> set ?un" by (simp_all del: set_filter)
    with 3 show ?thesis unfolding active_session_eq by (auto simp del: set_filter)
  qed (simp_all add: active_session_eq)
  then show ?thesis using r a(1) unfolding un by simp
qed

lemma sample_store: "store_env sample_env" "store_inv sample_env sample_sessions"
proof -
  show "store_env sample_env"
    using sample_faithful by (auto simp: store_env_def faithful_store_def hooks_spare_def sample_env_def)
  have "rooted sample_sessions"
    by (simp add: rooted_def sample_sessions_def sample_world_def clear_def mounted_def)
  moreover have "parents_ok sample_sessions"
  proof -
    have *: "\<forall>q \<in> fst ` set (fs sample_sessions). under kApexSessionsDir q \<and> q \<noteq> kApexSessionsDir \<longrightarrow>
        (case map_of (fs sample_sessions) (dirname q) of Some (Directory _) \<Rightarrow> True | _ \<Rightarrow> False)" by code_simp
    have "\<exists>m. map_of (fs sample_sessions) (dirname q) = Some (Directory m)"
      if "under kApexSessionsDir q" "q \<noteq> kApexSessionsDir" "map_of (fs sample_sessions) q \<noteq> None" for q
    proof -
      from that(3) have "q \<in> fst ` set (fs sample_sessions)" by (metis map_of_eq_None_iff)
      with * that(1,2) have "case map_of (fs sample_sessions) (dirname q) of Some (Directory _) \<Rightarrow> True | _ \<Rightarrow> False" by blast
      then show ?thesis by (auto split: option.splits node.splits)
    qed
    then show ?thesis by (simp add: parents_ok_def)
  qed
  moreover have "own_ids sample_env sample_sessions"
  proof -
    have *: "\<forall>q \<in> fst ` set (fs sample_sessions). basename q = kStateFileName \<longrightarrow>
        (case session_at sample_env sample_sessions (dirname q) of None \<Rightarrow> True
         | Some s \<Rightarrow> dirname q = getSessionDir (session_id s))" by code_simp
    have "d = getSessionDir (session_id s)" if s: "session_at sample_env sample_sessions d = Some s" for d s
    proof -
      have "slash d kStateFileName \<in> fst ` set (fs sample_sessions)"
      proof (rule ccontr)
        assume "\<not> ?thesis"
        then have "map_of (fs sample_sessions) (slash d kStateFileName) = None" by (metis map_of_eq_None_iff)
        with s show False by (simp add: session_at_def)
      qed
      with * s show ?thesis by fastforce
    qed
    then show ?thesis by (simp add: own_ids_def)
  qed
  ultimately show "store_inv sample_env sample_sessions" by (simp add: store_inv_def)
qed

theorem GetActiveSession_correct_witness:
  "\<exists>s. fst (GetActiveSession sample_env sample_sessions) = Inr (Some s) \<and>
     unfinished_on_disk sample_env sample_sessions = {s} \<and> session_state s = STAGED"
proof -
  have "case fst (GetActiveSession sample_env sample_sessions) of Inr (Some s) \<Rightarrow> session_state s = STAGED | _ \<Rightarrow> False"
    by code_simp
  then obtain s w' where s: "GetActiveSession sample_env sample_sessions = (Inr (Some s), w')" "session_state s = STAGED"
    by (cases "GetActiveSession sample_env sample_sessions") (auto split: sum.splits option.splits)
  with GetActiveSession_correct [OF sample_store s(1)] show ?thesis by simp
qed

end
