(* ===== verification/Requests.thy ===== *)
theory Requests
  imports Daemon_Frame
begin

text \<open>
  The daemon as a whole: the requests it serves, its starts and the restarts of the device,
  and what follows for all of them from what holds of the operations on sessions.
\<close>

section \<open>Requests\<close>

text \<open>
  What the daemon is asked for, its starts and the restarts of the device included. A start
  begins with an empty process, on the file system the last one left; the hooks of
  \<open>exec_effect\<close> run inside it. A device that loses power in the middle of an operation is one
  whose calls all fail from then on, until it restarts.
\<close>

datatype request =
    Submit int32 "int32 list" | Ready int32 | Successful int32 | Abort | Rollback | RollbackAndReboot | Resume
  | StagePackages "path list" | UnstagePackages "path list" | Activate path | Deactivate path
  | Preinstall "path list" | Postinstall "path list"
  | Bootstrap | Start "bool option" | BootCompleted | DeviceRestart

definition new_process :: "world \<Rightarrow> world" where
  "new_process w = w\<lparr>gMountedApexes := [], gScannedApexKeys := [], gBootstrap := False,
     gVoldService := None, gSupportsFsCheckpoints := False, gInFsCheckpointMode := False\<rparr>"

text \<open>The kernel starts with nothing mounted and no devices; the files are what is left.\<close>

definition restart :: "world \<Rightarrow> world" where
  "restart w = (new_process w)\<lparr>mnts := [], hist := Restarted # hist w\<rparr>"

fun perform :: "env \<Rightarrow> request \<Rightarrow> world \<Rightarrow> world option" where
  "perform E (Submit i ids) w = map_option snd (submitStagedSession E i ids w)"
| "perform E (Ready i) w = Some (snd (markStagedSessionReady E i w))"
| "perform E (Successful i) w = Some (snd (markStagedSessionSuccessful E i w))"
| "perform E Abort w = Some (snd (abortActiveSession E w))"
| "perform E Rollback w = Some (snd (rollbackActiveSession E w))"
| "perform E RollbackAndReboot w = map_option snd (rollbackActiveSessionAndReboot E w)"
| "perform E Resume w = Some (snd (resumeRollbackIfNeeded E w))"
| "perform E (StagePackages ps) w = map_option snd (stagePackages E ps w)"
| "perform E (UnstagePackages ps) w = Some (snd (unstagePackages E ps w))"
| "perform E (Activate p) w = map_option snd (activatePackage E p w)"
| "perform E (Deactivate p) w = Some (snd (deactivatePackage E p w))"
| "perform E (Preinstall ps) w = map_option snd (preinstallPackages E ps w)"
| "perform E (Postinstall ps) w = map_option snd (postinstallPackages E ps w)"
| "perform E Bootstrap w = map_option snd (onBootstrap E (new_process w))"
| "perform E (Start cs) w = onStart E cs (new_process w)"
| "perform E BootCompleted w = Some (unmountDanglingMounts E w)"
| "perform E DeviceRestart w = Some (restart w)"

text \<open>Requests served one after the other; \<open>None\<close> is a daemon that aborts or hangs.\<close>

fun run_all :: "('r \<Rightarrow> 'w \<Rightarrow> 'w option) \<Rightarrow> 'r list \<Rightarrow> 'w \<Rightarrow> 'w option" where
  "run_all step [] w = Some w"
| "run_all step (r # rs) w = (case step r w of None \<Rightarrow> None | Some w1 \<Rightarrow> run_all step rs w1)"

text \<open>A machine that the daemon refines, request by request.\<close>

locale simulation =
  fixes good :: "'e \<Rightarrow> bool"
    and allowed :: "'r \<Rightarrow> bool"
    and inv :: "'e \<Rightarrow> 'w \<Rightarrow> bool"
    and abs :: "'e \<Rightarrow> 'w \<Rightarrow> 'a"
    and step :: "'e \<Rightarrow> 'r \<Rightarrow> 'w \<Rightarrow> 'w option"
    and astep :: "'a \<Rightarrow> 'a \<Rightarrow> bool"
  assumes simulates: "good E \<Longrightarrow> allowed r \<Longrightarrow> inv E w \<Longrightarrow> step E r w = Some w' \<Longrightarrow>
    inv E w' \<and> astep\<^sup>*\<^sup>* (abs E w) (abs E w')"
begin

lemma run_simulates:
  "good E \<Longrightarrow> list_all allowed rs \<Longrightarrow> inv E w \<Longrightarrow> run_all (step E) rs w = Some w' \<Longrightarrow>
     inv E w' \<and> astep\<^sup>*\<^sup>* (abs E w) (abs E w')"
proof (induction rs arbitrary: w)
  case (Cons r rs)
  from Cons.prems(2) have r: "allowed r" "list_all allowed rs" by simp_all
  from Cons.prems(4) obtain w1 where s: "step E r w = Some w1" "run_all (step E) rs w1 = Some w'"
    by (auto split: option.splits)
  note 1 = simulates [OF Cons.prems(1) r(1) Cons.prems(3) s(1)]
  from Cons.IH [OF Cons.prems(1) r(2) _ s(2)] 1 show ?case by (auto elim: rtranclp_trans)
qed simp

lemma abstract_invariant:
  assumes "good E" "list_all allowed rs" "inv E w" "run_all (step E) rs w = Some w'"
    and "\<And>a b. P a \<Longrightarrow> astep a b \<Longrightarrow> P b" and "P (abs E w)"
  shows "P (abs E w')"
  using conjunct2 [OF run_simulates [OF assms(1-4)]] assms(6) by (induction rule: rtranclp_induct) (auto intro: assms(5))

end

section \<open>All requests at once\<close>

text \<open>
  \<open>P\<close> holds of what \<open>Daemon_Frame\<close> follows through, \<open>Q\<close> of the operations on sessions besides;
  then \<open>Q\<close> holds of all the daemon does.
\<close>

locale request_frame = daemon_frame E P for E :: env and P :: "world \<Rightarrow> world \<Rightarrow> bool" +
  fixes Q :: "world \<Rightarrow> world \<Rightarrow> bool"
  assumes Q_trans: "Q w1 w2 \<Longrightarrow> Q w2 w3 \<Longrightarrow> Q w1 w3"
    and Q_framed: "framed P w w' \<Longrightarrow> Q w w'"
    and Q_submit: "execs_keep E P \<Longrightarrow> submitStagedSession E i ids w = Some (r, w') \<Longrightarrow> Q w w'"
    and Q_ready: "markStagedSessionReady E i w = (st, w') \<Longrightarrow> Q w w'"
    and Q_successful: "markStagedSessionSuccessful E i w = (st, w') \<Longrightarrow> Q w w'"
    and Q_abort: "abortActiveSession E w = (st, w') \<Longrightarrow> Q w w'"
    and Q_rollback: "rollbackActiveSession E w = (st, w') \<Longrightarrow> Q w w'"
    and Q_rollback_staged: "rollbackStagedSessionIfAny E w = (st, w') \<Longrightarrow> Q w w'"
    and Q_resume: "resumeRollbackIfNeeded E w = (st, w') \<Longrightarrow> Q w w'"
    and Q_stage: "execs_keep E P \<Longrightarrow> scanStagedSessionsDirAndStage E w = Some w' \<Longrightarrow> Q w w'"
begin

lemma Q_asks: "asks w w' \<Longrightarrow> Q w w'"
  by (rule Q_framed [OF frame_asks])

lemma Q_rollback_reboot:
  assumes run: "rollbackActiveSessionAndReboot E w = Some (r, w')"
  shows "Q w w'"
proof -
  obtain r1 w1 where b: "rollbackActiveSession E w = (r1, w1)" by (cases "rollbackActiveSession E w")
  have "asks v (snd (AbortChanges E m rt b v))" for m rt b v
    using vold.asks_only(4) [OF prod.collapse [symmetric]] .
  then have "asks w1 (Reboot (snd (AbortChanges E m rt b w1)))" for m rt b using Reboot_asks asks_trans by blast
  then have "asks w1 w'"
    using run b Reboot_asks by (auto simp: rollbackActiveSessionAndReboot_def split: if_splits option.splits)
  with Q_rollback [OF b] show ?thesis using Q_asks Q_trans by blast
qed

lemma Q_activate_all:
  assumes run: "activate_all E w = Some w'"
  shows "Q w w'"
proof -
  from run obtain st w1 where s: "scanPackagesDirAndActivate E kActiveApexPackagesDataDir w = Some (st, w1)"
    by (auto simp: activate_all_def split: option.splits)
  from run s obtain r w2 where r: "(if Ok st then Some (Success, w1) else rollbackActiveSessionAndReboot E w1) = Some (r, w2)"
    "scan_builtin E kApexPackageBuiltinDirs w2 = Some w'"
    by (auto simp: activate_all_def split: option.splits)
  have "Q w1 w2" using r(1) Q_rollback_reboot Q_asks by (auto split: if_splits)
  with Q_framed [OF frame_scanPackagesDir [OF s]] Q_framed [OF frame_scan_builtin [OF r(2)]]
  show ?thesis using Q_trans by blast
qed

lemma Q_rollback_if_asked:
  assumes run: "rollback_if_asked E w = Some w'"
  shows "Q w w'"
proof (cases "w' = w")
  case False
  with run obtain c where c: "gVoldService w = Some c" "gSupportsFsCheckpoints w"
    by (auto simp: rollback_if_asked_def split: if_splits option.splits)
  obtain n w1 where n: "NeedsRollback E c w = (n, w1)" by (cases "NeedsRollback E c w")
  obtain r w2 where r: "rollbackStagedSessionIfAny E w1 = (r, w2)" by (cases "rollbackStagedSessionIfAny E w1")
  from run c n r have "w' = w1 \<or> w' = w2" by (auto simp: rollback_if_asked_def split: if_splits)
  with Q_asks [OF vold.asks_only(2) [OF n]] Q_rollback_staged [OF r] show ?thesis
    using Q_trans by blast
qed (simp add: Q_asks)

lemma Q_start:
  assumes execs: "execs_keep E P" and run: "onStart E cs w = Some w'"
  shows "Q w w'"
proof -
  let ?w2 = "use_checkpoint_service E cs (snd (SetProperty E kApexStatusSysprop kApexStatusStarting w))"
  have s2: "Q w ?w2"
    by (rule Q_framed [OF frame_trans [OF frame_asks [OF SetProperty_asks] frame_use_checkpoint]])
  from run obtain w3 where r: "rollback_if_asked E ?w2 = Some w3"
    by (auto simp: onStart_def Let_def split: option.splits)
  note s3 = Q_trans [OF s2 Q_rollback_if_asked [OF r]]
  obtain st w4 where k: "collectApexKeys E w3 = (st, w4)" by (cases "collectApexKeys E w3")
  note s4 = Q_trans [OF s3 Q_framed [OF frame_collectApexKeys [OF k]]]
  show ?thesis
  proof (cases "Ok st")
    case False
    with run r k s4 show ?thesis by (simp add: onStart_def Let_def)
  next
    case True
    with run r k obtain w5 where p: "PopulateFromMounts E w4 = Some w5"
      by (auto simp: onStart_def Let_def split: option.splits)
    note s5 = Q_trans [OF s4 Q_framed [OF frame_PopulateFromMounts [OF p]]]
    from run r k True p obtain w6 where g: "scanStagedSessionsDirAndStage E w5 = Some w6"
      by (auto simp: onStart_def Let_def split: option.splits)
    note s6 = Q_trans [OF s5 Q_stage [OF execs g]]
    obtain q w7 where q: "resumeRollbackIfNeeded E w6 = (q, w7)" by (cases "resumeRollbackIfNeeded E w6")
    note s7 = Q_trans [OF s6 Q_resume [OF q]]
    from run r k True p g q have "activate_all E w7 = Some w'" by (simp add: onStart_def Let_def)
    with s7 Q_activate_all show ?thesis using Q_trans by blast
  qed
qed

lemma Q_perform:
  assumes execs: "execs_keep E P"
    and unstage: "\<And>ps p v. req = UnstagePackages ps \<Longrightarrow> p \<in> set ps \<Longrightarrow> P v (snd (sys_unlink E p v))"
    and starts: "P w (new_process w)" "P w (restart w)"
    and run: "perform E req w = Some w'"
  shows "Q w w'"
proof -
  have new: "Q w (new_process w)" "Q w (restart w)"
    using starts
    by (auto intro!: Q_framed simp: framed_def rooted_def restart_def new_process_def clear_def mounted_def)
  show ?thesis
  proof (cases req)
    case (UnstagePackages ps)
    with frame_unstagePackages [OF unstage [OF UnstagePackages]] run show ?thesis by (auto intro: Q_framed)
  qed (use run new execs in \<open>auto
      intro: Q_submit Q_ready [OF prod.collapse [symmetric]] Q_successful [OF prod.collapse [symmetric]]
        Q_abort [OF prod.collapse [symmetric]] Q_rollback [OF prod.collapse [symmetric]]
        Q_resume [OF prod.collapse [symmetric]] Q_rollback_reboot Q_trans [OF _ Q_start]
        Q_trans [OF _ Q_framed [OF frame_onBootstrap]] Q_framed frame_stagePackages frame_activatePackage
        frame_deactivatePackage [OF prod.collapse [symmetric]] frame_preinstallPackages
        frame_unmountDanglingMounts\<close>)
qed

end

section \<open>Operations on sessions\<close>

text \<open>They write below \<open>/data/apex/sessions\<close> and are otherwise made of the operations above.\<close>

locale session_writes = daemon_frame E P for E :: env and P :: "world \<Rightarrow> world \<Rightarrow> bool" +
  assumes P_sessions: "only_fs (under kApexSessionsDir) w w' \<Longrightarrow> P w w'"
begin

lemma frame_sessions: "only_fs R w w' \<Longrightarrow> (\<And>q. R q \<Longrightarrow> under kApexSessionsDir q) \<Longrightarrow> framed P w w'"
  using only_fs_mono [of R w w' "under kApexSessionsDir"] only_fs_state [of R w w'] rooted_cong [of w' w]
    P_sessions unfolding framed_def by blast

lemma frame_commit: "UpdateStateAndCommit E st s w = (r, s', w') \<Longrightarrow> framed P w w'"
  using UpdateStateAndCommit_frame [of E st s w r s' w'] session_path_under
  by (blast intro: frame_sessions)

lemma frame_create:
  assumes "CreateSession E i w = (r, w')"
  shows "framed P w w'"
proof -
  obtain r1 w1 where a: "createDirIfNeeded E kApexSessionsDir 448 w = (r1, w1)"
    by (cases "createDirIfNeeded E kApexSessionsDir 448 w")
  obtain r2 w2 where b: "createDirIfNeeded E (getSessionDir i) 448 w1 = (r2, w2)"
    by (cases "createDirIfNeeded E (getSessionDir i) 448 w1")
  have d: "under kApexSessionsDir (getSessionDir i)" by (simp add: getSessionDir_def)
  have s: "framed P w w1" "framed P w1 w2"
    by (rule frame_sessions [OF createDirIfNeeded_frame [OF a]], simp)
      (rule frame_sessions [OF createDirIfNeeded_frame [OF b]], simp add: d)
  from assms a b have "w' = w1 \<or> w' = w2"
    by (auto simp: CreateSession_def createSessionDirIfNeeded_def Let_def split: sum.splits)
  with s show ?thesis by (blast intro: frame_trans)
qed

lemma frame_remove_each: "\<forall>p \<in> set ps. under kApexSessionsDir p \<Longrightarrow> remove_each E ps w = (r, w') \<Longrightarrow> framed P w w'"
proof (induction ps arbitrary: w)
  case (Cons p ps)
  obtain r1 w1 where c: "fs_call E (SysRemove p) (remove_eff p) w = (r1, w1)"
    by (cases "fs_call E (SysRemove p) (remove_eff p) w")
  have "only_fs (\<lambda>q. q = p) w (snd (fs_call E (SysRemove p) (remove_eff p) w))"
    by (rule fs_call_frame)
      (auto simp: remove_eff_def AList.delete_conv' split: option.splits if_splits)
  with c Cons.prems(1) have "framed P w w1" by (auto intro: frame_sessions)
  with Cons c show ?case by (auto split: if_splits intro: frame_trans)
qed simp

lemma frame_delete:
  assumes "DeleteSession E s w = (r, w')"
  shows "framed P w w'"
proof -
  let ?d = "getSessionDir (session_id s)"
  from assms obtain r1 where "remove_all E ?d w = (r1, w')"
    by (auto simp: DeleteSession_def deleteSessionDir_def split: prod.splits)
  moreover have "under kApexSessionsDir ?d" by (simp add: getSessionDir_def)
  ultimately show ?thesis
    unfolding remove_all_def by (intro frame_remove_each) (auto intro: under_trans)
qed

lemma frame_delete_sessions: "delete_sessions E ss w = (r, w') \<Longrightarrow> framed P w w'"
proof (induction ss arbitrary: w)
  case (Cons s ss)
  obtain r1 w1 where d: "DeleteSession E s w = (r1, w1)" by (cases "DeleteSession E s w")
  with Cons frame_delete [OF d] show ?case by (auto split: if_splits intro: frame_trans)
qed simp

lemma frame_clear_sessions: "ClearSessions E w = (r, w') \<Longrightarrow> framed P w w'"
  by (auto simp: ClearSessions_def split: prod.splits
      intro: frame_trans [OF frame_asks [OF GetSessions_asks] frame_delete_sessions])

lemma frame_ready: "markStagedSessionReady E i w = (r, w') \<Longrightarrow> framed P w w'"
  by (auto simp: markStagedSessionReady_def split: prod.splits sum.splits if_splits
      dest!: GetSession_asks frame_commit intro: frame_asks frame_trans)

lemma frame_successful: "markStagedSessionSuccessful E i w = (r, w') \<Longrightarrow> framed P w w'"
  by (auto simp: markStagedSessionSuccessful_def split: prod.splits sum.splits if_splits
      dest!: GetSession_asks frame_DeleteBackup frame_commit intro: frame_asks frame_trans)

lemma frame_DoRollback: "DoRollback E s w = (r, s', w') \<Longrightarrow> framed P w w'"
  by (auto simp: DoRollback_def split: prod.splits if_splits
      dest!: frame_restore_backup frame_commit intro: frame_trans)

lemma frame_RollbackActivated: "RollbackActivatedSession E s w = (r, s', w') \<Longrightarrow> framed P w w'"
  by (auto simp: RollbackActivatedSession_def split: prod.splits sum.splits if_splits
      dest!: frame_DoRollback frame_commit intro: frame_trans)

lemma frame_RollbackSession: "RollbackSession E s w = (r, s', w') \<Longrightarrow> framed P w w'"
  by (auto simp: RollbackSession_def RollbackStagedSession_def split: State.splits
      dest!: frame_RollbackActivated frame_commit)

lemma frame_ResumeRollback: "ResumeRollback E s w = (r, s', w') \<Longrightarrow> framed P w w'"
  by (auto simp: ResumeRollback_def split: prod.splits sum.splits if_splits
      dest!: PathExists_asks frame_DoRollback frame_commit intro: frame_asks frame_trans)

lemma frame_active_session:
  "resumeRollbackIfNeeded E w = (r, w') \<Longrightarrow> framed P w w'"
  "abortActiveSession E w = (r, w') \<Longrightarrow> framed P w w'"
  "rollbackStagedSessionIfAny E w = (r, w') \<Longrightarrow> framed P w w'"
  "rollbackActiveSession E w = (r, w') \<Longrightarrow> framed P w w'"
  by (auto simp: resumeRollbackIfNeeded_def abortActiveSession_def rollbackStagedSessionIfAny_def
      rollbackActiveSession_def RollbackStagedSession_def
      split: prod.splits sum.splits option.splits if_splits State.splits
      dest!: GetActiveSession_asks frame_ResumeRollback frame_RollbackActivated frame_RollbackSession
        frame_delete frame_commit
      intro: frame_asks frame_trans)

lemma frame_committed: "framed P w v \<Longrightarrow> framed P w (commit E st s v)"
  unfolding commit_def using frame_commit [OF prod_cases3] frame_trans
  by (metis frame_commit prod.collapse)

lemma frame_stage_session:
  assumes execs: "execs_keep E P" and run: "stage_session E s w = Some w'"
  shows "framed P w w'"
  using run
  by (auto simp: stage_session_def split: prod.splits option.splits sum.splits
      dest!: scan_session_dirs_asks frame_preinstallPackages(2) [OF execs] frame_stagePackages
      intro!: frame_committed intro: frame_asks frame_trans)

lemma frame_stage_sessions: "execs_keep E P \<Longrightarrow> stage_sessions E ss w = Some w' \<Longrightarrow> framed P w w'"
  by (induction ss arbitrary: w) (auto split: option.splits intro: frame_trans frame_stage_session)

lemma frame_stage_at_boot: "execs_keep E P \<Longrightarrow> scanStagedSessionsDirAndStage E w = Some w' \<Longrightarrow> framed P w w'"
  by (auto simp: scanStagedSessionsDirAndStage_def split: prod.splits
      dest!: GetSessionsInState_asks frame_stage_sessions intro: frame_asks frame_trans)

lemma frame_record: "record_session E i ids ret w = (r, w') \<Longrightarrow> framed P w w'"
  by (auto simp: record_session_def split: prod.splits sum.splits
      dest!: frame_create frame_commit intro: frame_trans)

lemma frame_submit:
  assumes execs: "execs_keep E P" and run: "submitStagedSession E i ids w = Some (r, w')"
  shows "framed P w w'"
  using run
  by (auto simp: submitStagedSession_def split: prod.splits sum.splits option.splits
      dest!: frame_clear_sessions frame_backup_or_checkpoint frame_verify_dirs
        frame_PreinstallPackages(1) [OF execs] frame_record
      intro: frame_trans) (meson frame_trans)

end

sublocale session_writes < requests: request_frame E P "\<lambda>w w'. execs_keep E P \<longrightarrow> framed P w w'"
  by unfold_locales (auto intro: frame_trans frame_submit frame_ready frame_successful
      frame_active_session frame_stage_at_boot)

end
