(* ===== verification/Lifecycle.thy ===== *)
theory Lifecycle
  imports Session_Store Requests
begin

text \<open>
  The life of staged sessions: an abstract machine over the sessions on disk, and the proof
  that every request the daemon serves, and every start of the daemon, is a sequence of its
  steps, whatever calls fail on the way.
\<close>

section \<open>The abstract machine\<close>

type_synonym sessions = "int32 \<rightharpoonup> SessionState"

inductive moves :: "State \<Rightarrow> State \<Rightarrow> bool" where
  ready: "moves VERIFIED STAGED"
| activated: "moves STAGED ACTIVATED"
| not_activated: "moves STAGED ACTIVATION_FAILED"
| abandoned: "moves STAGED ROLLED_BACK"
| successful: "moves ACTIVATED SUCCESS"
| rollback: "moves ACTIVATED ROLLBACK_IN_PROGRESS"
| rolled_back: "moves ROLLBACK_IN_PROGRESS ROLLED_BACK"
| rollback_failed: "moves ROLLBACK_IN_PROGRESS ROLLBACK_FAILED"


inductive session_step :: "sessions \<Rightarrow> sessions \<Rightarrow> bool" where
  submit: "session_step Map.empty
     [i \<mapsto> \<lparr>session_id = i, session_state = VERIFIED, child_session_ids = ids\<rparr>]"
| move: "\<sigma> i = Some s \<Longrightarrow> moves (session_state s) st \<Longrightarrow>
     session_step \<sigma> (\<sigma>(i \<mapsto> s\<lparr>session_state := st\<rparr>))"
| forget: "session_step \<sigma> (\<sigma> |` (- I))"

inductive_cases session_stepE: "session_step \<sigma> \<sigma>'"




section \<open>Single operations\<close>

definition follows :: "env \<Rightarrow> world \<Rightarrow> world \<Rightarrow> bool" where
  "follows E w w' \<longleftrightarrow> (store_inv E w \<longrightarrow>
     store_inv E w' \<and> session_step\<^sup>*\<^sup>* (disk_session E w) (disk_session E w'))"

lemma follows_trans [trans]: "follows E w1 w2 \<Longrightarrow> follows E w2 w3 \<Longrightarrow> follows E w1 w3"
  by (auto simp: follows_def intro: rtranclp_trans)

lemma follows_refl [simp]: "follows E w w"
  by (simp add: follows_def)

lemma follows_spares: "spares w w' \<Longrightarrow> follows E w w'"
  using spares_store unfolding follows_def by fastforce

lemma follows_asks: "asks w w' \<Longrightarrow> follows E w w'"
  by (rule follows_spares [OF sess.frame_asks])

lemma follows_guarded: "(store_inv E w \<Longrightarrow> follows E w w') \<Longrightarrow> follows E w w'"
  by (auto simp: follows_def)

lemma followsI: "(store_inv E w \<Longrightarrow> store_inv E w' \<and> session_step\<^sup>*\<^sup>* (disk_session E w) (disk_session E w')) \<Longrightarrow>
    follows E w w'"
  by (simp add: follows_def)

text \<open>A session object that agrees with the disk.\<close>

definition fresh_copy :: "env \<Rightarrow> world \<Rightarrow> SessionState \<Rightarrow> bool" where
  "fresh_copy E w s \<longleftrightarrow> store_inv E w \<and> disk_session E w (session_id s) = Some s"

lemma fresh_spares: "fresh_copy E w s \<Longrightarrow> spares w w' \<Longrightarrow> fresh_copy E w' s"
  unfolding fresh_copy_def using spares_store by metis

lemma commit_follows:
  assumes E: "store_env E" and s: "fresh_copy E w s" and m: "moves (session_state s) st"
    and run: "UpdateStateAndCommit E st s w = (r, s', w')"
  shows "follows E w w'" and "s' = s\<lparr>session_state := st\<rparr>" and "Ok r \<Longrightarrow> fresh_copy E w' s'"
proof -
  have inv: "store_inv E w" and d: "disk_session E w (session_id s) = Some s"
    using s by (simp_all add: fresh_copy_def)
  note c = commit_store [OF E inv run]
  show "s' = s\<lparr>session_state := st\<rparr>" by (rule c(2))
  have "session_step (disk_session E w) ((disk_session E w)(session_id s \<mapsto> s\<lparr>session_state := st\<rparr>))"
    using d m by (rule session_step.move)
  with c(1,3) show "follows E w w'" by (auto simp: follows_def)
  show "fresh_copy E w' s'" if "Ok r" using c that by (auto simp: fresh_copy_def)
qed

lemma GetSession_fresh:
  assumes "store_inv E w" and "GetSession E i w = (Inr s, w')"
  shows "fresh_copy E w' s" and "session_id s = i"
proof -
  have "clear w kApexSessionsDir" using assms(1) rooted_data [of w kApexSessionsDir] by (simp add: store_inv_def)
  then have d: "disk_session E w i = Some s" by (rule GetSession_Inr [OF assms(2)])
  show "session_id s = i" by (rule disk_own_id [OF assms(1) d])
  with d have "fresh_copy E w s" using assms(1) by (simp add: fresh_copy_def)
  then show "fresh_copy E w' s" using sess.frame_asks [OF GetSession_asks [OF assms(2)]] by (rule fresh_spares)
qed


lemma active_session_in: "active_session ss ret = Inr (Some s) \<Longrightarrow> s \<in> set ss \<or> ret = Some s"
  by (induction ss arbitrary: ret) (auto split: if_splits)

lemma GetActiveSession_fresh:
  assumes "store_env E" "store_inv E w" and g: "GetActiveSession E w = (Inr (Some s), w')"
  shows "fresh_copy E w' s"
proof -
  obtain ss w1 where gs: "GetSessions E w = (ss, w1)" by (cases "GetSessions E w")
  with g have "active_session ss None = Inr (Some s)" "w1 = w'" by (auto simp: GetActiveSession_def)
  then have "s \<in> set ss" using active_session_in by fastforce
  with GetSessions_all [OF assms(1,2) gs] have "fresh_copy E w s" "asks w w1"
    using assms(2) by (simp_all add: fresh_copy_def)
  with fresh_spares sess.frame_asks \<open>w1 = w'\<close> show ?thesis by blast
qed

lemma GetActiveSession_follows: "GetActiveSession E w = (r, w') \<Longrightarrow> follows E w w'"
  by (rule follows_asks [OF GetActiveSession_asks])

section \<open>The requests\<close>

lemma follows_markReady:
  assumes E: "store_env E" and run: "markStagedSessionReady E i w = (r, w')"
  shows "follows E w w'"
proof (rule follows_guarded)
  assume inv: "store_inv E w"
  obtain g w1 where g: "GetSession E i w = (g, w1)" by (cases "GetSession E i w")
  note f = follows_asks [OF GetSession_asks [OF g]]
  show "follows E w w'"
  proof (cases "\<exists>s. g = Inr s \<and> session_state s = VERIFIED")
    case False
    with run g have "w' = w1" by (auto simp: markStagedSessionReady_def split: sum.splits if_splits)
    with f show ?thesis by simp
  next
    case True
    then obtain s where s: "g = Inr s" "session_state s = VERIFIED" by blast
    obtain r2 s2 w2 where u: "UpdateStateAndCommit E STAGED s w1 = (r2, s2, w2)" by (rule prod_cases3)
    with run g s have "w' = w2" by (simp add: markStagedSessionReady_def)
    moreover have "follows E w1 w2"
      using commit_follows(1) [OF E GetSession_fresh(1) [OF inv g [unfolded s(1)]] _ u] s(2)
      by (simp add: moves.intros)
    ultimately show ?thesis using f follows_trans by blast
  qed
qed

lemma follows_markSuccessful:
  assumes E: "store_env E" and run: "markStagedSessionSuccessful E i w = (r, w')"
  shows "follows E w w'"
proof (rule follows_guarded)
  assume inv: "store_inv E w"
  obtain g w1 where g: "GetSession E i w = (g, w1)" by (cases "GetSession E i w")
  note f = follows_asks [OF GetSession_asks [OF g]]
  show "follows E w w'"
  proof (cases "\<exists>s. g = Inr s \<and> session_state s = ACTIVATED")
    case False
    with run g have "w' = w1" by (auto simp: markStagedSessionSuccessful_def split: sum.splits if_splits)
    with f show ?thesis by simp
  next
    case True
    then obtain s where s: "g = Inr s" "session_state s = ACTIVATED" by blast
    obtain r2 w2 where d: "DeleteBackup E w1 = (r2, w2)" by (cases "DeleteBackup E w1")
    note sp = sess.frame_DeleteBackup [OF d]
    have fr: "fresh_copy E w2 s" by (rule fresh_spares [OF GetSession_fresh(1) [OF inv g [unfolded s(1)]] sp])
    obtain r3 s3 w3 where u: "UpdateStateAndCommit E SUCCESS s w2 = (r3, s3, w3)" by (rule prod_cases3)
    have "follows E w2 w3" using commit_follows(1) [OF E fr _ u] s(2) by (simp add: moves.intros)
    moreover from run g s d u have "w' = w2 \<or> w' = w3"
      by (auto simp: markStagedSessionSuccessful_def split: sum.splits)
    ultimately show ?thesis using f follows_spares [OF sp] follows_trans by blast
  qed
qed

text \<open>Rolling back a session that is in progress of it.\<close>

lemma follows_DoRollback:
  assumes E: "store_env E" and s: "fresh_copy E w s" "session_state s = ROLLBACK_IN_PROGRESS"
    and run: "DoRollback E s w = (st, s', w')"
  shows "follows E w w'" and "Ok st \<Longrightarrow> s' = s \<and> fresh_copy E w' s"
proof -
  obtain r1 w1 where b: "restore_backup E w = (r1, w1)" by (cases "restore_backup E w")
  note sp = sess.frame_restore_backup [OF b]
  note fr = fresh_spares [OF s(1) sp]
  obtain r2 s2 w2 where u: "UpdateStateAndCommit E ROLLBACK_FAILED s w1 = (r2, s2, w2)" by (rule prod_cases3)
  have "follows E w1 w2" using commit_follows(1) [OF E fr _ u] s(2) by (simp add: moves.intros)
  then have "follows E w w2" by (rule follows_trans [OF follows_spares [OF sp]])
  moreover from run b u have "st = Success \<and> s' = s \<and> w' = w \<or> Ok st \<and> s' = s \<and> w' = w1 \<or> \<not> Ok st \<and> w' = w2"
    by (auto simp: DoRollback_def Let_def split: if_splits)
  ultimately show "follows E w w'" "Ok st \<Longrightarrow> s' = s \<and> fresh_copy E w' s"
    using follows_spares [OF sp] fr s(1) by auto
qed

lemma follows_finish:
  assumes E: "store_env E" and s: "fresh_copy E w s" "session_state s = ROLLBACK_IN_PROGRESS"
    and run: "DoRollback E s w = (st, s1, w1)" "UpdateStateAndCommit E ROLLED_BACK s1 w1 = (r, s', w')" "Ok st"
  shows "follows E w w'"
proof -
  note d = follows_DoRollback [OF E s run(1)]
  have "follows E w1 w'"
    using commit_follows(1) [OF E _ _ run(2)] d(2) [OF run(3)] s(2) by (simp add: moves.intros)
  with d(1) show ?thesis by (rule follows_trans)
qed

lemma follows_RollbackActivated:
  assumes E: "store_env E" and s: "fresh_copy E w s" "session_state s = ACTIVATED"
    and run: "RollbackActivatedSession E s w = (st, s', w')"
  shows "follows E w w'"
proof (cases "gInFsCheckpointMode w")
  case True
  with run show ?thesis by (simp add: RollbackActivatedSession_def)
next
  case False
  obtain r1 s1 w1 where u: "UpdateStateAndCommit E ROLLBACK_IN_PROGRESS s w = (r1, s1, w1)" by (rule prod_cases3)
  note c = commit_follows [OF E s(1) _ u]
  have m: "moves (session_state s) ROLLBACK_IN_PROGRESS" by (simp add: s(2) moves.intros)
  note f1 = c(1) [OF m]
  obtain r2 s2 w2 where d: "DoRollback E s1 w1 = (r2, s2, w2)" by (rule prod_cases3)
  obtain r3 s3 w3 where v: "UpdateStateAndCommit E ROLLED_BACK s2 w2 = (r3, s3, w3)" by (rule prod_cases3)
  have "follows E w1 w2" "Ok r2 \<Longrightarrow> follows E w1 w3" if "Ok r1"
    using follows_DoRollback(1) [OF E _ _ d] follows_finish [OF E _ _ d v] c(2,3) [OF m] that by auto
  moreover from run False u d v have "w' = w1 \<or> Ok r1 \<and> w' = w2 \<or> Ok r1 \<and> Ok r2 \<and> w' = w3"
    by (auto simp: RollbackActivatedSession_def split: sum.splits)
  ultimately show ?thesis using f1 follows_trans by blast
qed

lemma follows_RollbackStaged:
  assumes E: "store_env E" and s: "fresh_copy E w s" "session_state s = STAGED"
    and run: "RollbackStagedSession E s w = (st, s', w')"
  shows "follows E w w'"
  using commit_follows(1) [OF E s(1) _ run [unfolded RollbackStagedSession_def]] s(2) by (simp add: moves.intros)

lemma follows_RollbackSession:
  assumes E: "store_env E" and s: "fresh_copy E w s" and run: "RollbackSession E s w = (st, s', w')"
  shows "follows E w w'"
  using run follows_RollbackStaged [OF E s] follows_RollbackActivated [OF E s]
  by (auto simp: RollbackSession_def split: State.splits)

lemma follows_ResumeRollback:
  assumes E: "store_env E" and s: "fresh_copy E w s" "session_state s = ROLLBACK_IN_PROGRESS"
    and run: "ResumeRollback E s w = (st, s', w')"
  shows "follows E w w'"
proof -
  obtain b w1 where p: "PathExists E kApexBackupDir w = (b, w1)" by (cases "PathExists E kApexBackupDir w")
  note sp = sess.frame_asks [OF PathExists_asks [OF p]]
  note fr = fresh_spares [OF s(1) sp]
  obtain r2 s2 w2 where d: "DoRollback E s w1 = (r2, s2, w2)" by (rule prod_cases3)
  obtain r3 s3 w3 where v: "UpdateStateAndCommit E ROLLED_BACK s2 w2 = (r3, s3, w3)" by (rule prod_cases3)
  obtain r4 s4 w4 where x: "UpdateStateAndCommit E ROLLED_BACK s w1 = (r4, s4, w4)" by (rule prod_cases3)
  have "follows E w1 w2" "Ok r2 \<Longrightarrow> follows E w1 w3"
    using follows_DoRollback(1) [OF E fr s(2) d] follows_finish [OF E fr s(2) d v] by auto
  moreover have "follows E w1 w4" using commit_follows(1) [OF E fr _ x] s(2) by (simp add: moves.intros)
  moreover from run p d v x have "w' = w1 \<or> w' = w2 \<or> Ok r2 \<and> w' = w3 \<or> w' = w4"
    by (auto simp: ResumeRollback_def split: sum.splits if_splits)
  ultimately show ?thesis using follows_spares [OF sp] follows_trans by blast
qed

lemma follows_active:
  assumes E: "store_env E" and g: "GetActiveSession E w = (r, w1)"
    and s: "\<And>s. r = Inr (Some s) \<Longrightarrow> fresh_copy E w1 s \<Longrightarrow> follows E w1 w'"
    and none: "\<forall>s. r \<noteq> Inr (Some s) \<Longrightarrow> w' = w1"
  shows "follows E w w'"
proof (rule follows_guarded)
  assume inv: "store_inv E w"
  have "follows E w1 w'"
  proof (cases "\<exists>s. r = Inr (Some s)")
    case True
    then obtain x where x: "r = Inr (Some x)" by blast
    with g have "fresh_copy E w1 x" using GetActiveSession_fresh [OF E inv] by blast
    with s x show ?thesis by blast
  next
    case False
    with none show ?thesis by simp
  qed
  with GetActiveSession_follows [OF g] show "follows E w w'" by (rule follows_trans)
qed

lemma follows_resume:
  assumes E: "store_env E" and run: "resumeRollbackIfNeeded E w = (r, w')"
  shows "follows E w w'"
proof -
  obtain g w1 where g: "GetActiveSession E w = (g, w1)" by (cases "GetActiveSession E w")
  show ?thesis
    by (rule follows_active [OF E g])
      (use run g in \<open>auto simp: resumeRollbackIfNeeded_def split: prod.splits if_splits sum.splits option.splits
        dest: follows_ResumeRollback [OF E]\<close>)
qed

lemma DeleteSession_follows:
  assumes "fresh_copy E w s" and "DeleteSession E s w = (r, w')"
  shows "follows E w w'"
proof -
  note d = DeleteSession_store [OF _ assms(2)]
  have "(disk_session E w)(session_id s := None) = disk_session E w |` (- {session_id s})"
    by (auto simp: restrict_map_def fun_eq_iff)
  then have "session_step (disk_session E w) ((disk_session E w)(session_id s := None))"
    using session_step.forget by metis
  with d show ?thesis by (auto simp: follows_def dest: r_into_rtranclp)
qed

lemma follows_abort:
  assumes E: "store_env E" and run: "abortActiveSession E w = (r, w')"
  shows "follows E w w'"
proof -
  obtain g w1 where g: "GetActiveSession E w = (g, w1)" by (cases "GetActiveSession E w")
  show ?thesis
    by (rule follows_active [OF E g])
      (use run g in \<open>auto simp: abortActiveSession_def
        split: prod.splits if_splits sum.splits option.splits State.splits
        dest: follows_RollbackActivated [OF E] DeleteSession_follows\<close>)
qed

lemma follows_rollbackActive:
  assumes E: "store_env E" and run: "rollbackActiveSession E w = (r, w')"
  shows "follows E w w'"
proof -
  obtain g w1 where g: "GetActiveSession E w = (g, w1)" by (cases "GetActiveSession E w")
  show ?thesis
    by (rule follows_active [OF E g])
      (use run g in \<open>auto simp: rollbackActiveSession_def split: prod.splits sum.splits option.splits
        dest: follows_RollbackSession [OF E]\<close>)
qed

lemma follows_rollbackStaged:
  assumes E: "store_env E" and run: "rollbackStagedSessionIfAny E w = (r, w')"
  shows "follows E w w'"
proof -
  obtain g w1 where g: "GetActiveSession E w = (g, w1)" by (cases "GetActiveSession E w")
  show ?thesis
    by (rule follows_active [OF E g])
      (use run g in \<open>auto simp: rollbackStagedSessionIfAny_def split: prod.splits if_splits sum.splits option.splits
        dest: follows_RollbackStaged [OF E]\<close>)
qed

section \<open>Staging at boot\<close>

text \<open>What happens before the commit spares the sessions.\<close>

lemma stage_session_cases:
  assumes hooks: "hooks_spare E" and run: "stage_session E s w = Some w'"
  obtains st v where "spares w v" "w' = commit E st s v" "st = ACTIVATED \<or> st = ACTIVATION_FAILED"
proof -
  obtain ds w1 where sc: "scan_session_dirs E (dirs_to_scan s) [] w = (ds, w1)"
    by (cases "scan_session_dirs E (dirs_to_scan s) [] w")
  note s1 = sess.frame_asks [OF scan_session_dirs_asks [OF sc]]
  show ?thesis
  proof (cases ds)
    case None
    with run sc s1 that show ?thesis by (auto simp: stage_session_def)
  next
    case (Some apexes)
    with run sc obtain r2 w2 where p: "postinstallPackages E apexes w1 = Some (r2, w2)"
      by (auto simp: stage_session_def split: option.splits)
    note s2 = sess.frame_trans [OF s1 sess.frame_preinstallPackages(2) [OF execs_spare [OF hooks] p]]
    show ?thesis
    proof (cases r2)
      case (Inl e)
      with run sc Some p s2 that show ?thesis by (auto simp: stage_session_def)
    next
      case (Inr u)
      with run sc Some p obtain r3 w3 where g: "stagePackages E apexes w2 = Some (r3, w3)"
        by (auto simp: stage_session_def split: option.splits)
      from run sc Some p Inr g
      have "w' = commit E ACTIVATED s w3 \<or> w' = commit E ACTIVATION_FAILED s w3"
        by (auto simp: stage_session_def split: sum.splits)
      with that sess.frame_trans [OF s2 sess.frame_stagePackages [OF g]] show ?thesis by blast
    qed
  qed
qed

lemma stage_session_follows:
  assumes E: "store_env E" and run: "stage_session E s w = Some w'"
    and s: "fresh_copy E w s" "session_state s = STAGED"
  shows "follows E w w' \<and> (\<forall>i. i \<noteq> session_id s \<longrightarrow> disk_session E w' i = disk_session E w i)"
proof -
  have "hooks_spare E" using E by (simp add: store_env_def)
  then obtain st v where v: "spares w v" "w' = commit E st s v" "st = ACTIVATED \<or> st = ACTIVATION_FAILED"
    using run by (rule stage_session_cases)
  note fr = fresh_spares [OF s(1) v(1)]
  obtain r s2 w2 where u: "UpdateStateAndCommit E st s v = (r, s2, w2)" by (rule prod_cases3)
  with v(2) have w': "w' = w2" by (simp add: commit_def)
  have "moves (session_state s) st" using s(2) v(3) by (auto intro: moves.intros)
  from commit_follows(1) [OF E fr this u] have "follows E w w'"
    using follows_trans [OF follows_spares [OF v(1)]] w' by blast
  moreover have "store_inv E v" "disk_session E v = disk_session E w"
    using spares_store [OF v(1)] s(1) by (auto simp: fresh_copy_def)
  ultimately show ?thesis using commit_store(3) [OF E _ u] w' by auto
qed

lemma stage_sessions_follows:
  assumes E: "store_env E"
  shows "stage_sessions E ss w = Some w' \<Longrightarrow> distinct (map session_id ss) \<Longrightarrow>
    \<forall>s \<in> set ss. fresh_copy E w s \<and> session_state s = STAGED \<Longrightarrow> follows E w w'"
proof (induction ss arbitrary: w)
  case (Cons s ss)
  from Cons.prems(1) obtain w1 where s: "stage_session E s w = Some w1" "stage_sessions E ss w1 = Some w'"
    by (auto split: option.splits)
  from stage_session_follows [OF E s(1)] Cons.prems(3)
  have 1: "follows E w w1" "\<forall>i. i \<noteq> session_id s \<longrightarrow> disk_session E w1 i = disk_session E w i" by auto
  have "fresh_copy E w s" using Cons.prems(3) by simp
  with 1(1) have "store_inv E w1" by (simp add: fresh_copy_def follows_def)
  have "fresh_copy E w1 s' \<and> session_state s' = STAGED" if "s' \<in> set ss" for s'
  proof -
    have "session_id s' \<noteq> session_id s" using Cons.prems(2) that by (metis distinct.simps(2) image_eqI list.simps(9) list.set_map)
    then show ?thesis using Cons.prems(3) that 1(2) \<open>store_inv E w1\<close> by (simp add: fresh_copy_def)
  qed
  then have "\<forall>s' \<in> set ss. fresh_copy E w1 s' \<and> session_state s' = STAGED" by blast
  with Cons.IH [OF s(2)] Cons.prems(2) 1(1) show ?case by (auto intro: follows_trans)
qed simp

lemma follows_stage_at_boot:
  assumes E: "store_env E" and run: "scanStagedSessionsDirAndStage E w = Some w'"
  shows "follows E w w'"
proof (rule follows_guarded)
  assume inv: "store_inv E w"
  obtain ss w1 where g: "GetSessions E w = (ss, w1)" by (cases "GetSessions E w")
  with run have st: "stage_sessions E (filter (\<lambda>s. session_state s = STAGED) ss) w1 = Some w'"
    by (simp add: scanStagedSessionsDirAndStage_def GetSessionsInState_def)
  note a = GetSessions_all [OF E inv g]
  note sp = spares_store [OF sess.frame_asks [OF a(1)] inv]
  have "follows E w1 w'"
  proof (rule stage_sessions_follows [OF E st])
    show "distinct (map session_id (filter (\<lambda>s. session_state s = STAGED) ss))"
      using a(3) by (simp add: distinct_map_filter)
    show "\<forall>s \<in> set (filter (\<lambda>s. session_state s = STAGED) ss). fresh_copy E w1 s \<and> session_state s = STAGED"
      using a(2) sp by (auto simp: fresh_copy_def)
  qed
  with follows_asks [OF a(1)] show "follows E w w'" by (rule follows_trans)
qed

section \<open>Submitting\<close>

lemma record_session_follows:
  assumes E: "store_env E" and run: "record_session E i ids ret w = (r, w')"
    and inv: "store_inv E w" and none: "disk_session E w = Map.empty"
  shows "store_inv E w' \<and> session_step\<^sup>*\<^sup>* Map.empty (disk_session E w') \<and>
    disk_session E w' = (if Ok r
      then [i \<mapsto> \<lparr>session_id = i, session_state = VERIFIED, child_session_ids = ids\<rparr>] else Map.empty)"
proof -
  obtain c w1 where cs: "CreateSession E i w = (c, w1)" by (cases "CreateSession E i w")
  from CreateSession_store [OF inv cs] none have
    1: "store_inv E w1" "disk_session E w1 = Map.empty" "\<forall>s. c = Inr s \<longrightarrow> s = empty_session\<lparr>session_id := i\<rparr>" by auto
  show ?thesis
  proof (cases c)
    case (Inl e)
    with run cs 1 show ?thesis by (auto simp: record_session_def)
  next
    case (Inr s)
    let ?s = "SetChildSessionIds ids s"
    obtain r2 s2 w2 where u: "UpdateStateAndCommit E VERIFIED ?s w1 = (r2, s2, w2)" by (rule prod_cases3)
    from Inr 1(3) have s: "?s\<lparr>session_state := VERIFIED\<rparr> =
        \<lparr>session_id = i, session_state = VERIFIED, child_session_ids = ids\<rparr>" "session_id ?s = i"
      by (simp_all add: SetChildSessionIds_def empty_session_def)
    note c = commit_store [OF E 1(1) u, unfolded s 1(2)]
    from run cs Inr u have "w' = w2" "Ok r = Ok r2" by (auto simp: record_session_def split: sum.splits)
    with c session_step.submit [of i ids] show ?thesis by auto
  qed
qed

lemma submit_cases:
  assumes E: "store_env E" and run: "submitStagedSession E i ids w = Some (r, w')" and inv: "store_inv E w"
  obtains (fails) "\<not> Ok r" "store_inv E w'" "\<exists>I. disk_session E w' = disk_session E w |` (- I)"
  | (recorded) ret v where "store_inv E v" "disk_session E v = Map.empty" "record_session E i ids ret v = (r, w')"
      "disk_session E w |` (- UNIV) = disk_session E v" "Ok r \<longrightarrow> r = Inr ret"
proof -
  have hooks: "hooks_spare E" using E by (simp add: store_env_def)
  obtain r1 w1 where c: "ClearSessions E w = (r1, w1)" by (cases "ClearSessions E w")
  note cl = ClearSessions_store [OF E inv c]
  show ?thesis
  proof (cases r1)
    case (Inl e)
    with run c have "r = Inl e" "w' = w1" by (auto simp: submitStagedSession_def)
    with cl fails show ?thesis by simp
  next
    case r1: (Inr u)
    with cl(3) have e1: "disk_session E w1 = Map.empty" by simp
    have stop: "\<not> Ok r \<Longrightarrow> spares w1 w' \<Longrightarrow> ?thesis"
      using fails spares_store [OF _ cl(1), of w'] e1 cl(2) by (auto simp: restrict_map_def fun_eq_iff)
    from run c r1 obtain r2 w2 where b: "start_checkpoint_or_backup E w1 = Some (r2, w2)"
      by (auto simp: submitStagedSession_def split: option.splits)
    note s2 = sess.frame_backup_or_checkpoint [OF b]
    show ?thesis
    proof (cases r2)
      case (Inl e)
      with run c r1 b have "r = Inl e" "w' = w2" by (auto simp: submitStagedSession_def)
      with stop s2 show ?thesis by simp
    next
      case r2: (Inr u)
      let ?ids = "if ids \<noteq> [] then ids else [i]"
      from run c r1 b r2 obtain r3 w3 where v: "verify_session_dirs E ?ids [] w2 = Some (r3, w3)"
        by (auto simp: submitStagedSession_def split: option.splits)
      note s3 = sess.frame_trans [OF s2 sess.frame_verify_dirs [OF v]]
      show ?thesis
      proof (cases r3)
        case (Inl e)
        with run c r1 b r2 v have "r = Inl e" "w' = w3" by (auto simp: submitStagedSession_def)
        with stop s3 show ?thesis by simp
      next
        case r3: (Inr ret)
        with run c r1 b r2 v obtain r4 w4 where p: "PreinstallPackages E ret w3 = Some (r4, w4)"
          by (auto simp: submitStagedSession_def split: option.splits)
        note s4 = sess.frame_trans [OF s3 sess.frame_PreinstallPackages(1) [OF execs_spare [OF hooks] p]]
        show ?thesis
        proof (cases r4)
          case (Inl e)
          with run c r1 b r2 v r3 p have "r = Inl e" "w' = w4" by (auto simp: submitStagedSession_def)
          with stop s4 show ?thesis by simp
        next
          case r4: (Inr u)
          with run c r1 b r2 v r3 p have rs: "record_session E i ids ret w4 = (r, w')"
            by (auto simp: submitStagedSession_def)
          have "Ok r \<longrightarrow> r = Inr ret"
            using rs by (auto simp: record_session_def split: prod.splits sum.splits)
          with rs recorded spares_store [OF s4 cl(1)] e1 show ?thesis by (auto simp: restrict_map_def)
        qed
      qed
    qed
  qed
qed

lemma follows_submit:
  assumes E: "store_env E" and run: "submitStagedSession E i ids w = Some (r, w')"
  shows "follows E w w'"
proof (rule followsI)
  assume inv: "store_inv E w"
  from E run inv show "store_inv E w' \<and> session_step\<^sup>*\<^sup>* (disk_session E w) (disk_session E w')"
  proof (cases rule: submit_cases)
    case fails
    then obtain I where "disk_session E w' = disk_session E w |` (- I)" by blast
    with session_step.forget [of "disk_session E w" I] fails(2) show ?thesis by (simp add: r_into_rtranclp)
  next
    case (recorded ret v)
    have "session_step (disk_session E w) Map.empty"
      using session_step.forget [of "disk_session E w" UNIV] recorded(2,4) by simp
    with record_session_follows [OF E recorded(3,1,2)] show ?thesis
      by (auto intro: converse_rtranclp_into_rtranclp)
  qed
qed

section \<open>The daemon\<close>

text \<open>Unstaging deletes whatever files its caller names; these are not files of sessions.\<close>

definition off_store :: "request \<Rightarrow> bool" where
  "off_store req = (case req of UnstagePackages ps \<Rightarrow> list_all (\<lambda>p. \<not> under kApexSessionsDir p) ps | _ \<Rightarrow> True)"

lemma unlink_same_sessions: "\<not> under kApexSessionsDir p \<Longrightarrow> same_sessions w (snd (sys_unlink E p w))"
  unfolding same_sessions_def
  by (intro allI impI, rule only_fs_lookup [OF sys_unlink_frame]) auto

interpretation life: request_frame E same_sessions "\<lambda>w w'. store_env E \<longrightarrow> follows E w w'" for E
  by unfold_locales (auto intro: follows_trans follows_spares follows_submit follows_markReady follows_markSuccessful
      follows_abort follows_rollbackActive follows_rollbackStaged follows_resume follows_stage_at_boot)

lemma perform_follows:
  assumes E: "store_env E" and off: "off_store req" and run: "perform E req w = Some w'"
  shows "follows E w w'"
proof -
  have "execs_keep E same_sessions" using E by (intro execs_spare) (simp add: store_env_def)
  moreover have "same_sessions v (snd (sys_unlink E p v))" if "req = UnstagePackages ps" "p \<in> set ps" for ps p v
    using that off by (simp add: off_store_def list_all_iff unlink_same_sessions)
  moreover have "same_sessions w (new_process w)" "same_sessions w (restart w)"
    by (simp_all add: same_sessions_def new_process_def restart_def)
  ultimately show ?thesis using life.Q_perform [OF _ _ _ _ run] E by blast
qed

interpretation daemon: simulation store_env off_store store_inv disk_session perform session_step
  by unfold_locales (auto dest: perform_follows simp: follows_def)

section \<open>Properties\<close>

text \<open>C3. Whatever requests the daemon serves, across any number of restarts and whatever calls
  fail in between, the sessions on disk change by steps of the abstract machine alone: a
  verified session becomes ready, a ready one is activated, fails to be or is abandoned, an
  active one succeeds or is rolled back, and sessions are forgotten before a new one is
  recorded. The hypotheses are that hooks of packages and calls of \<open>unstagePackages\<close> leave the
  directory of sessions alone, that it can be read, and that a state file is not torn.
\<close>

theorem session_lifecycle:
  assumes "store_env E" and "list_all off_store requests" and "store_inv E w"
    and "run_all (perform E) requests w = Some w'"
  shows "store_inv E w' \<and> session_step\<^sup>*\<^sup>* (disk_session E w) (disk_session E w')"
  using assms by (rule daemon.run_simulates)



theorem session_lifecycle_witness:
  "\<exists>w'. run_all (perform sample_env) [Ready 1, Abort] sample_sessions = Some w' \<and>
     session_step\<^sup>*\<^sup>* (disk_session sample_env sample_sessions) (disk_session sample_env w') \<and>
     disk_session sample_env sample_sessions 1 \<noteq> None \<and> disk_session sample_env w' 1 = None"
proof -
  let ?w' = "snd (abortActiveSession sample_env (snd (markStagedSessionReady sample_env 1 sample_sessions)))"
  have run: "run_all (perform sample_env) [Ready 1, Abort] sample_sessions = Some ?w'" by simp
  have off: "list_all off_store [Ready 1, Abort]" by (simp add: off_store_def)
  have "disk_session sample_env sample_sessions 1 \<noteq> None" "disk_session sample_env ?w' 1 = None" by code_simp+
  with session_lifecycle [OF sample_store(1) off sample_store(2) run] run show ?thesis by blast
qed



end
