(* ===== verification/Mount_Trust.thy ===== *)
theory Mount_Trust
  imports Requests
begin

text \<open>
  Everything the daemon mounts can be trusted: the components from the keys of the built-in
  packages to the mounts, put together over whole runs of the daemon.
\<close>

section \<open>The built-in partitions\<close>

lemma owned_not_builtin: "owned p \<Longrightarrow> \<not> isPathForBuiltinApexes p"
  by (auto simp: owned_def isPathForBuiltinApexes_def kApexPackageBuiltinDirs_def kApexPackageSystemDir_def
      StartsWith_def under_def kApexDataDir_def kApexRoot_def prefix_def)

lemma sessions_not_builtin: "under kApexSessionsDir p \<Longrightarrow> \<not> isPathForBuiltinApexes p"
  by (auto simp: kApexSessionsDir_def isPathForBuiltinApexes_def kApexPackageBuiltinDirs_def
      kApexPackageSystemDir_def StartsWith_def under_def kApexDataDir_def prefix_def)

lemma builtin_append: "isPathForBuiltinApexes p \<Longrightarrow> isPathForBuiltinApexes (p @ q)"
  by (auto simp: isPathForBuiltinApexes_def list_ex_iff StartsWith_def intro: prefix_prefix)

lemma builtin_under: "isPathForBuiltinApexes p \<Longrightarrow> under p q \<Longrightarrow> isPathForBuiltinApexes q"
  by (auto simp: under_def prefix_def intro: builtin_append)

lemma builtin_not_below: "isPathForBuiltinApexes p \<Longrightarrow> \<not> under kApexRoot p"
  by (auto simp: isPathForBuiltinApexes_def kApexPackageBuiltinDirs_def kApexPackageSystemDir_def
      StartsWith_def under_def kApexRoot_def prefix_def append_eq_Cons_conv Cons_eq_append_conv)

lemma builtin_slash: "isPathForBuiltinApexes p \<Longrightarrow> isPathForBuiltinApexes (slash p x)"
  by (rule builtin_append)

lemma builtin_nonempty: "isPathForBuiltinApexes p \<Longrightarrow> p \<noteq> ''''"
  by (auto simp: isPathForBuiltinApexes_def kApexPackageBuiltinDirs_def kApexPackageSystemDir_def StartsWith_def)

text \<open>The files of the built-in partitions are those of \<open>w0\<close>, and nothing is mounted over them.\<close>

definition same_builtin :: "world \<Rightarrow> world \<Rightarrow> bool" where
  "same_builtin w0 w \<longleftrightarrow> (\<forall>q. isPathForBuiltinApexes q \<longrightarrow> map_of (fs w) q = map_of (fs w0) q \<and>
     mount_over w q = None \<and> mount_over w0 q = None)"

lemma same_builtin_node: "same_builtin w0 w \<Longrightarrow> isPathForBuiltinApexes q \<Longrightarrow> node_at w q = node_at w0 q"
  by (simp add: same_builtin_def node_at_def)

text \<open>A key that a package file on a built-in partition comes with.\<close>

definition key_source :: "env \<Rightarrow> world \<Rightarrow> path \<Rightarrow> string \<Rightarrow> bool" where
  "key_source E w p k \<longleftrightarrow> k = '''' \<or>
     (\<exists>m. node_at w (slash p kBundledPublicKeyFilename) = Some (Reg m k)) \<or>
     (\<exists>m c entries e. node_at w p = Some (Reg m c) \<and> zip_open E c = Some entries \<and>
        map_of entries kBundledPublicKeyFilename = Some e \<and> extracted e = Some k)"

definition builtin_key :: "env \<Rightarrow> world \<Rightarrow> string \<Rightarrow> string \<Rightarrow> bool" where
  "builtin_key E w n k \<longleftrightarrow> (\<exists>p a. isPathForBuiltinApexes p \<and> package_source E w p a \<and>
     manifest_name (GetManifest a) = n \<and> key_source E w p k)"

lemma open_flattened_key: "open_flattened E p w = (Inr r, w') \<Longrightarrow> key_source E w p (raw_pubkey r)"
proof -
  assume o: "open_flattened E p w = (Inr r, w')"
  obtain m w1 where m: "ReadFileToString E (slash p kManifestFilename) w = (m, w1)"
    by (cases "ReadFileToString E (slash p kManifestFilename) w")
  obtain acc w2 where a: "sys_access E (slash p kBundledPublicKeyFilename) w1 = (acc, w2)"
    by (cases "sys_access E (slash p kBundledPublicKeyFilename) w1")
  have "asks w1 w2" using a by (simp add: sys_access_def query_eq)
  then have eq: "node_at w2 = node_at w" using ReadFileToString_asks [OF m] asks_fields(3) by metis
  from o m a show ?thesis
    by (auto simp: open_flattened_def key_source_def eq split: sum.splits prod.splits
        dest!: ReadFileToString_Inr)
qed

lemma open_archive_key: "open_archive E p w = (Inr r, w') \<Longrightarrow> key_source E w p (raw_pubkey r)"
  by (auto simp: open_archive_def read_entries_def key_source_def Let_def
      split: prod.splits sum.splits option.splits dest!: ReadFileToString_Inr)

lemma Open_key:
  assumes "Open E p w = (Inr a, w')"
  shows "key_source E w p (GetBundledPublicKey a)"
proof -
  obtain fl w1 where f: "isFlattenedApex E p w = (fl, w1)" by (cases "isFlattenedApex E p w")
  have "key_source E w1 p = key_source E w p"
    by (simp add: key_source_def fun_eq_iff asks_fields(3) [OF isFlattenedApex_asks [OF f]])
  with assms f show ?thesis
    by (auto simp: Open_def Let_def split: prod.splits sum.splits if_splits
        dest!: open_flattened_key open_archive_key)
qed

lemma builtin_key_same: "same_builtin w0 w \<Longrightarrow> builtin_key E w n k \<Longrightarrow> builtin_key E w0 n k"
proof -
  assume s: "same_builtin w0 w" and "builtin_key E w n k"
  then obtain p a where p: "isPathForBuiltinApexes p" "package_source E w p a"
    "manifest_name (GetManifest a) = n" "key_source E w p k" by (auto simp: builtin_key_def)
  note n = same_builtin_node [OF s p(1)]
    same_builtin_node [OF s builtin_slash [OF p(1), of kManifestFilename]]
    same_builtin_node [OF s builtin_slash [OF p(1), of kBundledPublicKeyFilename]]
  from p(2,4) have "package_source E w0 p a" "key_source E w0 p k"
    unfolding package_source_def key_source_def n .
  with p(1,3) show ?thesis by (auto simp: builtin_key_def)
qed

section \<open>The keys of the daemon\<close>

definition keys_from :: "env \<Rightarrow> world \<Rightarrow> (string \<times> string) list \<Rightarrow> bool" where
  "keys_from E w0 keys \<longleftrightarrow> (\<forall>(n, k) \<in> set keys. builtin_key E w0 n k)"

lemma collect_from_files_builtin:
  assumes "same_builtin w0 w" and "\<forall>p \<in> set ps. isPathForBuiltinApexes p"
    and "collect_from_files E ps w = (Inr kps, w')"
  shows "keys_from E w0 kps"
  using assms
proof (induction ps arbitrary: w kps)
  case (Cons p ps)
  from Cons.prems(3) obtain a w1 rest where o: "Open E p w = (Inr a, w1)"
    and r: "collect_from_files E ps w1 = (Inr rest, w')"
    and k: "kps = (manifest_name (GetManifest a), GetBundledPublicKey a) # rest"
    by (auto simp: Let_def split: prod.splits sum.splits)
  have "same_builtin w0 w1"
    using Cons.prems(1) asks_fields(1,6) [OF Open_asks [OF o]] by (simp add: same_builtin_def)
  with Cons.IH r Cons.prems(2) have "keys_from E w0 rest" by simp
  moreover have "builtin_key E w (manifest_name (GetManifest a)) (GetBundledPublicKey a)"
    using Open_source [OF o] Open_key [OF o] Cons.prems(2) by (auto simp: builtin_key_def)
  ultimately show ?case using k builtin_key_same [OF Cons.prems(1)] by (simp add: keys_from_def)
qed (simp add: keys_from_def)

lemma updateScannedApexKeys_from:
  "updateScannedApexKeys kps keys = (st, keys') \<Longrightarrow> keys_from E w0 kps \<Longrightarrow> keys_from E w0 keys \<Longrightarrow>
     keys_from E w0 keys'"
  by (induction kps keys arbitrary: st keys' rule: updateScannedApexKeys.induct)
    (auto simp: keys_from_def split: option.splits if_splits)

lemma collect_dirs_builtin:
  assumes "collect_dirs E ds w = (r, w')" and "same_builtin w0 w"
    and "keys_from E w0 (gScannedApexKeys w)" and "\<forall>d \<in> set ds. isPathForBuiltinApexes d"
  shows "keys_from E w0 (gScannedApexKeys w')"
  using assms
proof (induction ds arbitrary: w)
  case (Cons d ds)
  obtain kp w1 where c: "collectEmbedddedApexKeysFromDir E d w = (kp, w1)"
    by (cases "collectEmbedddedApexKeysFromDir E d w")
  note a1 = collectEmbedddedApexKeysFromDir_asks [OF c]
  show ?case
  proof (cases kp)
    case (Inl e)
    with Cons.prems c asks_fields(8) [OF a1] show ?thesis by simp
  next
    case (Inr kps)
    have kps: "keys_from E w0 kps"
    proof (cases "kps = []")
      case False
      obtain acc w2 where a: "sys_access E d w = (acc, w2)" by (cases "sys_access E d w")
      have a2: "asks w w2" using a by (simp add: sys_access_def query_eq)
      from c Inr a False Cons.prems(4) obtain ps w3 where
        f: "FindApexFilesByName E d True w2 = (Inr ps, w3)" and g: "collect_from_files E ps w3 = (Inr kps, w1)"
        by (auto simp: collectEmbedddedApexKeysFromDir_def split: if_splits prod.splits sum.splits)
      have host: "mount_over w2 d = None" "same_builtin w0 w3"
        using Cons.prems(2,4) asks_fields(1,6) [OF a2] asks_fields(1,6) [OF FindApexFilesByName_asks [OF f]]
        by (simp_all add: same_builtin_def)
      have d: "isPathForBuiltinApexes d" using Cons.prems(4) by simp
      have "set ps \<subseteq> set (list_dir w2 d)" using FindApexFilesByName_Inr [OF f] by auto
      also have "\<dots> \<subseteq> {p. child_of d p}" using host(1) by (auto simp: set_list_dir)
      finally have "\<forall>p \<in> set ps. isPathForBuiltinApexes p"
        using builtin_under [OF d child_under [OF builtin_nonempty [OF d]]] by blast
      with collect_from_files_builtin [OF host(2) _ g] show ?thesis by blast
    qed (simp add: keys_from_def)
    obtain st keys where u: "updateScannedApexKeys kps (gScannedApexKeys w1) = (st, keys)"
      by (cases "updateScannedApexKeys kps (gScannedApexKeys w1)")
    have k: "keys_from E w0 keys"
      using updateScannedApexKeys_from [OF u kps] Cons.prems(3) asks_fields(8) [OF a1] by simp
    have s: "same_builtin w0 (w1\<lparr>gScannedApexKeys := keys\<rparr>)"
      using Cons.prems(2) asks_fields(1,2) [OF a1] by (simp add: same_builtin_def mount_over_def)
    from Cons.prems(1) c Inr u have "w' = w1\<lparr>gScannedApexKeys := keys\<rparr> \<or>
        collect_dirs E ds (w1\<lparr>gScannedApexKeys := keys\<rparr>) = (r, w')"
      by (auto simp: Let_def split: sum.splits)
    with Cons.IH [OF _ s] k Cons.prems(4) show ?thesis by auto
  qed
qed simp

section \<open>Images that can be trusted\<close>

text \<open>
  What the daemon may show: an image on a verity device whose table has the digest of a
  descriptor signed by the key of a built-in package (or, on a debug build that allows it, by
  a key of its own), over a loop device attached to the package; an image on a loop device
  over such a package on a built-in partition; a flattened package of a built-in partition; a
  tree without files; and a part of one of these.
\<close>

abbreviation attached_to :: "env \<Rightarrow> event list \<Rightarrow> path \<Rightarrow> ApexFile \<Rightarrow> bool" where
  "attached_to E h loop apex \<equiv>
     attached E h loop = Some (GetPath apex, Some (scast (GetImageOffset apex), GetImageSize apex))"

abbreviation lookup_below :: "path \<Rightarrow> (path \<Rightarrow> node option) \<Rightarrow> path \<Rightarrow> node option" where
  "lookup_below d m q \<equiv> (if under d (d @ q) then m (d @ q) else None)"

inductive trusted_image :: "env \<Rightarrow> world \<Rightarrow> tree \<Rightarrow> bool" for E :: env and w0 :: world where
  on_dm: "keys_from E w0 keys \<Longrightarrow> authentic E keys apex content v \<Longrightarrow> attached_to E h loop apex \<Longrightarrow>
    dm_live E h dm = Some (createVerityTable v loop restart_on_corruption) \<Longrightarrow> dm_path E h' dm = Some dev \<Longrightarrow>
    ext4_image E h dev = Some img \<Longrightarrow> trusted_image E w0 img"
| on_loop: "isPathForBuiltinApexes (GetPath apex) \<Longrightarrow> node_at w0 (GetPath apex) = Some (Reg m content) \<Longrightarrow>
    keys_from E w0 keys \<Longrightarrow> authentic E keys apex content v \<Longrightarrow> attached_to E h loop apex \<Longrightarrow>
    ext4_image E h loop = Some img \<Longrightarrow> trusted_image E w0 img"
| flattened: "isPathForBuiltinApexes p \<Longrightarrow> map_of img = lookup_below p (map_of (fs w0)) \<Longrightarrow> trusted_image E w0 img"
| no_files: "(\<And>q n. map_of img q = Some n \<Longrightarrow> is_dir n) \<Longrightarrow> trusted_image E w0 img"
| part: "trusted_image E w0 img' \<Longrightarrow> map_of img = lookup_below d (map_of img') \<Longrightarrow> trusted_image E w0 img"

definition trusted_state :: "env \<Rightarrow> world \<Rightarrow> world \<Rightarrow> bool" where
  "trusted_state E w0 w \<longleftrightarrow> same_builtin w0 w \<and> keys_from E w0 (gScannedApexKeys w) \<and>
     (\<forall>q n. under kApexRoot q \<longrightarrow> map_of (fs w) q = Some n \<longrightarrow> is_dir n) \<and>
     (\<forall>(t, img) \<in> set (mnts w). under kApexRoot t \<and> trusted_image E w0 img)"

definition keeps_trust :: "env \<Rightarrow> world \<Rightarrow> world \<Rightarrow> world \<Rightarrow> bool" where
  "keeps_trust E w0 w w' \<longleftrightarrow> (trusted_state E w0 w \<longrightarrow> trusted_state E w0 w')"

lemma keeps_trust_trans [trans]:
  "keeps_trust E w0 w1 w2 \<Longrightarrow> keeps_trust E w0 w2 w3 \<Longrightarrow> keeps_trust E w0 w1 w3"
  by (simp add: keeps_trust_def)

lemma keeps_trust_guarded: "(trusted_state E w0 w \<Longrightarrow> keeps_trust E w0 w w') \<Longrightarrow> keeps_trust E w0 w w'"
  by (simp add: keeps_trust_def)

lemma keeps_trust_state:
  "fs w' = fs w \<Longrightarrow> mnts w' = mnts w \<Longrightarrow> gScannedApexKeys w' = gScannedApexKeys w \<Longrightarrow> keeps_trust E w0 w w'"
  by (simp add: keeps_trust_def trusted_state_def same_builtin_def mount_over_def)

lemma keeps_trust_asks: "asks w w' \<Longrightarrow> keeps_trust E w0 w w'"
  by (rule keeps_trust_state) (simp_all add: asks_fields)

lemma keeps_trust_refl [simp]: "keeps_trust E w0 w w"
  by (rule keeps_trust_asks) simp

lemma keeps_trust_quiet: "quiet E w w' \<Longrightarrow> keeps_trust E w0 w w'"
  by (rule keeps_trust_asks [OF quiet_asks])

lemma keeps_trust_collect:
  assumes "collectApexKeys E w = (r, w')"
  shows "keeps_trust E w0 w w'"
proof -
  note c = assms [unfolded collectApexKeys_def]
  have "asks (w\<lparr>gScannedApexKeys := gScannedApexKeys w'\<rparr>) w'" using collect_dirs_frame [OF c] by blast
  note eq = asks_fields(1,2) [OF this]
  have "\<forall>d \<in> set kApexPackageBuiltinDirs. isPathForBuiltinApexes d"
    by (simp add: isPathForBuiltinApexes_def list_ex_iff StartsWith_def)
       (use prefix_order.refl in blast)
  with collect_dirs_builtin [OF c] eq show ?thesis
    by (simp add: keeps_trust_def trusted_state_def same_builtin_def mount_over_def)
qed

section \<open>System calls\<close>

lemma keeps_trust_fs:
  assumes "mnts w' = mnts w" and "gScannedApexKeys w' = gScannedApexKeys w"
    and "\<And>q. isPathForBuiltinApexes q \<Longrightarrow> map_of (fs w') q = map_of (fs w) q"
    and "\<And>q n. under kApexRoot q \<Longrightarrow> map_of (fs w') q = Some n \<Longrightarrow> map_of (fs w) q = Some n \<or> is_dir n"
  shows "keeps_trust E w0 w w'"
  unfolding keeps_trust_def
proof
  assume t: "trusted_state E w0 w"
  have "same_builtin w0 w'" using t assms(3) mount_over_cong [OF assms(1)] by (simp add: trusted_state_def same_builtin_def)
  moreover have "is_dir n" if "under kApexRoot q" "map_of (fs w') q = Some n" for q n
    using t assms(4) [OF that] that(1) by (auto simp: trusted_state_def)
  ultimately show "trusted_state E w0 w'" using t assms(1,2) by (simp add: trusted_state_def)
qed

lemma keeps_trust_only_fs:
  assumes "only_fs R w w'" and "\<And>q. R q \<Longrightarrow> \<not> isPathForBuiltinApexes q \<and> \<not> under kApexRoot q"
  shows "keeps_trust E w0 w w'"
proof (rule keeps_trust_fs)
  have l: "map_of (fs w') q = map_of (fs w) q" if "isPathForBuiltinApexes q \<or> under kApexRoot q" for q
    using that assms(2) only_fs_lookup [OF assms(1)] by blast
  show "map_of (fs w') q = map_of (fs w) q" if "isPathForBuiltinApexes q" for q
    using that l by blast
  show "map_of (fs w) q = Some n \<or> is_dir n" if "under kApexRoot q" "map_of (fs w') q = Some n" for q n
    using that l by simp
qed (use only_fs_state [OF assms(1)] in simp_all)

lemma keeps_trust_mkdir: "under kApexRoot p \<Longrightarrow> keeps_trust E w0 w (snd (sys_mkdir E' p m w))"
  using builtin_not_below [of p] only_fs_state [OF sys_mkdir_frame [of p w E' m]]
    only_fs_lookup [OF sys_mkdir_frame [of p w E' m]]
  by (intro keeps_trust_fs)
    (auto simp: sys_mkdir_def fs_call_def mkdir_eff_def AList.update_conv' split: option.splits sum.splits if_splits)

lemma keeps_trust_removal:
  assumes "mnts w' = mnts w" and "gScannedApexKeys w' = gScannedApexKeys w"
    and "fs w' = fs w \<or> fs w' = AList.delete p (fs w)" and "\<not> isPathForBuiltinApexes p"
  shows "keeps_trust E w0 w w'"
proof (rule keeps_trust_fs [OF assms(1,2)])
  show "map_of (fs w') q = map_of (fs w) q" if "isPathForBuiltinApexes q" for q
    using assms(3,4) that by (auto simp: AList.delete_conv')
  show "map_of (fs w) q = Some n \<or> is_dir n" if "map_of (fs w') q = Some n" for q n
    using assms(3) that by (auto simp: AList.delete_conv' split: if_splits)
qed

lemma keeps_trust_rmdir:
  assumes "under kApexRoot p"
  shows "keeps_trust E w0 w (snd (sys_rmdir E' p w))"
  using builtin_not_below [of p] assms only_fs_state [OF sys_rmdir_frame [of p w E']]
  by (intro keeps_trust_removal [where p = p])
    (auto simp: sys_rmdir_def fs_call_def rmdir_eff_def split: option.splits sum.splits if_splits)

lemma keeps_trust_unlink:
  assumes "\<not> isPathForBuiltinApexes p"
  shows "keeps_trust E w0 w (snd (sys_unlink E' p w))"
  using assms only_fs_state [OF sys_unlink_frame [of p w E']]
  by (intro keeps_trust_removal [where p = p])
    (auto simp: sys_unlink_def fs_call_def unlink_eff_def split: option.splits sum.splits if_splits)

lemma keeps_trust_mounts:
  assumes "fs w' = fs w" and "gScannedApexKeys w' = gScannedApexKeys w"
    and "\<And>t img. trusted_state E w0 w \<Longrightarrow> (t, img) \<in> set (mnts w') \<Longrightarrow>
      (t, img) \<in> set (mnts w) \<or> under kApexRoot t \<and> trusted_image E w0 img"
  shows "keeps_trust E w0 w w'"
  unfolding keeps_trust_def
proof
  assume t: "trusted_state E w0 w"
  have m: "\<forall>(t, img) \<in> set (mnts w'). under kApexRoot t \<and> trusted_image E w0 img"
    using assms(3) [OF t] t by (fastforce simp: trusted_state_def)
  have "mount_over w' q = None" if "isPathForBuiltinApexes q" for q
    using m builtin_not_below [OF that] under_trans
    by (fastforce simp: mount_over_def find_None_iff)
  with t m assms(1,2) show "trusted_state E w0 w'"
    by (simp add: trusted_state_def same_builtin_def)
qed

lemma keeps_trust_umount: "sys_umount E' mp w = (r, w') \<Longrightarrow> keeps_trust E w0 w w'"
proof -
  have "set (umount_latest mp m) \<subseteq> set m" for m by (induction m) (auto split: if_splits)
  note sub = subsetD [OF this]
  assume "sys_umount E' mp w = (r, w')"
  then show ?thesis
    by (intro keeps_trust_mounts)
      (auto simp: sys_umount_def mnt_call_def umount_eff_def dest: sub split: option.splits sum.splits if_splits)
qed

lemma keeps_trust_mount_dev:
  assumes "sys_mount_dev E dev mp w = (r, w')" and "under kApexRoot mp"
    and "\<And>img. ext4_image E (hist w) dev = Some img \<Longrightarrow> trusted_image E w0 img"
  shows "keeps_trust E w0 w w'"
  using sys_mount_dev_spec [OF assms(1)] assms(2,3)
  by (intro keeps_trust_mounts) (auto simp: asks_fields split: sum.splits)

lemma subtree_lookup:
  "map_of (map (\<lambda>(q, n). (drop (length d) q, n)) (filter (\<lambda>(q, _). under d q) t)) = lookup_below d (map_of t)"
proof
  show "map_of (map (\<lambda>(q, n). (drop (length d) q, n)) (filter (\<lambda>(q, _). under d q) t)) q =
      lookup_below d (map_of t) q" for q
  proof (induction t)
    case (Cons x t)
    have "fst x = d @ drop (length d) (fst x)" if "under d (fst x)"
      using that by (auto simp: under_def prefix_def)
    with Cons show ?case by (cases x) (auto; metis append_eq_conv_conj)
  qed simp
qed

lemma keeps_trust_bind:
  assumes "sys_mount_bind E' src mp w = (r, w')" and "under kApexRoot mp"
    and "trusted_state E w0 w \<Longrightarrow> trusted_image E w0 (subtree w src)"
  shows "keeps_trust E w0 w w'"
  using assms
  by (intro keeps_trust_mounts)
    (auto simp: sys_mount_bind_def mnt_call_def mount_bind_eff_def split: option.splits sum.splits if_splits)

text \<open>A bind mount shows a part of what is trusted.\<close>

lemma find_in: "find Q xs = Some x \<Longrightarrow> Q x \<and> x \<in> set xs"
  by (induction xs) (auto split: if_splits)

lemma subtree_builtin:
  assumes "trusted_state E w0 w" and p: "isPathForBuiltinApexes p"
  shows "trusted_image E w0 (subtree w p)"
proof -
  from assms have s: "same_builtin w0 w" by (simp add: trusted_state_def)
  have "lookup_below p (map_of (fs w)) = lookup_below p (map_of (fs w0))"
    using s builtin_under [OF p] by (auto simp: same_builtin_def fun_eq_iff)
  with s p show ?thesis
    by (intro trusted_image.flattened [OF p])
      (simp add: subtree_def same_builtin_def subtree_lookup)
qed

lemma subtree_mounted:
  assumes t: "trusted_state E w0 w" and p: "under kApexRoot p"
  shows "trusted_image E w0 (subtree w p)"
proof (cases "mount_over w p")
  case None
  then have m: "map_of (subtree w p) = lookup_below p (map_of (fs w))" by (simp add: subtree_def subtree_lookup)
  have "is_dir n" if "map_of (subtree w p) q = Some n" for q n
  proof -
    from that m have "under p (p @ q)" "map_of (fs w) (p @ q) = Some n" by (simp_all split: if_splits)
    with t under_trans [OF p] show ?thesis unfolding trusted_state_def by blast
  qed
  then show ?thesis by (rule trusted_image.no_files)
next
  case (Some x)
  then obtain mp img where x: "x = (mp, img)" "(mp, img) \<in> set (mnts w)" "under mp p"
    using find_in [of "\<lambda>(t, _). under t p" "mnts w"] by (cases x) (auto simp: mount_over_def)
  have "subtree w p = map (\<lambda>(q, n). (drop (length (drop (length mp) p)) q, n))
      (filter (\<lambda>(q, _). under (drop (length mp) p) q) img)"
    by (simp add: subtree_def Some x(1))
  then have "map_of (subtree w p) = lookup_below (drop (length mp) p) (map_of img)" by (simp only: subtree_lookup)
  moreover have "trusted_image E w0 img" using t x(2) by (auto simp: trusted_state_def)
  ultimately show ?thesis by (rule trusted_image.part [rotated])
qed

section \<open>Mounting packages\<close>

lemma VerifyApexVerity_reads:
  assumes "VerifyApexVerity E apex w = (Inr v, w')"
  shows "\<exists>m c. node_at w (GetPath apex) = Some (Reg m c)"
proof -
  obtain fd w1 where o: "sys_open E (GetPath apex) w = (fd, w1)" by (cases "sys_open E (GetPath apex) w")
  with assms obtain node where fd: "fd = Inr node" by (cases fd) (auto simp: VerifyApexVerity_def)
  obtain footer w2 where g: "getAvbFooter E apex node w1 = (footer, w2)"
    by (cases "getAvbFooter E apex node w1")
  with assms o fd obtain ft where "footer = Inr ft" by (cases footer) (auto simp: VerifyApexVerity_def)
  with getAvbFooter_Inr g obtain m c where "node = Reg m c" by blast
  with o fd show ?thesis by (auto simp: sys_open_def query_eq stat_eff_def split: option.splits if_splits)
qed

lemma keeps_trust_device:
  assumes "mount_device E apex mp dev w = (r, w')" and "under kApexRoot mp"
    and "\<And>img. ext4_image E (hist w) dev = Some img \<Longrightarrow> trusted_image E w0 img"
  shows "keeps_trust E w0 w w'"
proof -
  obtain r1 w1 where m: "sys_mount_dev E dev mp w = (r1, w1)" by (cases "sys_mount_dev E dev mp w")
  obtain r2 w2 where v: "VerifyMountedImage E apex mp w1 = (r2, w2)" by (cases "VerifyMountedImage E apex mp w1")
  obtain r3 w3 where u: "sys_umount E mp w2 = (r3, w3)" by (cases "sys_umount E mp w2")
  note s = keeps_trust_mount_dev [OF m assms(2,3)] keeps_trust_quiet [OF VerifyMountedImage_quiet [OF v], of w0]
    keeps_trust_umount [OF u, of E w0]
  from assms(1) m v u have "w' = w1 \<or> w' = w2 \<or> w' = w3" by (auto simp: mount_device_def split: sum.splits)
  with s show ?thesis by (blast intro: keeps_trust_trans)
qed

lemma keeps_trust_verified:
  assumes "mount_verified E apex mp dev rd n w = (r, w')" and "under kApexRoot mp"
    and "\<And>h img. devices E h = devices E (hist w) \<Longrightarrow> ext4_image E h dev = Some img \<Longrightarrow> trusted_image E w0 img"
  shows "keeps_trust E w0 w w'"
proof -
  obtain r1 w1 where a: "waitForDevice E dev kWaitToBeCreated w = (r1, w1)"
    by (cases "waitForDevice E dev kWaitToBeCreated w")
  obtain r2 w2 where b: "(if rd then readVerityDevice E dev n w1 else (Success, w1)) = (r2, w2)" by fastforce
  have "quiet E w1 w2" using b by (auto split: if_splits intro: readVerityDevice_quiet)
  with waitForDevice_quiet [OF a] have q: "quiet E w w1" "quiet E w w2" by (auto intro: quiet_trans)
  obtain r3 w3 where c: "mount_device E apex mp dev w2 = (r3, w3)" by (cases "mount_device E apex mp dev w2")
  have "keeps_trust E w0 w2 w3"
    using keeps_trust_device [OF c assms(2)] assms(3) [of "hist w2"] q(2) by (simp add: quiet_def)
  moreover from assms(1) a b c have "w' = w1 \<or> w' = w2 \<or> w' = w3" by (auto simp: mount_verified_def split: if_splits)
  ultimately show ?thesis using keeps_trust_quiet [OF q(1)] keeps_trust_quiet [OF q(2)] by (blast intro: keeps_trust_trans)
qed

lemma keeps_trust_verity:
  assumes "mount_on_verity E apex mp dm vi loop v w = (r, w')" and mp: "under kApexRoot mp"
    and k: "keys_from E w0 keys" and v: "authentic E keys apex content v" and l: "attached_to E (hist w) loop apex"
  shows "keeps_trust E w0 w w'"
proof -
  let ?t = "createVerityTable v loop (\<not> vi)"
  obtain r1 w1 where c: "createVerityDevice E dm ?t w = (r1, w1)" by (cases "createVerityDevice E dm ?t w")
  note cs = createVerityDevice_spec [OF c]
  have s1: "keeps_trust E w0 w w1" using cs by (blast intro: keeps_trust_asks)
  show ?thesis
  proof (cases r1)
    case (Inl e)
    with assms(1) c s1 show ?thesis by (simp add: mount_on_verity_def)
  next
    case (Inr np)
    then obtain p where p: "r1 = Inr (dm, p)" using cs by (cases np) auto
    with cs l obtain hp where live: "dm_live E (hist w1) dm = Some ?t" "dm_path E hp dm = Some p"
      "attached_to E (hist w1) loop apex" by auto
    obtain r2 w2 where a: "configureReadAhead E p w1 = (r2, w2)" by (cases "configureReadAhead E p w1")
    note q = configureReadAhead_quiet [OF a]
    obtain r3 w3 where b: "(if \<not> Ok r2 then (r2, w2) else mount_verified E apex mp p vi
        (image_size (verity_desc v)) w2) = (r3, w3)" by fastforce
    have img: "trusted_image E w0 img" if "devices E h = devices E (hist w2)" "ext4_image E h p = Some img" for h img
    proof (rule trusted_image.on_dm [OF k v _ _ live(2) that(2)])
      have "devices E h = devices E (hist w1)" using that(1) q by (simp add: quiet_def)
      with live show "attached_to E h loop apex" "dm_live E h dm = Some ?t" by (simp_all add: devices_def)
    qed
    have "keeps_trust E w0 w2 w3"
    proof (cases "Ok r2")
      case True
      with b have "mount_verified E apex mp p vi (image_size (verity_desc v)) w2 = (r3, w3)" by simp
      from this mp img show ?thesis by (rule keeps_trust_verified)
    next
      case False
      with b show ?thesis by simp
    qed
    moreover have "keeps_trust E w0 w3 (destroy_DmVerityDevice E (Some (dm, p)) w3)"
      using destroy_spec by (blast intro: keeps_trust_asks)
    moreover from assms(1) c p a b have "w' = w3 \<or> w' = destroy_DmVerityDevice E (Some (dm, p)) w3"
      by (auto simp: mount_on_verity_def Let_def split: if_splits)
    ultimately show ?thesis using s1 keeps_trust_quiet [OF q] by (blast intro: keeps_trust_trans)
  qed
qed

lemma keeps_trust_loop:
  assumes "mount_on_loop E apex mp dm vi loop w = (r, w')" and mp: "under kApexRoot mp"
    and l: "attached_to E (hist w) loop apex"
  shows "keeps_trust E w0 w w'"
proof (rule keeps_trust_guarded)
  assume t: "trusted_state E w0 w"
  obtain r1 w1 where ver: "VerifyApexVerity E apex w = (r1, w1)" by (cases "VerifyApexVerity E apex w")
  note q = VerifyApexVerity_quiet [OF ver]
  note s1 = keeps_trust_quiet [OF q]
  have l1: "attached_to E (hist w1) loop apex" using l q by (simp add: quiet_def devices_def)
  have k: "keys_from E w0 (gScannedApexKeys w)" using t by (simp add: trusted_state_def)
  show "keeps_trust E w0 w w'"
  proof (cases r1)
    case (Inl e)
    with assms(1) ver s1 show ?thesis by (simp add: mount_on_loop_def)
  next
    case (Inr v)
    with ver obtain m content where c1: "node_at w (GetPath apex) = Some (Reg m content)"
      using VerifyApexVerity_reads by blast
    from VerifyApexVerity_Inr [OF ver [unfolded Inr] c1] c1 have
      c: "node_at w (GetPath apex) = Some (Reg m content)" "authentic E (gScannedApexKeys w) apex content v" by auto
    show ?thesis
    proof (cases "on_verity E apex")
      case True
      with assms(1) ver Inr have "mount_on_verity E apex mp dm vi loop v w1 = (r, w')"
        by (simp add: mount_on_loop_def on_verity_def)
      from keeps_trust_verity [OF this mp k c(2) l1] s1 show ?thesis by (blast intro: keeps_trust_trans)
    next
      case False
      then have b: "isPathForBuiltinApexes (GetPath apex)" by (simp add: on_verity_def)
      with c(1) t have c0: "node_at w0 (GetPath apex) = Some (Reg m content)"
        using same_builtin_node [of w0 w "GetPath apex"] by (simp add: trusted_state_def)
      from False assms(1) ver Inr have mv: "mount_verified E apex mp loop False (image_size (verity_desc v)) w1 = (r, w')"
        by (simp add: mount_on_loop_def on_verity_def)
      have "keeps_trust E w0 w1 w'"
        using mv mp
      proof (rule keeps_trust_verified)
        fix h img assume h: "devices E h = devices E (hist w1)" "ext4_image E h loop = Some img"
        with l1 have "attached_to E h loop apex" by (simp add: devices_def)
        from trusted_image.on_loop [OF b c0 k c(2) this h(2)] show "trusted_image E w0 img" .
      qed
      with s1 show ?thesis by (blast intro: keeps_trust_trans)
    qed
  qed
qed

lemma keeps_trust_nonflattened:
  assumes "mountNonFlattened E apex mp dm vi w = (r, w')" and mp: "under kApexRoot mp"
  shows "keeps_trust E w0 w w'"
proof -
  obtain r1 w1 where c: "create_loop_attempts E apex kLoopDeviceSetupAttempts w = (r1, w1)"
    by (cases "create_loop_attempts E apex kLoopDeviceSetupAttempts w")
  note cs = create_loop_attempts_spec [OF c]
  have s1: "keeps_trust E w0 w w1" using cs by (blast intro: keeps_trust_asks)
  show ?thesis
  proof (cases "kUpdatable E \<and> Ok r1")
    case False
    with assms(1) c s1 show ?thesis by (auto simp: mountNonFlattened_def Ok_def split: sum.splits if_splits)
  next
    case True
    then obtain l where l: "r1 = Inr l" by (auto simp: Ok_iff)
    obtain r2 w2 where o: "mount_on_loop E apex mp dm vi l w1 = (r2, w2)"
      by (cases "mount_on_loop E apex mp dm vi l w1")
    have "keeps_trust E w0 w1 w2" using keeps_trust_loop [OF o mp] cs l by blast
    moreover from assms(1) c True l o have "w' = w2 \<or> w' = MaybeCloseBad E l w2"
      by (auto simp: mountNonFlattened_def split: sum.splits)
    ultimately show ?thesis
      using s1 MaybeCloseBad_asks [of w2 E l] by (blast intro: keeps_trust_trans keeps_trust_asks)
  qed
qed

lemma keeps_trust_flattened:
  assumes "mountFlattened E apex mp w = (r, w')" and mp: "under kApexRoot mp"
  shows "keeps_trust E w0 w w'"
proof (cases "isPathForBuiltinApexes (GetPath apex)")
  case True
  with assms(1) obtain r1 where "sys_mount_bind E (GetPath apex) mp w = (r1, w')"
    by (auto simp: mountFlattened_def split: prod.splits)
  from keeps_trust_bind [OF this mp subtree_builtin [OF _ True]] show ?thesis .
next
  case False
  with assms(1) show ?thesis by (simp add: mountFlattened_def)
qed

lemma keeps_trust_mount:
  assumes "MountPackageImpl E apex mp dm vi w = (r, w')" and mp: "under kApexRoot mp"
  shows "keeps_trust E w0 w w'"
proof -
  obtain ex w1 where a: "PathExists E mp w = (ex, w1)" by (cases "PathExists E mp w")
  note s1 = keeps_trust_asks [OF PathExists_asks [OF a], of E w0]
  show ?thesis
  proof (cases ex)
    case (Inl e)
    with assms(1) a s1 show ?thesis by (simp add: MountPackageImpl_def)
  next
    case (Inr b)
    obtain r2 w2 where mk: "(if b then (Inr (), w1) else sys_mkdir E mp kMkdirMode w1) = (r2, w2)"
      by fastforce
    have s2: "keeps_trust E w0 w1 w2" using mk keeps_trust_mkdir [OF mp, of E w0 w1 E kMkdirMode] by (auto split: if_splits)
    obtain em w3 where c: "IsEmptyDirectory E mp w2 = (em, w3)" by (cases "IsEmptyDirectory E mp w2")
    note s3 = keeps_trust_asks [OF IsEmptyDirectory_asks [OF c], of E w0]
    obtain r4 w4 where d: "(if \<not> em then (Inl (ErrAt msg_mount_point_full mp), w3)
        else if IsFlattened apex then mountFlattened E apex mp w3
        else mountNonFlattened E apex mp dm vi w3) = (r4, w4)" by fastforce
    have s4: "keeps_trust E w0 w3 w4"
      using d keeps_trust_flattened [OF _ mp] keeps_trust_nonflattened [OF _ mp] by (auto split: if_splits)
    note s5 = keeps_trust_rmdir [OF mp, of E w0 w4 E]
    from assms(1) a Inr mk c d have "w' = w2 \<or> w' = w4 \<or> w' = snd (sys_rmdir E mp w4)"
      by (auto simp: MountPackageImpl_def Let_def split: sum.splits if_splits)
    with s1 s2 s3 s4 s5 show ?thesis by (blast intro: keeps_trust_trans)
  qed
qed

lemma keeps_trust_unmount:
  assumes "Unmount E data w = (r, w')" and mp: "under kApexRoot (mount_point data)"
  shows "keeps_trust E w0 w w'"
proof -
  let ?mp = "mount_point data"
  obtain r1 w1 where a: "sys_umount E ?mp w = (r1, w1)" by (cases "sys_umount E ?mp w")
  obtain r2 w2 where b: "sys_rmdir E ?mp w1 = (r2, w2)" by (cases "sys_rmdir E ?mp w1")
  obtain r3 w3 where c: "DeleteVerityDevice E (device_name data) w2 = (r3, w3)"
    by (cases "DeleteVerityDevice E (device_name data) w2")
  have "keeps_trust E w0 w1 w2" using keeps_trust_rmdir [OF mp, of E w0 w1 E] b by simp
  moreover have "asks w2 w3" using DeleteVerityDevice_spec [OF c] by blast
  moreover from assms(1) a b c have "w' = w1 \<or> w' = w2 \<or> w' = w3 \<or>
      w' = DestroyLoopDevice E (loop_name data) (\<lambda>_ _ w. w) w2 \<or>
      w' = DestroyLoopDevice E (loop_name data) (\<lambda>_ _ w. w) w3"
    by (auto simp: Unmount_def Let_def split: if_splits)
  ultimately show ?thesis
    using keeps_trust_umount [OF a, of E w0] DestroyLoopDevice_asks by (blast intro: keeps_trust_trans keeps_trust_asks)
qed

lemma keeps_trust_show:
  assumes "BindMount E target src w = (r, w')" and t: "under kApexRoot target" and s: "under kApexRoot src"
  shows "keeps_trust E w0 w w'"
proof -
  obtain st w1 where a: "sys_stat E target w = (st, w1)" by (cases "sys_stat E target w")
  obtain ex isdir where x: "(case st of Inl e \<Rightarrow> if e = ENOENT then (False, False) else (True, True)
      | Inr n \<Rightarrow> (True, is_dir n)) = (ex, isdir)" by fastforce
  obtain ex' w2 where u: "(if ex \<and> \<not> isdir then (False, snd (sys_unlink E target w1)) else (ex, w1)) = (ex', w2)"
    by fastforce
  obtain made w3 where m: "(if \<not> ex' then sys_mkdir E target kMkdirMode w2 else (Inr (), w2)) = (made, w3)"
    by fastforce
  define w4 where "w4 = (if ex' then snd (sys_umount E target w3) else w3)"
  obtain r5 w5 where k: "sys_mount_bind E src target w4 = (r5, w5)" by (cases "sys_mount_bind E src target w4")
  have nb: "\<not> isPathForBuiltinApexes target" using builtin_not_below t by blast
  have "keeps_trust E w0 w w1" by (rule keeps_trust_asks [OF sys_stat_asks [OF a]])
  also have "keeps_trust E w0 w1 w2"
    using u keeps_trust_unlink [OF nb, of E w0 w1 E] by (auto split: if_splits)
  also have "keeps_trust E w0 w2 w3"
    using m keeps_trust_mkdir [OF t, of E w0 w2 E kMkdirMode] by (auto split: if_splits)
  finally have s3: "keeps_trust E w0 w w3" .
  also have "keeps_trust E w0 w3 w4"
    using keeps_trust_umount [OF prod.collapse [symmetric]] by (simp add: w4_def)
  also have "keeps_trust E w0 w4 w5" by (rule keeps_trust_bind [OF k t subtree_mounted [OF _ s]])
  finally have "keeps_trust E w0 w w5" .
  moreover from assms(1) a x u m k have "w' = w3 \<or> w' = w5"
    by (auto simp: BindMount_def w4_def Let_def split: sum.splits)
  ultimately show ?thesis using s3 by blast
qed

lemma owned_not_apex: "owned p \<Longrightarrow> \<not> under kApexRoot p"
  using root_apart(1) by (auto simp: owned_def)

interpretation trust: session_writes E "keeps_trust E w0" for E w0
proof unfold_locales
  show "keeps_trust E w0 w w'" if "only_fs R w w'" "\<And>q. R q \<Longrightarrow> owned q" for E w0 R w w'
    using that(1) by (rule keeps_trust_only_fs) (use that(2) owned_not_builtin owned_not_apex in blast)
  show "keeps_trust E w0 w w'" if "only_fs (under kApexSessionsDir) w w'" for E w0 w w'
    using that by (rule keeps_trust_only_fs) (use sessions_not_builtin root_apart(3) in blast)
qed (blast intro: keeps_trust_trans keeps_trust_state keeps_trust_collect keeps_trust_mkdir keeps_trust_rmdir
    keeps_trust_mount keeps_trust_unmount keeps_trust_umount keeps_trust_show package_mount_under)+

section \<open>Whole runs\<close>

text \<open>
  Hooks, which are other programs, leave the built-in partitions alone and make no files in
  \<open>/apex\<close>, and no caller asks for a file of a built-in partition to be removed.
\<close>

definition hooks_apart :: "env \<Rightarrow> bool" where
  "hooks_apart E \<longleftrightarrow> (\<forall>h args t q. isPathForBuiltinApexes q \<or> under kApexRoot q \<longrightarrow>
     map_of (exec_effect E h args t) q = map_of t q)"

definition off_builtin :: "request \<Rightarrow> bool" where
  "off_builtin req = (case req of UnstagePackages ps \<Rightarrow> list_all (\<lambda>p. \<not> isPathForBuiltinApexes p) ps | _ \<Rightarrow> True)"

lemma execs_keep_trust: "hooks_apart E \<Longrightarrow> execs_keep E (keeps_trust E w0)"
  unfolding execs_keep_def hooks_apart_def by (intro allI keeps_trust_fs) simp_all

lemma keeps_trust_starts: "keeps_trust E w0 w (new_process w)" "keeps_trust E w0 w (restart w)"
  by (auto simp: keeps_trust_def trusted_state_def same_builtin_def keys_from_def new_process_def restart_def
      mount_over_def)

definition trust_inv :: "world \<Rightarrow> env \<Rightarrow> world \<Rightarrow> bool" where
  "trust_inv w0 E w \<longleftrightarrow> rooted w \<and> trusted_state E w0 w"

interpretation trusted: simulation hooks_apart off_builtin "trust_inv w0" "\<lambda>_ _. ()" perform "\<lambda>_ _. False" for w0
proof unfold_locales
  fix E req w w'
  assume "hooks_apart E" "off_builtin req" "trust_inv w0 E w" "perform E req w = Some w'"
  moreover have "keeps_trust E w0 v (snd (sys_unlink E p v))" if "req = UnstagePackages ps" "p \<in> set ps" for ps p v
    using that \<open>off_builtin req\<close> by (intro keeps_trust_unlink) (simp add: off_builtin_def list_all_iff)
  ultimately have "framed (keeps_trust E w0) w w'"
    using trust.requests.Q_perform [OF execs_keep_trust _ keeps_trust_starts] execs_keep_trust by blast
  with \<open>trust_inv w0 E w\<close> show "trust_inv w0 E w' \<and> (\<lambda>_ _. False)\<^sup>*\<^sup>* () ()"
    by (simp add: trust_inv_def framed_def keeps_trust_def)
qed

text \<open>C1. Whatever the daemon is asked for from the start of the device on, and whatever calls fail or
  processes restart on the way, every mount is below \<open>/apex\<close> and shows what can be trusted:
  an image read through a verity device with the digest of a descriptor that is signed with a
  recorded key (or, on a debug build that allows it and for a name without a recorded key, with
  the key bundled in the package), such an image of a built-in package on a loop device, a
  directory of a built-in partition as it was at first, a tree of directories without a file,
  which a directory below \<open>/apex\<close> with nothing mounted on it is, or a part of one of these; and
  every key on record is the one a package of a built-in partition
  came with. The hypotheses are that hooks and callers of \<open>unstagePackages\<close> leave the built-in
  partitions alone and that \<open>/apex\<close> holds directories only.
\<close>

theorem every_mount_trusted:
  assumes "hooks_apart E" and "list_all off_builtin requests"
    and "\<forall>q n. under kApexRoot q \<longrightarrow> map_of (fs w0) q = Some n \<longrightarrow> is_dir n"
    and "run_all (perform E) requests (restart w0) = Some w"
  shows "(\<forall>(mp, img) \<in> set (mnts w). under kApexRoot mp \<and> trusted_image E (restart w0) img) \<and>
    (\<forall>(n, k) \<in> set (gScannedApexKeys w). builtin_key E (restart w0) n k)"
proof -
  have "trust_inv (restart w0) E (restart w0)"
    using assms(3) by (simp add: trust_inv_def rooted_def clear_def mounted_def trusted_state_def same_builtin_def
        keys_from_def mount_over_def restart_def new_process_def)
  with trusted.run_simulates [OF assms(1,2) _ assms(4)] have "trust_inv (restart w0) E w" by blast
  then show ?thesis by (simp add: trust_inv_def trusted_state_def keys_from_def)
qed

text \<open>
  A device with version 1 of a package on the system partition and version 2, signed with the
  same key, in the directory of active packages.
\<close>

definition sample_device_env :: env where
  "sample_device_env = sample_mount_env\<lparr>
     avb_verify := (\<lambda>_. (AVB_OK, ''kk'')),
     ext4_image := (\<lambda>_ dev. Some [('''', Directory 493), (''/apex_manifest.json'',
       Reg 420 (if dev = ''/dev/block/n@2'' then ''n;2;;'' else ''n;1;;''))])\<rparr>"

definition sample_device :: world where
  "sample_device = sample_world\<lparr>fs := [('''', Directory 493), (''/apex'', Directory 493),
     (''/system'', Directory 493), (''/system/apex'', Directory 493),
     (''/system/apex/n.apex'', Reg 420 ''n;1;;|kk''),
     (''/data'', Directory 493), (''/data/apex'', Directory 493), (''/data/apex/active'', Directory 493),
     (''/data/apex/active/n@2.apex'', Reg 420 ''n;2;;|kk'')]\<rparr>"

lemma sample_device_run:
  "case run_all (perform sample_device_env) [Start None] (restart sample_device) of
     Some w \<Rightarrow> map fst (mnts w) = [''/apex/n'', ''/apex/n@2''] \<and> gScannedApexKeys w = [(''n'', ''kk'')]
   | None \<Rightarrow> False"
  by code_simp

theorem every_mount_trusted_witness:
  "\<exists>w img. run_all (perform sample_device_env) [Start None] (restart sample_device) = Some w \<and>
     (''/apex/n@2'', img) \<in> set (mnts w) \<and> trusted_image sample_device_env (restart sample_device) img \<and>
     builtin_key sample_device_env (restart sample_device) ''n'' ''kk''"
proof -
  obtain w where w: "run_all (perform sample_device_env) [Start None] (restart sample_device) = Some w"
    "map fst (mnts w) = [''/apex/n'', ''/apex/n@2'']" "gScannedApexKeys w = [(''n'', ''kk'')]"
    using sample_device_run by (auto split: option.splits)
  from w(2) have "''/apex/n@2'' \<in> fst ` set (mnts w)" by (metis list.set_intros list.set_map)
  then obtain img where img: "(''/apex/n@2'', img) \<in> set (mnts w)" by auto
  have h: "hooks_apart sample_device_env" "list_all off_builtin [Start None]"
    by (simp_all add: hooks_apart_def off_builtin_def sample_device_env_def sample_mount_env_def
        sample_avb_env_def sample_env_def)
  have "\<forall>(q, n) \<in> set (fs sample_device). under kApexRoot q \<longrightarrow> is_dir n" by code_simp
  then have "\<forall>q n. under kApexRoot q \<longrightarrow> map_of (fs sample_device) q = Some n \<longrightarrow> is_dir n"
    by (blast dest: map_of_SomeD)
  from every_mount_trusted [OF h this w(1)] img w show ?thesis by auto
qed

end
