(* ===== verification/Activate_Props.thy ===== *)
theory Activate_Props
  imports Session_Frame
begin

text \<open>
  What activating a package does to the database and the mount table, when the daemon
  aborts on it, and what is left of the mounts that are not the latest.
\<close>

section \<open>Comparing versions\<close>




section \<open>Results of an activation\<close>








lemma db_entry_mounted:
  assumes "db_inv db" and "(d, l) \<in> set (ForallMountedApexes db p)"
  shows "mounted db p d = Some l"
proof -
  have "sorted_map (ForallMountedApexes db p)" using db_inv_pkg [OF assms(1), of p] by simp
  with assms(2) show ?thesis by (simp add: mounted_def map_of_is_SomeI sorted_map_distinct)
qed










text \<open>C22. The daemon aborts on a failed check when a package is activated whose version is mounted
  from another path, is not active, and is the greatest: the mounted image is shown, but
  there is none with the new path to become the latest.
\<close>

theorem activation_aborts:
  assumes "db_inv (gMountedApexes w)"
    and "compare_versions E (manifest_version (GetManifest a))
      (ForallMountedApexes (gMountedApexes w) (manifest_name (GetManifest a))) True False False w =
      (True, True, False, w1)"
    and "\<forall>d. mounted (gMountedApexes w) (manifest_name (GetManifest a)) d \<noteq> None \<longrightarrow> full_path d \<noteq> GetPath a"
    and "gBootstrap w \<longrightarrow> isBootstrapApex a" "kUpdatable E \<or> gBootstrap w \<or> \<not> isBootstrapApex a"
    and "Ok (fst (BindMount E (GetActiveMountPoint (GetManifest a)) (GetPackageMountPoint (GetManifest a)) w1))"
  shows "activatePackageImpl E a w = None"
proof -
  let ?m = "GetManifest a"
  obtain st w2 where b: "BindMount E (GetActiveMountPoint ?m) (GetPackageMountPoint ?m) w1 = (st, w2)"
    by (cases "BindMount E (GetActiveMountPoint ?m) (GetPackageMountPoint ?m) w1")
  have db: "gMountedApexes w2 = gMountedApexes w"
    using conjunct1 [OF at_mount_state [OF BindMount_at [OF b]]]
      asks_fields(7) [OF compare_versions_asks [OF assms(2)]] by simp
  have "(d, l) \<notin> set (ForallMountedApexes (gMountedApexes w) (manifest_name ?m)) \<or> full_path d \<noteq> GetPath a" for d l
    using assms(3) mounted_in by blast
  then have "path_entry (GetPath a) (ForallMountedApexes (gMountedApexes w) (manifest_name ?m)) = None"
    by (auto simp: path_entry_None_iff)
  then have "SetLatest (manifest_name ?m) (GetPath a) (gMountedApexes w2) = None"
    using SetLatest_None_iff [OF assms(1)] db by simp
  moreover have "\<exists>u. st = Inr u" using assms(6) b by (simp add: Ok_iff)
  ultimately have "show_latest E a (GetPackageMountPoint ?m) w1 = None"
    using b by (auto simp: show_latest_def)
  with assms(2,4,5) show ?thesis by (auto simp: activatePackageImpl_def Let_def)
qed


text \<open>A flattened package on the system partition, and the same version at another path.\<close>

definition sample_flat_world :: world where
  "sample_flat_world = sample_world\<lparr>fs := [(''/apex'', Directory 493), (''/apex/n@1'', Directory 493),
     (''/system/apex'', Directory 493), (''/system/apex/n'', Directory 493),
     (''/system/apex/n/apex_manifest.json'', Reg 420 ''n;1;;'')]\<rparr>"

definition sample_flat :: ApexFile where
  "sample_flat = \<lparr>GetPath = ''/system/apex/n'', IsFlattened = True, GetImageOffset = 0, GetImageSize = 0,
     GetManifest = \<lparr>manifest_name = ''n'', manifest_version = 1, preinstallhook = '''',
       postinstallhook = '''', versionname = ''1''\<rparr>, GetBundledPublicKey = ''''\<rparr>"

definition sample_mounted_flat :: world where
  "sample_mounted_flat = sample_flat_world\<lparr>gMountedApexes :=
     [(''n'', [(MountedApexData '''' ''/system/apex/n'' ''/apex/n@1'' '''', False)])]\<rparr>"


theorem activation_aborts_witness:
  "activatePackageImpl sample_env (sample_flat\<lparr>GetPath := ''/data/n''\<rparr>) sample_mounted_flat = None"
proof -
  let ?a = "sample_flat\<lparr>GetPath := ''/data/n''\<rparr>" and ?w = sample_mounted_flat
  let ?c = "compare_versions sample_env 1 (ForallMountedApexes (gMountedApexes ?w) ''n'') True False False ?w"
  have n: "manifest_name (GetManifest ?a) = ''n''" "manifest_version (GetManifest ?a) = 1"
    by (simp_all add: sample_flat_def)
  have "fst ?c = True" "fst (snd ?c) = True" "fst (snd (snd ?c)) = False" by code_simp+
  then have c: "?c = (True, True, False, snd (snd (snd ?c)))" by (simp add: prod_eq_iff)
  have inv: "db_inv (gMountedApexes ?w)" by code_simp
  have "\<forall>d. mounted (gMountedApexes ?w) ''n'' d \<noteq> None \<longrightarrow> full_path d \<noteq> ''/data/n''"
    by (auto simp: sample_mounted_flat_def mounted_def ForallMountedApexes_def split: if_splits)
  moreover have "Ok (fst (BindMount sample_env (GetActiveMountPoint (GetManifest ?a))
      (GetPackageMountPoint (GetManifest ?a)) (snd (snd (snd ?c)))))" by code_simp
  moreover have "\<not> gBootstrap ?w" "kUpdatable sample_env"
    by (simp_all add: sample_mounted_flat_def sample_flat_world_def sample_world_def sample_env_def)
  moreover have "GetPath ?a = ''/data/n''" by simp
  ultimately show ?thesis
    using activation_aborts [of ?w sample_env ?a "snd (snd (snd ?c))", OF inv] c n by metis
qed

section \<open>Dangling mounts\<close>

lemma unmount_dangling_db: "gMountedApexes (unmount_dangling E p data w) =
    RemoveMountedApex p (full_path data) (gMountedApexes w)"
proof -
  let ?w1 = "w\<lparr>gMountedApexes := RemoveMountedApex p (full_path data) (gMountedApexes w)\<rparr>"
  obtain r w2 where u: "Unmount E data ?w1 = (r, w2)" by (cases "Unmount E data ?w1")
  have "gMountedApexes w2 = gMountedApexes ?w1" using at_mount_state [OF Unmount_at [OF u]] by simp
  moreover have "gMountedApexes (snd (sys_unlink E (full_path data) w2)) = gMountedApexes w2"
    using only_fs_state [OF sys_unlink_frame] by simp
  ultimately show ?thesis using u by (simp add: unmount_dangling_def Let_def)
qed

text \<open>No two images of a package come from the same file.\<close>

definition distinct_files :: "apex_db \<Rightarrow> string \<Rightarrow> bool" where
  "distinct_files db p \<longleftrightarrow> (\<forall>d e. mounted db p d \<noteq> None \<and> mounted db p e \<noteq> None \<and>
     full_path d = full_path e \<longrightarrow> d = e)"

lemma remove_mounted_file:
  assumes inv: "db_inv db" and fd: "distinct_files db p" and d: "mounted db p d \<noteq> None"
  shows "mounted (RemoveMountedApex p (full_path d) db) = (mounted db)(p := (mounted db p)(d := None))"
proof -
  have "path_entry (full_path d) (ForallMountedApexes db p) \<noteq> None"
    using d by (auto simp: path_entry_None_iff mounted_def dest!: map_of_SomeD)
  then obtain e where e: "path_entry (full_path d) (ForallMountedApexes db p) = Some e" by blast
  then have "full_path e = full_path d" "mounted db p e \<noteq> None"
    using path_entry_SomeD [OF e] mounted_in by force+
  with fd d have "e = d" unfolding distinct_files_def by blast
  with RemoveMountedApex_spec(2) [OF inv, of p "full_path d"] e show ?thesis by simp
qed

definition files_distinct :: "apex_db \<Rightarrow> bool" where
  "files_distinct db \<longleftrightarrow> (\<forall>p d e. mounted db p d \<noteq> None \<and> mounted db p e \<noteq> None \<and>
     full_path d = full_path e \<longrightarrow> d = e)"

lemma remove_mounted:
  assumes "db_inv db" and "files_distinct db" and "mounted db p d \<noteq> None"
  shows "mounted (RemoveMountedApex p (full_path d) db) = (mounted db)(p := (mounted db p)(d := None))"
  using assms by (intro remove_mounted_file) (auto simp: files_distinct_def distinct_files_def)

lemma unmount_each_less:
  assumes "db_inv (gMountedApexes w)"
  shows "db_inv (gMountedApexes (unmount_each E ds w)) \<and>
    (mounted (gMountedApexes (unmount_each E ds w)) p d = None \<or>
     mounted (gMountedApexes (unmount_each E ds w)) p d = mounted (gMountedApexes w) p d)"
  using assms
proof (induction ds arbitrary: w)
  case (Cons x ds)
  obtain q e where x: "x = (q, e)" by (cases x)
  let ?w1 = "unmount_dangling E q e w"
  note law = mdb.remove_law [OF Cons.prems, of q "full_path e"]
  then have "db_inv (gMountedApexes ?w1)" by (simp add: unmount_dangling_db)
  note IH = Cons.IH [OF this]
  have "mounted (gMountedApexes ?w1) p d = None \<or>
      mounted (gMountedApexes ?w1) p d = mounted (gMountedApexes w) p d"
    using law by (auto simp: unmount_dangling_db)
  with IH x show ?case by auto
qed simp

lemma unmount_each_db:
  assumes "db_inv (gMountedApexes w)" "distinct_files (gMountedApexes w) p" "distinct ds"
    and "\<forall>d. (p, d) \<in> set ds \<longrightarrow> mounted (gMountedApexes w) p d \<noteq> None"
  shows "mounted (gMountedApexes (unmount_each E ds w)) p d =
    (if (p, d) \<in> set ds then None else mounted (gMountedApexes w) p d)"
  using assms
proof (induction ds arbitrary: w)
  case (Cons x ds)
  obtain q e where x: "x = (q, e)" by (cases x)
  let ?w1 = "unmount_dangling E q e w"
  have m1: "mounted (gMountedApexes ?w1) p =
      (if q = p then (mounted (gMountedApexes w) p)(e := None) else mounted (gMountedApexes w) p)"
  proof (cases "q = p")
    case True
    then have "mounted (gMountedApexes w) p e \<noteq> None" using Cons.prems(4) x by simp
    from remove_mounted_file [OF Cons.prems(1,2) this] True show ?thesis by (simp add: unmount_dangling_db)
  next
    case False
    with mdb.remove_law [OF Cons.prems(1), of q "full_path e"] show ?thesis
      by (auto simp: unmount_dangling_db)
  qed
  have inv1: "db_inv (gMountedApexes ?w1)"
    using RemoveMountedApex_spec(1) [OF Cons.prems(1)] by (simp add: unmount_dangling_db)
  have fd1: "distinct_files (gMountedApexes ?w1) p"
    using Cons.prems(2) unfolding distinct_files_def m1 by (auto split: if_splits)
  have "\<forall>d. (p, d) \<in> set ds \<longrightarrow> mounted (gMountedApexes ?w1) p d \<noteq> None"
    using Cons.prems(3,4) x by (auto simp: m1)
  from Cons.IH [OF inv1 fd1 _ this] Cons.prems(3) x m1 show ?case by (cases "q = p") auto
qed simp

lemma all_entries: "sorted_map db \<Longrightarrow> (p, d, l) \<in> set (ForallMountedApexesAll db) \<longleftrightarrow> (d, l) \<in> set (ForallMountedApexes db p)"
proof -
  assume s: "sorted_map db"
  have "(p, m) \<in> set db \<longleftrightarrow> map_of db p = Some m" for m
    using sorted_map_distinct [OF s] by simp
  then show ?thesis
    by (force simp: ForallMountedApexesAll_def ForallMountedApexes_def split: option.splits)
qed

lemma distinct_entries:
  "sorted_map db \<Longrightarrow> \<forall>(p, m) \<in> set db. sorted_map m \<Longrightarrow>
     distinct (map (\<lambda>(p, d, l). (p, d)) (ForallMountedApexesAll db))"
proof (induction db)
  case (Cons x db)
  obtain p m where x: "x = (p, m)" by (cases x)
  have "distinct (map fst m)" using Cons.prems(2) x sorted_map_distinct by auto
  then have "distinct (map (\<lambda>(d, l). (p, d)) m)" by (fastforce simp: distinct_map inj_on_def)
  moreover have "p \<notin> fst ` set db" using sorted_map_distinct [OF Cons.prems(1)] x by simp
  ultimately show ?case
    using Cons x by (force simp: ForallMountedApexesAll_def comp_def case_prod_unfold)
qed (simp add: ForallMountedApexesAll_def)

lemma danglings_mem:
  assumes "db_inv db"
  shows "(p, d) \<in> set (danglings db) \<longleftrightarrow> mounted db p d = Some False"
proof -
  have srt: "sorted_map db" using assms by (simp add: db_inv_def)
  have "(p, d) \<in> set (danglings db) \<longleftrightarrow> (p, d, False) \<in> set (ForallMountedApexesAll db)"
    by (force simp: danglings_def)
  also have "\<dots> \<longleftrightarrow> (d, False) \<in> set (ForallMountedApexes db p)" by (rule all_entries [OF srt])
  also have "\<dots> \<longleftrightarrow> mounted db p d = Some False"
    using db_entry_mounted [OF assms] by (auto simp: mounted_def dest: map_of_SomeD)
  finally show ?thesis .
qed

lemma danglings_distinct: "db_inv db \<Longrightarrow> distinct (danglings db)"
  using distinct_entries [of db] by (simp add: db_inv_def danglings_def distinct_map_filter)

text \<open>C23. What the clean-up after the boot leaves in the database, whatever calls fail while images
  are unmounted. It adds nothing and changes no flag. For a package no two of whose images
  come from the same file, it keeps exactly the latest image and takes out all others. The
  condition is needed: an image is taken out by its path, so that of two images from one file
  the latest may go instead of the other, as the lemma below shows.
\<close>

theorem unmountDanglingMounts_keeps_latest:
  assumes "db_inv (gMountedApexes w)"
  shows "db_inv (gMountedApexes (unmountDanglingMounts E w)) \<and>
    (\<forall>p d. mounted (gMountedApexes (unmountDanglingMounts E w)) p d = None \<or>
       mounted (gMountedApexes (unmountDanglingMounts E w)) p d = mounted (gMountedApexes w) p d) \<and>
    (\<forall>p. distinct_files (gMountedApexes w) p \<longrightarrow>
       (\<forall>d. mounted (gMountedApexes (unmountDanglingMounts E w)) p d =
         (if mounted (gMountedApexes w) p d = Some True then Some True else None)))"
proof (intro conjI allI impI)
  let ?db = "gMountedApexes w"
  note mem = danglings_mem [OF assms]
  note less = unmount_each_less [OF assms, of E "danglings ?db"]
  show "db_inv (gMountedApexes (unmountDanglingMounts E w))"
    using less by (simp add: unmountDanglingMounts_def)
  show "mounted (gMountedApexes (unmountDanglingMounts E w)) p d = None \<or>
      mounted (gMountedApexes (unmountDanglingMounts E w)) p d = mounted ?db p d" for p d
    using less by (simp add: unmountDanglingMounts_def)
  fix p d assume fd: "distinct_files ?db p"
  have "mounted (gMountedApexes (unmount_each E (danglings ?db) w)) p d =
      (if (p, d) \<in> set (danglings ?db) then None else mounted ?db p d)"
    by (rule unmount_each_db [OF assms fd danglings_distinct [OF assms]]) (simp add: mem)
  then show "mounted (gMountedApexes (unmountDanglingMounts E w)) p d =
      (if mounted ?db p d = Some True then Some True else None)"
    by (simp add: unmountDanglingMounts_def mem) (metis (full_types) not_None_eq)
qed

theorem unmountDanglingMounts_keeps_latest_witness:
  "gMountedApexes sample_mounted_flat \<noteq> [] \<and>
     mounted (gMountedApexes (unmountDanglingMounts sample_env sample_mounted_flat)) ''n''
       (MountedApexData '''' ''/system/apex/n'' ''/apex/n@1'' '''') = None"
proof -
  have "db_inv (gMountedApexes sample_mounted_flat)" by code_simp
  moreover have "distinct_files (gMountedApexes sample_mounted_flat) ''n''"
    by (auto simp: distinct_files_def sample_mounted_flat_def mounted_def ForallMountedApexes_def split: if_splits)
  ultimately show ?thesis
    using unmountDanglingMounts_keeps_latest [of sample_mounted_flat sample_env]
    by (simp add: sample_mounted_flat_def mounted_def ForallMountedApexes_def)
qed

text \<open>
  A package's latest image, and a temporary mount of the same file that was left behind and is
  recorded as well at startup: the clean-up takes the latest image out and keeps the other.
\<close>

definition sample_left_over :: world where
  "sample_left_over = sample_world\<lparr>gMountedApexes :=
     [(''n'', [(MountedApexData ''/dev/block/loop1'' ''/data/apex/active/n@1.apex'' ''/apex/n@1'' '''', True),
       (MountedApexData ''/dev/block/loop2'' ''/data/apex/active/n@1.apex'' ''/apex/n@1.tmp'' '''', False)])]\<rparr>"

lemma latest_taken_out:
  "db_inv (gMountedApexes sample_left_over)"
  "gMountedApexes (unmountDanglingMounts sample_env sample_left_over) =
     [(''n'', [(MountedApexData ''/dev/block/loop2'' ''/data/apex/active/n@1.apex'' ''/apex/n@1.tmp'' '''', False)])]"
  by code_simp+

end
