(* ===== verification/Db_Mounts.thy ===== *)
theory Db_Mounts
  imports Activate_Props Mount_Trust Session_Store
begin

text \<open>
  The database and the mount table agree: while packages are activated, deactivated and
  cleaned up, every image the database knows is mounted at a mount point of its own,
  whatever calls fail.
\<close>

section \<open>Mount points\<close>

text \<open>Names of packages have no \<open>/\<close> and no \<open>@\<close>.\<close>

definition plain :: "ApexManifest \<Rightarrow> bool" where
  "plain m \<longleftrightarrow> CHR ''/'' \<notin> set (manifest_name m) \<and> CHR ''@'' \<notin> set (manifest_name m)"

definition plain_names :: "env \<Rightarrow> bool" where
  "plain_names E \<longleftrightarrow> (\<forall>s m. manifest_parse E s = Some m \<longrightarrow> plain m)"

lemma under_child:
  assumes "under (slash d x) (slash d y)" and "CHR ''/'' \<notin> set y"
  shows "x = y"
proof (rule ccontr)
  assume "x \<noteq> y"
  with assms(1) obtain z where "d @ ''/'' @ y = (d @ ''/'' @ x) @ ''/'' @ z"
    by (auto simp: under_def prefix_def)
  then have "CHR ''/'' \<in> set y" by simp
  with assms(2) show False by simp
qed

lemma package_id_plain: "plain m \<Longrightarrow> CHR ''/'' \<notin> set (GetPackageId m)" "CHR ''@'' \<in> set (GetPackageId m)"
  by (simp_all add: plain_def GetPackageId_def)

lemma points_apart:
  assumes "plain m"
  shows "under (GetPackageMountPoint m') (GetPackageMountPoint m) \<Longrightarrow> GetPackageMountPoint m' = GetPackageMountPoint m"
    and "plain m' \<Longrightarrow> \<not> under (GetActiveMountPoint m') (GetPackageMountPoint m)"
proof -
  show "under (GetPackageMountPoint m') (GetPackageMountPoint m) \<Longrightarrow> GetPackageMountPoint m' = GetPackageMountPoint m"
    unfolding GetPackageMountPoint_def using under_child package_id_plain(1) [OF assms] by metis
  show "\<not> under (GetActiveMountPoint m') (GetPackageMountPoint m)" if "plain m'"
  proof
    assume "under (GetActiveMountPoint m') (GetPackageMountPoint m)"
    then have "manifest_name m' = GetPackageId m"
      unfolding GetActiveMountPoint_def GetPackageMountPoint_def
      using under_child package_id_plain(1) [OF assms] by blast
    with that package_id_plain(2) [of m] assms show False by (simp add: plain_def)
  qed
qed

lemma source_plain: "plain_names E \<Longrightarrow> package_source E w p a \<Longrightarrow> plain (GetManifest a)"
  by (auto simp: plain_names_def package_source_def ParseManifest_Inr split: if_splits)

section \<open>The invariant\<close>

text \<open>
  An entry of the database: mounted, and on top, at the mount point of its package; the file
  it came from, outside \<open>/apex\<close>, still has the manifest of this package, if it is there.
\<close>

definition entry_ok :: "env \<Rightarrow> world \<Rightarrow> MountedApexData \<Rightarrow> bool" where
  "entry_ok E w d \<longleftrightarrow> (\<exists>m. plain m \<and> mount_point d = GetPackageMountPoint m) \<and>
     (\<exists>img. mount_over w (mount_point d) = Some (mount_point d, img)) \<and> list_dir w (mount_point d) \<noteq> [] \<and>
     \<not> under kApexRoot (full_path d) \<and>
     (\<forall>a. package_source E w (full_path d) a \<longrightarrow> GetPackageMountPoint (GetManifest a) = mount_point d)"

definition points_distinct :: "apex_db \<Rightarrow> bool" where
  "points_distinct db \<longleftrightarrow> (\<forall>p d q e. mounted db p d \<noteq> None \<and> mounted db q e \<noteq> None \<and>
     mount_point d = mount_point e \<longrightarrow> p = q \<and> d = e)"

text \<open>Mounts are below \<open>/apex\<close>, and outside of it no file is below a file.\<close>

definition tree_ok :: "world \<Rightarrow> bool" where
  "tree_ok w \<longleftrightarrow> (\<forall>(t, _) \<in> set (mnts w). under kApexRoot t) \<and>
     (\<forall>p m c. \<not> under kApexRoot p \<longrightarrow> map_of (fs w) p = Some (Reg m c) \<longrightarrow>
        map_of (fs w) (slash p kManifestFilename) = None)"

definition faithful_db :: "env \<Rightarrow> world \<Rightarrow> bool" where
  "faithful_db E w \<longleftrightarrow> db_inv (gMountedApexes w) \<and> tree_ok w \<and> files_distinct (gMountedApexes w) \<and>
     points_distinct (gMountedApexes w) \<and>
     (\<forall>p d. mounted (gMountedApexes w) p d \<noteq> None \<longrightarrow> entry_ok E w d)"

lemma off_apex_manifest: "\<not> under kApexRoot p \<Longrightarrow> \<not> under kApexRoot (slash p kManifestFilename)"
proof
  assume p: "\<not> under kApexRoot p" and u: "under kApexRoot (slash p kManifestFilename)"
  have ne: "slash p kManifestFilename \<noteq> kApexRoot" by (simp add: kApexRoot_def kManifestFilename_def append_eq_Cons_conv)
  with under_dirname_mono [OF u] have "under kApexRoot (dirname (slash p kManifestFilename))" by metis
  moreover have "dirname (slash p kManifestFilename) = p" by (simp add: kManifestFilename_def)
  ultimately show False using p by simp
qed

lemma off_apex_host: "tree_ok w \<Longrightarrow> \<not> under kApexRoot p \<Longrightarrow> mount_over w p = None"
  using under_trans by (fastforce simp: tree_ok_def mount_over_def find_None_iff)

lemma off_apex_node: "tree_ok w \<Longrightarrow> \<not> under kApexRoot p \<Longrightarrow> node_at w p = map_of (fs w) p"
  by (simp add: node_at_host off_apex_host)

text \<open>All ways to read a package file agree on its manifest.\<close>

lemma source_unique:
  assumes "tree_ok w" "\<not> under kApexRoot p" "package_source E w p a" "package_source E w p b"
  shows "GetManifest a = GetManifest b"
  using assms off_apex_node [OF assms(1) assms(2)] off_apex_node [OF assms(1) off_apex_manifest [OF assms(2)]]
  by (auto simp: package_source_def tree_ok_def split: if_splits)


section \<open>Steps that add nothing\<close>

text \<open>
  Images may be taken out of the database and files removed; what stays in the database stays
  mounted as it is.
\<close>

lemma faithful_less:
  assumes f: "faithful_db E w" and inv: "db_inv (gMountedApexes w')"
    and db: "\<And>p d. mounted (gMountedApexes w') p d \<noteq> None \<Longrightarrow>
      mounted (gMountedApexes w) p d \<noteq> None \<and> mount_over w' (mount_point d) = mount_over w (mount_point d)"
    and ms: "\<forall>(t, _) \<in> set (mnts w'). under kApexRoot t"
    and fl: "\<And>p n. \<not> under kApexRoot p \<Longrightarrow> map_of (fs w') p = Some n \<Longrightarrow> map_of (fs w) p = Some n"
  shows "faithful_db E w'"
proof -
  have t: "tree_ok w" using f by (simp add: faithful_db_def)
  have t': "tree_ok w'"
    unfolding tree_ok_def
  proof (intro conjI allI impI ms)
    fix p m c assume p: "\<not> under kApexRoot p" "map_of (fs w') p = Some (Reg m c)"
    with fl t have "map_of (fs w) (slash p kManifestFilename) = None" unfolding tree_ok_def by blast
    with fl [OF off_apex_manifest [OF p(1)]] show "map_of (fs w') (slash p kManifestFilename) = None"
      by (metis not_None_eq)
  qed
  have src: "package_source E w p a" if p: "\<not> under kApexRoot p" and s: "package_source E w' p a" for p a
  proof -
    have "node_at w' q = Some n \<Longrightarrow> node_at w q = Some n" if "\<not> under kApexRoot q" for q n
      using fl [OF that] off_apex_node [OF t that] off_apex_node [OF t' that] by simp
    note this [OF p] this [OF off_apex_manifest [OF p]]
    with s show ?thesis unfolding package_source_def by (auto split: if_splits)
  qed
  have "entry_ok E w' d" if "entry_ok E w d" "mount_over w' (mount_point d) = mount_over w (mount_point d)" for d
    using that src by (auto simp: entry_ok_def list_dir_def)
  with f inv db t' show ?thesis
    unfolding faithful_db_def files_distinct_def points_distinct_def by meson
qed

lemma faithful_asks: "faithful_db E w \<Longrightarrow> asks w w' \<Longrightarrow> faithful_db E w'"
  by (rule faithful_less) (auto simp: asks_fields faithful_db_def tree_ok_def)

lemma faithful_remove:
  assumes "faithful_db E w"
  shows "faithful_db E (w\<lparr>gMountedApexes := RemoveMountedApex p path (gMountedApexes w)\<rparr>)"
proof -
  have inv: "db_inv (gMountedApexes w)" using assms by (simp add: faithful_db_def)
  show ?thesis
    using assms RemoveMountedApex_spec [OF inv, of p path]
    by (intro faithful_less [OF assms])
      (auto simp: faithful_db_def tree_ok_def mount_over_def split: option.splits if_splits)
qed

text \<open>Steps at a mount point that is not the one of an image in the database.\<close>

lemma faithful_at:
  assumes f: "faithful_db E w" and at: "at_mount t w w'" and t: "under kApexRoot t"
    and free: "\<And>p d. mounted (gMountedApexes w) p d \<noteq> None \<Longrightarrow> \<not> under t (mount_point d)"
  shows "faithful_db E w'"
proof (rule faithful_less [OF f])
  have "(t', img) \<in> set (mnts w) \<or> t' = t" if "(t', img) \<in> set (mnts w')" for t' img
  proof (cases "t' = t")
    case False
    with that have "(t', img) \<in> set (filter (\<lambda>(t', _). t' \<noteq> t) (mnts w'))" by simp
    also have "filter (\<lambda>(t', _). t' \<noteq> t) (mnts w') = filter (\<lambda>(t', _). t' \<noteq> t) (mnts w)"
      using at unfolding at_mount_def by blast
    finally show ?thesis by simp
  qed simp
  with f t show "\<forall>(t, _) \<in> set (mnts w'). under kApexRoot t"
    by (fastforce simp: faithful_db_def tree_ok_def)
  show "map_of (fs w) p = Some n" if "\<not> under kApexRoot p" "map_of (fs w') p = Some n" for p n
  proof -
    have "p \<noteq> t" using that(1) t by blast
    from at_mount_lookup [OF at this] that(2) show ?thesis by simp
  qed
qed (use f at_mount_state [OF at] at_mount_over [OF at free] in \<open>simp_all add: faithful_db_def\<close>)


lemma points_off:
  assumes "faithful_db E w" and "mounted (gMountedApexes w) p d \<noteq> None" and "plain m"
  shows "\<not> under (GetActiveMountPoint m) (mount_point d)"
    and "mount_point d \<noteq> GetPackageMountPoint m \<Longrightarrow> \<not> under (GetPackageMountPoint m) (mount_point d)"
proof -
  from assms(1,2) obtain m' where m': "plain m'" "mount_point d = GetPackageMountPoint m'"
    unfolding faithful_db_def entry_ok_def by blast
  show "\<not> under (GetActiveMountPoint m) (mount_point d)"
    using points_apart(2) [OF m'(1) assms(3)] m'(2) by simp
  show "mount_point d \<noteq> GetPackageMountPoint m \<Longrightarrow> \<not> under (GetPackageMountPoint m) (mount_point d)"
    using points_apart(1) [OF m'(1)] m'(2) by metis
qed

lemma active_point_root: "under kApexRoot (GetActiveMountPoint m)"
  by (simp add: GetActiveMountPoint_def under_def)

lemma faithful_active:
  assumes "faithful_db E w" and "plain m" and "at_mount (GetActiveMountPoint m) w w'"
  shows "faithful_db E w'"
  using faithful_at [OF assms(1,3) active_point_root] points_off(1) [OF assms(1) _ assms(2)] by blast

section \<open>Unmounting\<close>

text \<open>Once an image is out of the database, its mount point is free to change.\<close>

lemma faithful_unmount:
  assumes f: "faithful_db E w" and d: "mounted (gMountedApexes w) p d \<noteq> None"
    and w1: "w1 = w\<lparr>gMountedApexes := RemoveMountedApex p (full_path d) (gMountedApexes w)\<rparr>"
    and u: "Unmount E d w1 = (r, w')"
  shows "faithful_db E w'"
proof -
  have inv: "db_inv (gMountedApexes w)" "files_distinct (gMountedApexes w)"
    using f by (simp_all add: faithful_db_def)
  note f1 = faithful_remove [OF f, of p "full_path d", folded w1]
  from f d obtain m where m: "plain m" "mount_point d = GetPackageMountPoint m"
    unfolding faithful_db_def entry_ok_def by blast
  show ?thesis
  proof (rule faithful_at [OF f1 Unmount_at [OF u]])
    show "under kApexRoot (mount_point d)" by (simp add: m(2) package_mount_under)
    fix q e assume e: "mounted (gMountedApexes w1) q e \<noteq> None"
    then have "mounted (gMountedApexes w) q e \<noteq> None" "q \<noteq> p \<or> e \<noteq> d"
      using remove_mounted [OF inv d] by (auto simp: w1 split: if_splits)
    with f d have "mount_point e \<noteq> mount_point d" unfolding faithful_db_def points_distinct_def by metis
    with points_off(2) [OF f1 e m(1)] m(2) show "\<not> under (mount_point d) (mount_point e)" by simp
  qed
qed

lemma faithful_dangling:
  assumes f: "faithful_db E w" and d: "mounted (gMountedApexes w) p d \<noteq> None"
  shows "faithful_db E (unmount_dangling E p d w)"
proof -
  define w1 where "w1 = w\<lparr>gMountedApexes := RemoveMountedApex p (full_path d) (gMountedApexes w)\<rparr>"
  obtain r w2 where u: "Unmount E d w1 = (r, w2)" by (cases "Unmount E d w1")
  note f2 = faithful_unmount [OF f d w1_def u]
  have "faithful_db E (snd (sys_unlink E q w2))" for q
    using f2 only_fs_state [OF sys_unlink_frame [of q w2 E]]
    by (intro faithful_less [OF f2])
      (auto simp: faithful_db_def tree_ok_def mount_over_def sys_unlink_def fs_call_def unlink_eff_def
        AList.delete_conv' split: option.splits sum.splits if_splits)
  with f2 u show ?thesis by (simp add: unmount_dangling_def Let_def w1_def [symmetric])
qed

lemma faithful_unmount_each:
  assumes "faithful_db E w" "distinct ds" "\<forall>(p, d) \<in> set ds. mounted (gMountedApexes w) p d \<noteq> None"
  shows "faithful_db E (unmount_each E ds w)"
  using assms
proof (induction ds arbitrary: w)
  case (Cons x ds)
  obtain q e where x: "x = (q, e)" by (cases x)
  have e: "mounted (gMountedApexes w) q e \<noteq> None" using Cons.prems(3) x by simp
  have "db_inv (gMountedApexes w)" "files_distinct (gMountedApexes w)"
    using Cons.prems(1) by (simp_all add: faithful_db_def)
  note rm = remove_mounted [OF this e]
  have "\<forall>(p, d) \<in> set ds. mounted (gMountedApexes (unmount_dangling E q e w)) p d \<noteq> None"
    using Cons.prems(2,3) x by (auto simp: unmount_dangling_db rm)
  with Cons.IH [OF faithful_dangling [OF Cons.prems(1) e]] Cons.prems(2) x show ?case by simp
qed simp


lemma faithful_unmountDangling: "faithful_db E w \<Longrightarrow> faithful_db E (unmountDanglingMounts E w)"
proof -
  assume f: "faithful_db E w"
  then have inv: "db_inv (gMountedApexes w)" by (simp add: faithful_db_def)
  show ?thesis
    unfolding unmountDanglingMounts_def
    by (rule faithful_unmount_each [OF f danglings_distinct [OF inv]]) (auto simp: danglings_mem [OF inv])
qed

lemma faithful_UnmountPackage:
  assumes f: "faithful_db E w" and a: "plain (GetManifest a)" and run: "UnmountPackage E a al w = (r, w')"
  shows "faithful_db E w'"
proof -
  let ?m = "GetManifest a"
  let ?mp = "GetActiveMountPoint ?m"
  show ?thesis
  proof (cases "find_mounted (gMountedApexes w) (manifest_name ?m) (GetPath a)")
    case None
    with f run show ?thesis by (simp add: UnmountPackage_def)
  next
    case (Some dl)
    obtain d l where dl: "dl = (d, l)" by (cases dl)
    from find_mounted_in(1) [OF Some [unfolded dl]] have d: "full_path d = GetPath a"
      "mounted (gMountedApexes w) (manifest_name ?m) d \<noteq> None" using mounted_in by auto
    obtain r1 w1 where u: "(if l then sys_umount E ?mp w else (Inr (), w)) = (r1, w1)" by fastforce
    define w2 where "w2 = (if l then snd (sys_rmdir E ?mp w1) else w1)"
    define w3 where "w3 = w2\<lparr>gMountedApexes := RemoveMountedApex (manifest_name ?m) (full_path d) (gMountedApexes w2)\<rparr>"
    obtain r4 w4 where v: "Unmount E d w3 = (r4, w4)" by (cases "Unmount E d w3")
    have at1: "at_mount ?mp w w1" using u by (auto split: if_splits intro: sys_umount_at)
    have at2: "at_mount ?mp w w2"
      using at_mount_trans [OF at1] sys_rmdir_at [OF prod.collapse [symmetric]] at1 by (simp add: w2_def)
    have f2: "faithful_db E w1" "faithful_db E w2"
      using faithful_active [OF f a at1] faithful_active [OF f a at2] by simp_all
    have "mounted (gMountedApexes w2) (manifest_name ?m) d \<noteq> None"
      using d(2) at_mount_state [OF at2] by simp
    note f4 = faithful_unmount [OF f2(2) this w3_def v]
    show ?thesis
    proof (cases "(l \<and> \<not> al) \<or> \<not> Ok r1")
      case True
      with run Some dl u have "w' = w \<or> w' = w1"
        by (cases r1) (auto simp: UnmountPackage_def Let_def split: if_splits)
      with f f2 show ?thesis by blast
    next
      case False
      then obtain x where "r1 = Inr x" by (auto simp: Ok_iff)
      with False run Some dl u v [unfolded w3_def w2_def d(1)] have "w' = w4"
        by (auto simp: UnmountPackage_def Let_def)
      with f4 show ?thesis by simp
    qed
  qed
qed

section \<open>Mounting\<close>

lemma mount_steps:
  assumes "MountPackageImpl E a mp dm vi w = (r, w')"
  shows "(\<exists>e. r = Inl e) \<and> only_fs (\<lambda>p. p = mp) w w' \<or>
    (\<exists>w3 w4. only_fs (\<lambda>p. p = mp) w w3 \<and> list_dir w3 mp = [] \<and>
       (if IsFlattened a then mountFlattened E a mp w3 else mountNonFlattened E a mp dm vi w3) = (r, w4) \<and>
       w' = (if Ok r then w4 else snd (sys_rmdir E mp w4)))"
proof -
  obtain ex w1 where p: "PathExists E mp w = (ex, w1)" by (cases "PathExists E mp w")
  have o1: "only_fs (\<lambda>p. p = mp) w w1" by (rule asks_only_fs [OF PathExists_asks [OF p]])
  show ?thesis
  proof (cases ex)
    case (Inl e)
    with assms p o1 show ?thesis by (intro disjI1) (auto simp: MountPackageImpl_def)
  next
    case (Inr b)
    obtain made w2 where mk: "(if b then (Inr (), w1) else sys_mkdir E mp kMkdirMode w1) = (made, w2)"
      by fastforce
    have "only_fs (\<lambda>p. p = mp) w1 w2"
      using mk sys_mkdir_frame [of mp w1 E kMkdirMode] by (auto split: if_splits intro: only_fs_refl)
    note o2 = only_fs_chain [OF o1 this]
    obtain em w3 where e: "IsEmptyDirectory E mp w2 = (em, w3)" by (cases "IsEmptyDirectory E mp w2")
    note o3 = only_fs_chain [OF o2 asks_only_fs [OF IsEmptyDirectory_asks [OF e]]]
    have o4: "only_fs (\<lambda>p. p = mp) w (snd (sys_rmdir E mp w3))"
      by (rule only_fs_chain [OF o3 sys_rmdir_frame])
    have "list_dir w3 mp = []" if "em"
      using IsEmptyDirectory_True [of E mp w2 w3] e that asks_fields(4) [OF IsEmptyDirectory_asks [OF e]] by simp
    with assms p Inr mk e o2 o3 o4 show ?thesis
      by (cases made; cases em) (auto simp: MountPackageImpl_def Let_def split: prod.splits if_splits)
  qed
qed

text \<open>A mount point that shows something is not mounted over.\<close>

lemma mount_occupied:
  assumes run: "MountPackageImpl E a mp dm vi w = (r, w')"
    and m: "mount_over w mp \<noteq> None" "list_dir w mp \<noteq> []"
  shows "(\<exists>e. r = Inl e) \<and> mnts w' = mnts w"
proof -
  have "list_dir w3 mp \<noteq> []" if "only_fs (\<lambda>p. p = mp) w w3" for w3
    using m mount_over_cong [of w3 w] only_fs_state [OF that] by (auto simp: list_dir_def split: option.splits)
  with mount_steps [OF run] show ?thesis using only_fs_state by blast
qed

text \<open>What is mounted with success shows at least its manifest.\<close>

lemma shows_manifest:
  assumes "mnts w = (mp, img) # ms" and "map_of img (''/'' @ kManifestFilename) \<noteq> None"
  shows "mount_over w mp = Some (mp, img)" and "list_dir w mp \<noteq> []"
proof -
  show m: "mount_over w mp = Some (mp, img)" by (simp add: mount_over_def assms(1))
  have "''/'' @ kManifestFilename \<in> fst ` set img" using assms(2) by (simp add: map_of_eq_None_iff)
  moreover have "dirname (''/'' @ kManifestFilename) = ''''"
    using dirname_slash [of kManifestFilename "''''"] by (simp add: kManifestFilename_def)
  ultimately show "list_dir w mp \<noteq> []" by (force simp: list_dir_def m filter_empty_conv)
qed

lemma mount_shown:
  assumes run: "MountPackageImpl E a mp dm vi w = (Inr d, w')"
    and t: "tree_ok w" "\<not> under kApexRoot (GetPath a)" "under kApexRoot mp"
    and src: "package_source E w (GetPath a) a"
  shows "mount_point d = mp" "full_path d = GetPath a"
    "\<exists>img. mount_over w' mp = Some (mp, img)" "list_dir w' mp \<noteq> []"
proof -
  have "mount_point d = mp \<and> full_path d = GetPath a \<and>
    (\<exists>img. mnts w' = (mp, img) # mnts w \<and> map_of img (''/'' @ kManifestFilename) \<noteq> None)"
  proof (cases "IsFlattened a")
    case False
    with MountPackageImpl_spec [OF run] obtain loop w1 where
      d: "d = MountedApexData loop (GetPath a) mp dm" and o: "only_fs (\<lambda>p. p = mp) w w1"
      and l: "loop_backed E w1 w' a mp dm vi loop" by (auto simp: mount_result_def)
    from l obtain img w4 w5 where "mnts w' = (mp, img) # mnts w1"
      "VerifyMountedImage E a mp w4 = (Success, w5)" "mnts w4 = (mp, img) # mnts w1"
      unfolding loop_backed_def image_mounted_def by blast
    with VerifyMountedImage_manifest only_fs_state [OF o] d show ?thesis by fastforce
  next
    case True
    with mount_steps [OF run] obtain w3 where o: "only_fs (\<lambda>p. p = mp) w w3"
      and m: "mountFlattened E a mp w3 = (Inr d, w')" by auto
    note s = mountFlattened_spec [OF m]
    have ne: "mp \<noteq> GetPath a" "mp \<noteq> slash (GetPath a) kManifestFilename"
      using t(2,3) off_apex_manifest [OF t(2)] by auto
    have h: "mount_over w3 (GetPath a) = None"
      using off_apex_host [OF t(1,2)] mount_over_cong [of w3 w] only_fs_state [OF o] by simp
    have "map_of (fs w) (slash (GetPath a) kManifestFilename) \<noteq> None"
      using src True off_apex_node [OF t(1) off_apex_manifest [OF t(2)]] by (auto simp: package_source_def)
    then have "map_of (fs w3) (slash (GetPath a) kManifestFilename) \<noteq> None"
      using only_fs_lookup [OF o, of "slash (GetPath a) kManifestFilename"] ne by simp
    moreover have "map_of (subtree w3 (GetPath a)) = lookup_below (GetPath a) (map_of (fs w3))"
      by (simp add: subtree_def h subtree_lookup)
    ultimately have "map_of (subtree w3 (GetPath a)) (''/'' @ kManifestFilename) \<noteq> None"
      by (simp add: under_def)
    with s only_fs_state [OF o] show ?thesis by auto
  qed
  then show "mount_point d = mp" "full_path d = GetPath a"
    "\<exists>img. mount_over w' mp = Some (mp, img)" "list_dir w' mp \<noteq> []"
    using shows_manifest by blast+
qed


text \<open>The image that was mounted is entered into the database.\<close>

lemma faithful_MountPackage:
  assumes f: "faithful_db E w" and run: "MountPackage E a (GetPackageMountPoint (GetManifest a)) w = Some (r, w')"
    and src: "package_source E w (GetPath a) a" and a: "plain (GetManifest a)"
    and off: "\<not> under kApexRoot (GetPath a)"
  shows "faithful_db E w'"
proof -
  let ?m = "GetManifest a"
  let ?mp = "GetPackageMountPoint ?m"
  have t: "tree_ok w" and inv: "db_inv (gMountedApexes w)" using f by (simp_all add: faithful_db_def)
  obtain ret w1 where m: "MountPackageImpl E a ?mp (GetPackageId ?m) False w = (ret, w1)"
    by (cases "MountPackageImpl E a ?mp (GetPackageId ?m) False w")
  note at = MountPackageImpl_at [OF m]
  have db1: "gMountedApexes w1 = gMountedApexes w" using at_mount_state [OF at] by simp
  have entry: "entry_ok E w e" if "mounted (gMountedApexes w) q e \<noteq> None" for q e
    using f that by (simp add: faithful_db_def)
  show ?thesis
  proof (cases "\<exists>q e. mounted (gMountedApexes w) q e \<noteq> None \<and> mount_point e = ?mp")
    case True
    then obtain q e where e: "mounted (gMountedApexes w) q e \<noteq> None" "mount_point e = ?mp" by blast
    from entry [OF e(1)] e(2) have "mount_over w ?mp \<noteq> None" "list_dir w ?mp \<noteq> []" by (auto simp: entry_ok_def)
    note o = mount_occupied [OF m this]
    have "map_of (fs w1) p = map_of (fs w) p" if "\<not> under kApexRoot p" for p
      using at_mount_lookup [OF at, of p] that package_mount_under(1) by metis
    then have "faithful_db E w1"
      using f t o db1 mount_over_cong [of w1 w]
      by (intro faithful_less [OF f]) (auto simp: faithful_db_def tree_ok_def)
    with run m o show ?thesis by (auto simp: MountPackage_def)
  next
    case False
    then have free: "\<And>q e. mounted (gMountedApexes w) q e \<noteq> None \<Longrightarrow> mount_point e \<noteq> ?mp" by blast
    have f1: "faithful_db E w1"
      using faithful_at [OF f at package_mount_under(1)] points_off(2) [OF f _ a] free by blast
    show ?thesis
    proof (cases ret)
      case (Inl e)
      with run m f1 show ?thesis by (simp add: MountPackage_def)
    next
      case (Inr d)
      with run m db1 obtain db' where w': "w' = w1\<lparr>gMountedApexes := db'\<rparr>"
        and add: "AddMountedApex (manifest_name ?m) False d (gMountedApexes w) = Some db'"
        by (auto simp: MountPackage_def split: option.splits)
      note ad = AddMountedApex_SomeD [OF add inv]
      note sh = mount_shown [OF m [unfolded Inr] t off package_mount_under(1) src]
      have t1: "tree_ok w1" using f1 by (simp add: faithful_db_def)
      have src1: "package_source E w1 (GetPath a) b \<Longrightarrow> GetManifest b = ?m" for b
      proof -
        assume s: "package_source E w1 (GetPath a) b"
        have "map_of (fs w1) q = map_of (fs w) q" if "\<not> under kApexRoot q" for q
          using at_mount_lookup [OF at, of q] that package_mount_under(1) by metis
        then have n: "node_at w1 q = node_at w q" if "\<not> under kApexRoot q" for q
          using off_apex_node [OF t that] off_apex_node [OF t1 that] that by simp
        from s have "package_source E w (GetPath a) b"
          unfolding package_source_def n [OF off] n [OF off_apex_manifest [OF off]] .
        from source_unique [OF t off this src] show ?thesis .
      qed
      have d_ok: "entry_ok E w1 d"
        unfolding entry_ok_def using a sh off src1 by auto
      have over: "mount_over w' = mount_over w1" by (simp add: mount_over_def w' fun_eq_iff)
      then have "node_at w' = node_at w1" "list_dir w' = list_dir w1"
        by (simp_all add: node_at_def list_dir_def w' fun_eq_iff cong: option.case_cong)
      with over have same: "entry_ok E w' = entry_ok E w1" "tree_ok w' = tree_ok w1"
        unfolding entry_ok_def tree_ok_def package_source_def by (simp_all only: w' fun_eq_iff, simp_all)
      have fresh: "full_path e \<noteq> full_path d" if "mounted (gMountedApexes w) q e \<noteq> None" for q e
      proof
        assume "full_path e = full_path d"
        with entry [OF that] src sh(2) have "mount_point e = ?mp" by (auto simp: entry_ok_def)
        with free [OF that] show False by simp
      qed
      have mem: "mounted db' q e \<noteq> None \<longleftrightarrow> mounted (gMountedApexes w) q e \<noteq> None \<or> q = manifest_name ?m \<and> e = d" for q e
        by (simp add: ad(3) del: not_None_eq)
      have "files_distinct db'"
        unfolding files_distinct_def mem
        using f fresh unfolding faithful_db_def files_distinct_def by metis
      moreover have "points_distinct db'"
        unfolding points_distinct_def mem
        using f free sh(1) unfolding faithful_db_def points_distinct_def by metis
      moreover have "entry_ok E w1 e" if "mounted db' q e \<noteq> None" for q e
        using that d_ok f1 unfolding mem faithful_db_def db1 by blast
      ultimately show ?thesis
        using ad(1) t1 by (simp add: faithful_db_def same) (simp add: w')
    qed
  qed
qed

section \<open>Activation\<close>

lemma faithful_show_latest:
  assumes f: "faithful_db E w" and a: "plain (GetManifest a)" and run: "show_latest E a mp w = Some (r, w')"
  shows "faithful_db E w'"
proof -
  let ?m = "GetManifest a"
  obtain st w1 where b: "BindMount E (GetActiveMountPoint ?m) mp w = (st, w1)"
    by (cases "BindMount E (GetActiveMountPoint ?m) mp w")
  note f1 = faithful_active [OF f a BindMount_at [OF b]]
  show ?thesis
  proof (cases st)
    case (Inl e)
    with run b f1 show ?thesis by (simp add: show_latest_def)
  next
    case (Inr u)
    with run b obtain db' where s: "SetLatest (manifest_name ?m) (GetPath a) (gMountedApexes w1) = Some db'"
      and w': "w' = w1\<lparr>gMountedApexes := db'\<rparr>" by (auto simp: show_latest_def split: option.splits)
    have inv: "db_inv (gMountedApexes w1)" using f1 by (simp add: faithful_db_def)
    show ?thesis
      using f1 mdb.latest_law [OF inv s] mdb.latest_dom [OF inv s]
      by (intro faithful_less [OF f1]) (auto simp: w' mount_over_def faithful_db_def tree_ok_def)
  qed
qed

lemma faithful_activateImpl:
  assumes f: "faithful_db E w" and run: "activatePackageImpl E a w = Some (r, w')"
    and src: "package_source E w (GetPath a) a" and a: "plain (GetManifest a)"
    and off: "\<not> under kApexRoot (GetPath a)"
  shows "faithful_db E w'"
proof -
  let ?m = "GetManifest a"
  obtain n mv av w1 where c: "compare_versions E (manifest_version ?m)
      (ForallMountedApexes (gMountedApexes w) (manifest_name ?m)) True False False w = (n, mv, av, w1)"
    by (rule prod_cases4)
  note as = compare_versions_asks [OF c]
  note f1 = faithful_asks [OF f as]
  have src1: "package_source E w1 (GetPath a) a" using src package_source_asks [OF as] by simp
  show ?thesis
  proof (cases "w' = w \<or> w' = w1")
    case True
    with f f1 show ?thesis by blast
  next
    case False
    with run c obtain r2 w2 where
      m: "(if mv then Some (Success, w1) else MountPackage E a (GetPackageMountPoint ?m) w1) = Some (r2, w2)"
      and l: "w' = w2 \<or> show_latest E a (GetPackageMountPoint ?m) w2 = Some (r, w')"
      by (auto simp: activatePackageImpl_def Let_def split: if_splits option.splits sum.splits)
    have f2: "faithful_db E w2"
      using m f1 faithful_MountPackage [OF f1 _ src1 a off] by (auto split: if_splits)
    with l faithful_show_latest [OF f2 a] show ?thesis by blast
  qed
qed


lemma opened_package:
  assumes "plain_names E" and o: "Open E p w = (Inr a, w1)"
  shows "asks w w1" "package_source E w1 (GetPath a) a" "plain (GetManifest a)" "GetPath a = p"
proof -
  show as: "asks w w1" by (rule Open_asks [OF o])
  show p: "GetPath a = p" by (rule Open_Inr(1) [OF o])
  note s = Open_source [OF o]
  from s show "package_source E w1 (GetPath a) a" by (simp add: package_source_asks [OF as] p)
  show "plain (GetManifest a)" by (rule source_plain [OF assms(1) s])
qed

lemma faithful_activatePackage:
  assumes n: "plain_names E" and f: "faithful_db E w" and off: "\<not> under kApexRoot p"
    and run: "activatePackage E p w = Some (r, w')"
  shows "faithful_db E w'"
proof -
  obtain x w1 where o: "Open E p w = (x, w1)" by (cases "Open E p w")
  note f1 = faithful_asks [OF f Open_asks [OF o]]
  show ?thesis
  proof (cases x)
    case (Inl e)
    with run o f1 show ?thesis by (simp add: activatePackage_def)
  next
    case (Inr a)
    note op = opened_package [OF n o [unfolded Inr]]
    from run o Inr have "activatePackageImpl E a w1 = Some (r, w')" by (simp add: activatePackage_def)
    from faithful_activateImpl [OF f1 this op(2,3)] op(4) off show ?thesis by simp
  qed
qed

lemma faithful_deactivatePackage:
  assumes n: "plain_names E" and f: "faithful_db E w" and run: "deactivatePackage E p w = (r, w')"
  shows "faithful_db E w'"
proof -
  obtain x w1 where o: "Open E p w = (x, w1)" by (cases "Open E p w")
  note f1 = faithful_asks [OF f Open_asks [OF o]]
  show ?thesis
  proof (cases x)
    case (Inl e)
    with run o f1 show ?thesis by (simp add: deactivatePackage_def)
  next
    case (Inr a)
    from run o Inr have "UnmountPackage E a True w1 = (r, w')" by (simp add: deactivatePackage_def)
    with faithful_UnmountPackage [OF f1 opened_package(3) [OF n o [unfolded Inr]]] show ?thesis by blast
  qed
qed

section \<open>Scanning directories\<close>

lemma faithful_activate_each:
  assumes n: "plain_names E" and f: "faithful_db E w" and off: "\<forall>p \<in> set ps. \<not> under kApexRoot p"
    and run: "activate_each E code ps failed w = Some (r, w')"
  shows "faithful_db E w'"
  using f off run
proof (induction ps arbitrary: failed w)
  case (Cons p ps)
  from Cons.prems(3) obtain b w1 where one: "activate_one E code p w = Some (b, w1)"
    and rest: "\<exists>failed. activate_each E code ps failed w1 = Some (r, w')"
    by (auto split: option.splits prod.splits bool.splits)
  obtain x w0 where o: "Open E p w = (x, w0)" by (cases "Open E p w")
  note f0 = faithful_asks [OF Cons.prems(1) Open_asks [OF o]]
  have "faithful_db E w1"
  proof (cases x)
    case (Inl e)
    with one o f0 show ?thesis by (simp add: activate_one_def)
  next
    case (Inr a)
    note op = opened_package [OF n o [unfolded Inr]]
    from one o Inr have "w1 = w0 \<or> (\<exists>res. activatePackageImpl E a w0 = Some (res, w1))"
      by (auto simp: activate_one_def Let_def split: if_splits option.splits)
    with faithful_activateImpl [OF f0 _ op(2,3)] op(4) f0 Cons.prems(2) show ?thesis by auto
  qed
  with Cons.IH rest Cons.prems(2) show ?case by auto
qed simp

lemma faithful_scan:
  assumes n: "plain_names E" and f: "faithful_db E w"
    and d: "\<not> under kApexRoot d" "\<not> under d kApexRoot" "d \<noteq> ''''"
    and run: "scanPackagesDirAndActivate E d w = Some (r, w')"
  shows "faithful_db E w'"
proof -
  obtain s w1 where s: "FindApexFilesByName E d (isPathForBuiltinApexes d) w = (s, w1)"
    by (cases "FindApexFilesByName E d (isPathForBuiltinApexes d) w")
  note f1 = faithful_asks [OF f FindApexFilesByName_asks [OF s]]
  show ?thesis
  proof (cases s)
    case (Inl e)
    with run s f1 show ?thesis by (simp add: scanPackagesDirAndActivate_def)
  next
    case (Inr ps)
    obtain code w2 where c: "GetActivePackagesMap E w1 = (code, w2)" by (cases "GetActivePackagesMap E w1")
    note f2 = faithful_asks [OF f1 GetActivePackagesMap_asks [OF c]]
    have host: "mount_over w d = None" using f off_apex_host d(1) by (simp add: faithful_db_def)
    have "\<not> under kApexRoot p" if "p \<in> set ps" for p
    proof -
      from that FindApexFilesByName_Inr [OF s [unfolded Inr]] have "p \<in> set (list_dir w d)" by simp
      then have "under d p" using set_list_dir [OF host] child_under [OF d(3)] by simp
      with under_comparable [of d p kApexRoot] d(1,2) show ?thesis by blast
    qed
    moreover from run s Inr c obtain failed where "activate_each E code ps [] w2 = Some (failed, w')"
      by (auto simp: scanPackagesDirAndActivate_def split: option.splits)
    ultimately show ?thesis using faithful_activate_each [OF n f2] by blast
  qed
qed

lemma system_dir_apart: "\<not> under kApexRoot kApexPackageSystemDir" "\<not> under kApexPackageSystemDir kApexRoot"
  "kApexPackageSystemDir \<noteq> ''''"
  by (simp_all add: under_def kApexRoot_def kApexPackageSystemDir_def)

lemma faithful_start:
  "tree_ok w \<Longrightarrow> gMountedApexes w' = [] \<Longrightarrow> fs w' = fs w \<Longrightarrow> set (mnts w') \<subseteq> set (mnts w) \<Longrightarrow> faithful_db E w'"
  by (auto simp: faithful_db_def tree_ok_def files_distinct_def points_distinct_def mounted_def)

lemma faithful_onBootstrap:
  assumes n: "plain_names E" and f: "faithful_db E w" and run: "onBootstrap E w = Some (r, w')"
  shows "faithful_db E w'"
proof -
  have "faithful_db E (w\<lparr>gBootstrap := True\<rparr>)"
    using f by (intro faithful_less [OF f]) (auto simp: faithful_db_def tree_ok_def mount_over_def)
  moreover from run obtain x w1 where p: "preAllocateLoopDevices E (w\<lparr>gBootstrap := True\<rparr>) = Some (x, w1)"
    by (auto simp: onBootstrap_def split: option.splits)
  ultimately have f1: "faithful_db E w1" using faithful_asks [OF _ preAllocateLoopDevices_asks [OF p]] by blast
  obtain y w2 where c: "collectApexKeys E w1 = (y, w2)" by (cases "collectApexKeys E w1")
  have "asks (w1\<lparr>gScannedApexKeys := gScannedApexKeys w2\<rparr>) w2"
    using collect_dirs_frame [OF c [unfolded collectApexKeys_def]] by blast
  note eq = asks_fields(1,2,7) [OF this]
  have f2: "faithful_db E w2"
    using f1 eq by (intro faithful_less [OF f1]) (auto simp: faithful_db_def tree_ok_def mount_over_def)
  from run p c have "w' = w2 \<or> (\<exists>r. scanPackagesDirAndActivate E kApexPackageSystemDir w2 = Some (r, w'))"
    by (auto simp: onBootstrap_def split: if_splits option.splits)
  with f2 faithful_scan [OF n f2 system_dir_apart] show ?thesis by blast
qed

section \<open>Requests\<close>

text \<open>What mounts and unmounts packages without a session: files below \<open>/apex\<close> are no packages.\<close>

definition mounting :: "request \<Rightarrow> bool" where
  "mounting req = (case req of Activate p \<Rightarrow> \<not> under kApexRoot p | Deactivate _ \<Rightarrow> True
     | Bootstrap \<Rightarrow> True | BootCompleted \<Rightarrow> True | DeviceRestart \<Rightarrow> True | _ \<Rightarrow> False)"

interpretation faithful: simulation plain_names mounting faithful_db "\<lambda>_ _. ()" perform "\<lambda>_ _. False"
proof unfold_locales
  fix E req w w'
  assume n: "plain_names E" and m: "mounting req" and f: "faithful_db E w" and run: "perform E req w = Some w'"
  have start: "tree_ok w" using f by (simp add: faithful_db_def)
  have "faithful_db E w'"
  proof (cases req)
    case Bootstrap
    have "faithful_db E (new_process w)" by (rule faithful_start [OF start]) (simp_all add: new_process_def)
    with faithful_onBootstrap [OF n] run Bootstrap show ?thesis by auto
  next
    case DeviceRestart
    with run faithful_start [OF start] show ?thesis by (auto simp: restart_def new_process_def)
  qed (use m run n f in \<open>auto simp: mounting_def intro: faithful_activatePackage faithful_unmountDangling
      faithful_deactivatePackage [OF _ _ prod.collapse [symmetric]]\<close>)
  then show "faithful_db E w' \<and> (\<lambda>_ _. False)\<^sup>*\<^sup>* () ()" by simp
qed


text \<open>C5. While packages are activated, deactivated and cleaned up, over restarts of the daemon's
  bootstrap phase and of the device and whatever calls fail, each image in the database has a
  mount point of its own, at which an image that is not empty is mounted and not covered by
  another mount. The hypotheses are that names of packages have no \<open>/\<close> and no \<open>@\<close>, that no
  package is taken from below \<open>/apex\<close>, and that no file is at first below a regular file.
\<close>

theorem database_matches_mounts:
  assumes "plain_names E" and "list_all mounting requests"
    and "\<forall>p m c. map_of (fs w0) p = Some (Reg m c) \<longrightarrow> map_of (fs w0) (slash p kManifestFilename) = None"
    and "run_all (perform E) requests (restart w0) = Some w"
  shows "(\<forall>p d. mounted (gMountedApexes w) p d \<noteq> None \<longrightarrow>
      (\<exists>img. mount_over w (mount_point d) = Some (mount_point d, img)) \<and> list_dir w (mount_point d) \<noteq> []) \<and>
    (\<forall>p d q e. mounted (gMountedApexes w) p d \<noteq> None \<and> mounted (gMountedApexes w) q e \<noteq> None \<and>
      mount_point d = mount_point e \<longrightarrow> p = q \<and> d = e)"
proof -
  have "tree_ok (restart w0)" using assms(3) by (simp add: tree_ok_def restart_def new_process_def)
  then have "faithful_db E (restart w0)"
    by (rule faithful_start) (simp_all add: restart_def new_process_def)
  with faithful.run_simulates [OF assms(1,2) _ assms(4)] have "faithful_db E w" by blast
  then show ?thesis unfolding faithful_db_def entry_ok_def points_distinct_def by blast
qed

text \<open>Two versions of a flattened package on the system partition.\<close>

definition sample_plain_env :: env where
  "sample_plain_env = sample_env\<lparr>manifest_parse := (\<lambda>s. case sample_manifest s of
     Some m \<Rightarrow> if plain m then Some m else None | None \<Rightarrow> None)\<rparr>"

definition sample_versions :: world where
  "sample_versions = sample_world\<lparr>fs := [('''', Directory 493), (''/apex'', Directory 493),
     (''/system'', Directory 493), (''/system/apex'', Directory 493),
     (''/system/apex/a'', Directory 493), (''/system/apex/a/apex_manifest.json'', Reg 420 ''n;1;;''),
     (''/system/apex/b'', Directory 493), (''/system/apex/b/apex_manifest.json'', Reg 420 ''n;2;;'')]\<rparr>"

lemma sample_versions_run:
  "case run_all (perform sample_plain_env) [Activate ''/system/apex/a'', Activate ''/system/apex/b'', BootCompleted]
     (restart sample_versions) of
     Some w \<Rightarrow> gMountedApexes w = [(''n'', [(MountedApexData '''' ''/system/apex/b'' ''/apex/n@2'' '''', True)])]
   | None \<Rightarrow> False"
  by code_simp

theorem database_matches_mounts_witness:
  "\<exists>w img. run_all (perform sample_plain_env) [Activate ''/system/apex/a'', Activate ''/system/apex/b'', BootCompleted]
       (restart sample_versions) = Some w \<and> mount_over w ''/apex/n@2'' = Some (''/apex/n@2'', img)"
proof -
  obtain w where w: "run_all (perform sample_plain_env)
      [Activate ''/system/apex/a'', Activate ''/system/apex/b'', BootCompleted] (restart sample_versions) = Some w"
    "gMountedApexes w = [(''n'', [(MountedApexData '''' ''/system/apex/b'' ''/apex/n@2'' '''', True)])]"
    using sample_versions_run by (auto split: option.splits)
  have n: "plain_names sample_plain_env"
    by (simp add: plain_names_def sample_plain_env_def split: option.splits if_splits)
  have m: "list_all mounting [Activate ''/system/apex/a'', Activate ''/system/apex/b'', BootCompleted]" by code_simp
  have "\<forall>(p, n) \<in> set (fs sample_versions). is_dir n \<or> map_of (fs sample_versions) (slash p kManifestFilename) = None"
    by code_simp
  then have "\<forall>p m c. map_of (fs sample_versions) p = Some (Reg m c) \<longrightarrow>
      map_of (fs sample_versions) (slash p kManifestFilename) = None"
    by (fastforce dest: map_of_SomeD)
  from conjunct1 [OF database_matches_mounts [OF n m this w(1)]] w show ?thesis
    by (auto simp: mounted_def ForallMountedApexes_def split: if_splits)
qed


text \<open>
  That the latest image is also shown at the active mount point does not follow: when the new
  version cannot be bound there, the old one, which stays the latest, is no longer shown.
\<close>

lemma latest_not_shown:
  "case run_all (perform (sample_plain_env\<lparr>fault :=
       (\<lambda>_ ev. if ev = SysMount ''/apex/n@2'' ''/apex/n'' then Some EIO else None)\<rparr>))
     [Activate ''/system/apex/a'', Activate ''/system/apex/b''] (restart sample_versions) of
     Some w \<Rightarrow> mounted (gMountedApexes w) ''n'' (MountedApexData '''' ''/system/apex/a'' ''/apex/n@1'' '''') = Some True \<and>
       map fst (mnts w) = [''/apex/n@2'', ''/apex/n@1'']
   | None \<Rightarrow> False"
  by code_simp

end
