(* ===== verification/Hook_Props.thy ===== *)
theory Hook_Props
  imports Activate_Props
begin

text \<open>
  Installation hooks: when they run, and that the database is afterwards what it was.
\<close>

section \<open>Which package has a hook\<close>

definition hooked :: "(ApexManifest \<Rightarrow> string) \<Rightarrow> ApexFile list \<Rightarrow> nat list" where
  "hooked fn apexes = filter (\<lambda>i. fn (GetManifest (apexes ! i)) \<noteq> '''') [0..<length apexes]"

lemma find_hook_eq:
  "find_hook fn name as k hook_file =
     (case (hook_file, map (\<lambda>i. i + k) (hooked fn as)) of
        (h, []) \<Rightarrow> Inr h
      | (None, [i]) \<Rightarrow> Inr (Some i)
      | _ \<Rightarrow> Inl (ErrAt msg_multiple_hooks name))"
proof (induction "as" arbitrary: k hook_file)
  case (Cons a "as")
  have up: "[0..<length (a # as)] = 0 # map Suc [0..<length as]"
    by (simp add: map_Suc_upt upt_conv_Cons del: upt_Suc)
  have "hooked fn (a # as) = (if fn (GetManifest a) \<noteq> '''' then [0] else []) @ map Suc (hooked fn as)"
    unfolding hooked_def up by (simp add: filter_map comp_def)
  then show ?case
    using Cons.IH [of "Suc k" hook_file] Cons.IH [of "Suc k" "Some k"]
    by (cases hook_file; cases "hooked fn as") (auto simp: comp_def split: list.splits)
qed (simp add: hooked_def split: option.splits)

section \<open>The database while a hook runs\<close>

abbreviation pkg :: "ApexFile \<Rightarrow> string" where
  "pkg a \<equiv> manifest_name (GetManifest a)"

text \<open>
  \<open>tracked db0 ds db\<close>: the database holds what \<open>db0\<close> holds, and one image that is not the
  latest for each package of \<open>ds\<close>, whose file \<open>db0\<close> does not know.
\<close>

definition tracked :: "apex_db \<Rightarrow> (ApexFile \<times> MountedApexData) list \<Rightarrow> apex_db \<Rightarrow> bool" where
  "tracked db0 ds db \<longleftrightarrow> db_inv db \<and> distinct (map (\<lambda>(a, d). (pkg a, GetPath a)) ds) \<and>
     (\<forall>(a, d) \<in> set ds. full_path d = GetPath a \<and>
        (\<forall>e. mounted db0 (pkg a) e \<noteq> None \<longrightarrow> full_path e \<noteq> GetPath a)) \<and>
     (\<forall>p d. mounted db p d = (if \<exists>a. (a, d) \<in> set ds \<and> pkg a = p then Some False else mounted db0 p d))"

lemma tracked_known:
  assumes "tracked db0 ds db"
  shows "mounted db p d \<noteq> None \<longleftrightarrow> (\<exists>a. (a, d) \<in> set ds \<and> pkg a = p) \<or> mounted db0 p d \<noteq> None"
proof -
  have "mounted db p d = (if \<exists>a. (a, d) \<in> set ds \<and> pkg a = p then Some False else mounted db0 p d)"
    using assms unfolding tracked_def by blast
  then show ?thesis by (cases "\<exists>a. (a, d) \<in> set ds \<and> pkg a = p") auto
qed

lemma tracked_Nil: "db_inv db \<Longrightarrow> tracked db [] db"
  by (simp add: tracked_def)

lemma tracked_done: "tracked db0 [] db \<Longrightarrow> db_inv db \<and> mounted db = mounted db0"
  by (simp add: tracked_def fun_eq_iff)

lemma IsMounted_iff: "db_inv db \<Longrightarrow> IsMounted db p path \<longleftrightarrow> (\<exists>d. mounted db p d \<noteq> None \<and> full_path d = path)"
proof -
  assume "db_inv db"
  have "mounted db p d \<noteq> None \<longleftrightarrow> (\<exists>l. (d, l) \<in> set (ForallMountedApexes db p))" for d
    by (auto simp: mounted_def dest: map_of_SomeD mounted_in [unfolded mounted_def])
  then show ?thesis by (auto simp: IsMounted_def list_ex_iff)
qed

lemma tracked_add:
  assumes t: "tracked db0 ds db" and n: "\<not> IsMounted db (pkg a) (GetPath a)"
    and add: "AddMountedApex (pkg a) False d db = Some db'" and path: "full_path d = GetPath a"
  shows "tracked db0 (ds @ [(a, d)]) db'"
proof -
  have inv: "db_inv db" using t by (simp add: tracked_def)
  note ad = AddMountedApex_SomeD [OF add inv]
  have none: "mounted db (pkg a) e \<noteq> None \<Longrightarrow> full_path e \<noteq> GetPath a" for e
    using n IsMounted_iff [OF inv] by blast
  have m: "mounted db p e = (if \<exists>a. (a, e) \<in> set ds \<and> pkg a = p then Some False else mounted db0 p e)" for p e
    using t unfolding tracked_def by blast
  have paths: "full_path e = GetPath b" if "(b, e) \<in> set ds" for b e
    using t that unfolding tracked_def by blast
  have "(pkg a, GetPath a) \<notin> (\<lambda>(a, d). (pkg a, GetPath a)) ` set ds"
  proof clarify
    fix b e assume b: "(b, e) \<in> set ds" "pkg a = pkg b" "GetPath a = GetPath b"
    then have "mounted db (pkg a) e = Some False" using m [of "pkg a" e] by auto
    with none paths [OF b(1)] b(3) show False by auto
  qed
  then have "distinct (map (\<lambda>(a, d). (pkg a, GetPath a)) (ds @ [(a, d)]))"
    using t unfolding tracked_def by auto
  moreover have "mounted db0 (pkg a) e \<noteq> None \<longrightarrow> full_path e \<noteq> GetPath a" for e
    using none tracked_known [OF t] by blast
  moreover have "mounted db' p e = (if \<exists>b. (b, e) \<in> set (ds @ [(a, d)]) \<and> pkg b = p then Some False
      else mounted db0 p e)" for p e
    using m [of p e] by (auto simp: ad(3))
  ultimately show ?thesis using t ad(1) path unfolding tracked_def by auto
qed

lemma tracked_IsMounted:
  assumes "tracked db0 ds db" and "tracked db0 ds' db'" and "set ds \<subseteq> set ds'" and "IsMounted db p path"
  shows "IsMounted db' p path"
proof -
  have inv: "db_inv db" "db_inv db'" using assms(1,2) by (simp_all add: tracked_def)
  from assms(4) obtain d where "mounted db p d \<noteq> None" "full_path d = path" using IsMounted_iff [OF inv(1)] by blast
  moreover from this(1) have "mounted db' p d \<noteq> None"
    using tracked_known [OF assms(1)] tracked_known [OF assms(2)] assms(3) by blast
  ultimately show ?thesis using IsMounted_iff [OF inv(2)] by blast
qed

lemma tracked_in:
  assumes "tracked db0 ds db" and "(a, d) \<in> set ds"
  shows "IsMounted db (pkg a) (GetPath a)"
proof -
  have "mounted db (pkg a) d \<noteq> None" using tracked_known [OF assms(1)] assms(2) by blast
  moreover have "full_path d = GetPath a" "db_inv db" using assms unfolding tracked_def by blast+
  ultimately show ?thesis using IsMounted_iff by blast
qed

lemma tracked_entry:
  assumes t: "tracked db0 ((a, d) # ds) db" and e: "mounted db (pkg a) e \<noteq> None" "full_path e = GetPath a"
  shows "e = d"
proof -
  have m: "mounted db (pkg a) e = (if \<exists>b. (b, e) \<in> set ((a, d) # ds) \<and> pkg b = pkg a then Some False
      else mounted db0 (pkg a) e)"
    using t unfolding tracked_def by blast
  have "\<exists>b. (b, e) \<in> set ((a, d) # ds) \<and> pkg b = pkg a"
    using t e m unfolding tracked_def by (auto split: if_splits)
  then obtain b where b: "(b, e) = (a, d) \<or> (b, e) \<in> set ds" "pkg b = pkg a" by auto
  have "(b, e) \<notin> set ds"
  proof
    assume "(b, e) \<in> set ds"
    moreover from this t have "full_path e = GetPath b" unfolding tracked_def by auto
    ultimately show False using t b(2) e(2) unfolding tracked_def by force
  qed
  with b show ?thesis by blast
qed

lemma tracked_head:
  assumes t: "tracked db0 ((a, d) # ds) db"
  shows "find_mounted db (pkg a) (GetPath a) = Some (d, False)"
    and "tracked db0 ds (RemoveMountedApex (pkg a) (GetPath a) db)"
proof -
  have inv: "db_inv db" using t by (simp add: tracked_def)
  have m: "mounted db p e = (if \<exists>b. (b, e) \<in> set ((a, d) # ds) \<and> pkg b = p then Some False else mounted db0 p e)"
    for p e using t unfolding tracked_def by blast
  have d: "mounted db (pkg a) d = Some False" "full_path d = GetPath a"
    using m [of "pkg a" d] t unfolding tracked_def by auto
  have only: "e = d \<and> \<not> l" if "(e, l) \<in> set (ForallMountedApexes db (pkg a))" "full_path e = GetPath a" for e l
  proof -
    note e = db_entry_mounted [OF inv that(1)]
    then have "e = d" using tracked_entry [OF t _ that(2)] by simp
    with e d show ?thesis by simp
  qed
  have "d \<in> fst ` set (ForallMountedApexes db (pkg a))"
    using d(1) by (force simp: mounted_def dest: map_of_SomeD)
  then obtain k where k: "(d, k) \<in> set (ForallMountedApexes db (pkg a))" by auto
  show "find_mounted db (pkg a) (GetPath a) = Some (d, False)"
  proof (cases "find_mounted db (pkg a) (GetPath a)")
    case None
    with find_mounted_in(2) k d(2) show ?thesis by blast
  next
    case (Some el)
    obtain e l where "el = (e, l)" by (cases el)
    with Some find_mounted_in(1) [of db "pkg a" "GetPath a" e l] only show ?thesis by auto
  qed
  have "path_entry (GetPath a) (ForallMountedApexes db (pkg a)) \<noteq> None"
    using k d(2) by (auto simp: path_entry_None_iff)
  then obtain e where e: "path_entry (GetPath a) (ForallMountedApexes db (pkg a)) = Some e" by blast
  then have "e = d" using path_entry_SomeD [OF e] only by force
  with e RemoveMountedApex_spec [OF inv, of "pkg a" "GetPath a"]
  have r: "db_inv (RemoveMountedApex (pkg a) (GetPath a) db)"
    "mounted (RemoveMountedApex (pkg a) (GetPath a) db) = (mounted db)(pkg a := (mounted db (pkg a))(d := None))"
    by simp_all
  have "mounted db0 (pkg a) d = None" using t d(2) unfolding tracked_def by auto
  moreover have "(b, d) \<notin> set ds" if "pkg b = pkg a" for b
  proof
    assume "(b, d) \<in> set ds"
    moreover from this t have "full_path d = GetPath b" unfolding tracked_def by auto
    ultimately show False using t that d(2) unfolding tracked_def by force
  qed
  ultimately have "mounted (RemoveMountedApex (pkg a) (GetPath a) db) p e =
      (if \<exists>b. (b, e) \<in> set ds \<and> pkg b = p then Some False else mounted db0 p e)" for p e
    using m [of p e] by (auto simp: r(2))
  with t r(1) show "tracked db0 ds (RemoveMountedApex (pkg a) (GetPath a) db)"
    unfolding tracked_def by auto
qed

section \<open>Hooks\<close>

lemma MountPackageImpl_full_path: "MountPackageImpl E a mp dm vi w = (Inr d, w') \<Longrightarrow> full_path d = GetPath a"
  by (auto simp: MountPackageImpl_def mountFlattened_def mountNonFlattened_def Let_def
      split: sum.splits prod.splits if_splits)

lemma MountPackage_tracked:
  assumes m: "MountPackage E a mp w = Some (r, w')" and t: "tracked db0 ds (gMountedApexes w)"
    and n: "\<not> IsMounted (gMountedApexes w) (pkg a) (GetPath a)"
  shows "if Ok r then \<exists>d. tracked db0 (ds @ [(a, d)]) (gMountedApexes w') else gMountedApexes w' = gMountedApexes w"
proof -
  obtain ret w1 where i: "MountPackageImpl E a mp (GetPackageId (GetManifest a)) False w = (ret, w1)"
    by (cases "MountPackageImpl E a mp (GetPackageId (GetManifest a)) False w")
  note db = conjunct1 [OF at_mount_state [OF MountPackageImpl_at [OF i]]]
  show ?thesis
  proof (cases ret)
    case (Inl e)
    with m i db show ?thesis by (auto simp: MountPackage_def)
  next
    case (Inr d)
    with m i db obtain db' where "AddMountedApex (pkg a) False d (gMountedApexes w) = Some db'"
      "gMountedApexes w' = db'" "r = Success"
      by (auto simp: MountPackage_def split: option.splits)
    with tracked_add [OF t n _ MountPackageImpl_full_path [OF i [unfolded Inr]]] show ?thesis by auto
  qed
qed

lemma mount_for_hook_tracked:
  "mount_for_hook E as (map fst ds) ad w = Some (st, ma', ad', w') \<Longrightarrow> tracked db0 ds (gMountedApexes w) \<Longrightarrow>
     \<exists>ds'. ma' = map fst ds' \<and> tracked db0 ds' (gMountedApexes w') \<and> (\<exists>xs. ds' = ds @ xs) \<and>
       (Ok st \<longrightarrow> (\<forall>a \<in> set as. IsMounted (gMountedApexes w') (pkg a) (GetPath a)))"
proof (induction "as" arbitrary: ds ad w)
  case Nil
  then show ?case by (intro exI [of _ ds]) auto
next
  case (Cons a "as")
  let ?m = "GetManifest a" and ?mt = "IsMounted (gMountedApexes w) (pkg a) (GetPath a)"
  let ?ap = "GetActiveMountPoint (GetManifest a)"
  from Cons.prems(1) obtain r1 w1 where m: "(if ?mt then Some (Success, w)
      else MountPackage E a (GetPackageMountPoint ?m) w) = Some (r1, w1)"
    by (auto simp: Let_def split: option.splits)
  obtain r2 w2 where k: "sys_mkdir E ?ap kMkdirMode w1 = (r2, w2)" by (cases "sys_mkdir E ?ap kMkdirMode w1")
  have db2: "gMountedApexes w2 = gMountedApexes w1"
    using only_fs_state [OF sys_mkdir_frame [of ?ap w1 E kMkdirMode]] k by simp
  let ?ma = "if ?mt then map fst ds else map fst ds @ [a]"
  have step: "mount_for_hook E (a # as) (map fst ds) ad w = (case r1 of Inl e \<Rightarrow> Some (Inl e, map fst ds, ad, w1)
      | Inr _ \<Rightarrow> (case r2 of Inr _ \<Rightarrow> mount_for_hook E as ?ma (ad @ [?ap]) w2
        | Inl e \<Rightarrow> if e \<noteq> EEXIST then Some (Inl (PErr msg_active_point ?ap e), ?ma, ad, w2)
                  else mount_for_hook E as ?ma ad w2))"
    using m k by (cases r1) (simp_all add: Let_def)
  show ?case
  proof (cases r1)
    case (Inl e)
    with m have "\<not> ?mt" by auto
    with m MountPackage_tracked [OF _ Cons.prems(2), of E a "GetPackageMountPoint ?m" r1 w1] Inl
    have "gMountedApexes w1 = gMountedApexes w" by simp
    with Cons.prems step Inl show ?thesis by (intro exI [of _ ds]) simp
  next
    case r1: (Inr u)
    have "\<exists>ds1. ?ma = map fst ds1 \<and> tracked db0 ds1 (gMountedApexes w2) \<and> (\<exists>xs. ds1 = ds @ xs) \<and>
        IsMounted (gMountedApexes w2) (pkg a) (GetPath a)"
    proof (cases ?mt)
      case True
      with m Cons.prems(2) db2 show ?thesis by (intro exI [of _ ds]) auto
    next
      case False
      with m MountPackage_tracked [OF _ Cons.prems(2) False, of E "GetPackageMountPoint ?m" r1 w1] r1
      obtain d where d: "tracked db0 (ds @ [(a, d)]) (gMountedApexes w1)" by auto
      have "IsMounted (gMountedApexes w1) (pkg a) (GetPath a)" by (rule tracked_in [OF d, of a d]) simp
      with d False db2 show ?thesis by (intro exI [of _ "ds @ [(a, d)]"]) auto
    qed
    then obtain ds1 where ds1: "?ma = map fst ds1" "tracked db0 ds1 (gMountedApexes w2)" "\<exists>xs. ds1 = ds @ xs"
      and mt: "IsMounted (gMountedApexes w2) (pkg a) (GetPath a)" by blast
    from Cons.prems(1) step r1 ds1(1) have "(\<exists>ad. mount_for_hook E as (map fst ds1) ad w2 = Some (st, ma', ad', w')) \<or>
        \<not> Ok st \<and> ma' = map fst ds1 \<and> w' = w2"
      by (auto split: sum.splits if_splits)
    then show ?thesis
    proof
      assume "\<exists>ad. mount_for_hook E as (map fst ds1) ad w2 = Some (st, ma', ad', w')"
      with Cons.IH ds1(2) obtain ds' where d: "ma' = map fst ds'" "tracked db0 ds' (gMountedApexes w')"
        "\<exists>xs. ds' = ds1 @ xs" "Ok st \<longrightarrow> (\<forall>a \<in> set as. IsMounted (gMountedApexes w') (pkg a) (GetPath a))" by blast
      have "IsMounted (gMountedApexes w') (pkg a) (GetPath a)"
        using tracked_IsMounted [OF ds1(2) d(2) _ mt] d(3) by auto
      with d ds1(3) show ?thesis by (intro exI [of _ ds']) auto
    next
      assume "\<not> Ok st \<and> ma' = map fst ds1 \<and> w' = w2"
      with ds1 show ?thesis by (intro exI [of _ ds1]) auto
    qed
  qed
qed


lemma private_Unmount_db:
  assumes "find_mounted (gMountedApexes w) (pkg a) (GetPath a) = Some (d, False)"
  shows "gMountedApexes (snd (private_UnmountPackage E a w)) =
    RemoveMountedApex (pkg a) (GetPath a) (gMountedApexes w)"
proof -
  let ?w1 = "w\<lparr>gMountedApexes := RemoveMountedApex (pkg a) (GetPath a) (gMountedApexes w)\<rparr>"
  obtain r w2 where u: "Unmount E d ?w1 = (r, w2)" by (cases "Unmount E d ?w1")
  have "gMountedApexes w2 = gMountedApexes ?w1" using at_mount_state [OF Unmount_at [OF u]] by simp
  with assms u show ?thesis by (simp add: private_UnmountPackage_def UnmountPackage_def Let_def)
qed

lemma unmount_packages_tracked:
  "tracked db0 ds (gMountedApexes w) \<Longrightarrow> tracked db0 [] (gMountedApexes (unmount_packages E (map fst ds) w))"
proof (induction ds arbitrary: w)
  case (Cons x ds)
  obtain a d where x: "x = (a, d)" by (cases x)
  note h = tracked_head [OF Cons.prems [unfolded x]]
  have "tracked db0 ds (gMountedApexes (snd (private_UnmountPackage E a w)))"
    using h(2) private_Unmount_db [OF h(1)] by simp
  from Cons.IH [OF this] x show ?case by simp
qed simp

lemma rmdir_each_db: "gMountedApexes (rmdir_each E ps w) = gMountedApexes w"
  by (induction ps arbitrary: w) (simp_all add: only_fs_state [OF sys_rmdir_frame])

lemma ForkAndRun_db: "ForkAndRun E args w = (rc, e, w') \<Longrightarrow> gMountedApexes w' = gMountedApexes w"
  by (auto simp: ForkAndRun_def WaitChild_def query_eq Let_def split: option.splits prod.splits if_splits)

definition hook_outcome :: "env \<Rightarrow> (ApexManifest \<Rightarrow> string) \<Rightarrow> string \<Rightarrow> ApexFile list \<Rightarrow> world \<Rightarrow>
    status \<Rightarrow> world \<Rightarrow> bool" where
  "hook_outcome E fn arg apexes w st w' \<longleftrightarrow>
     db_inv (gMountedApexes w') \<and> mounted (gMountedApexes w') = mounted (gMountedApexes w) \<and>
     (length (hooked fn apexes) \<noteq> 1 \<longrightarrow> w' = w \<and> (Ok st \<longleftrightarrow> apexes \<noteq> [] \<and> hooked fn apexes = [])) \<and>
     (\<forall>i. hooked fn apexes = [i] \<and> Ok st \<longrightarrow>
       (\<exists>em w1 w2. ForkAndRun E (hook_args arg apexes i) w1 = (0, em, w2) \<and>
          (\<forall>a \<in> set apexes. IsMounted (gMountedApexes w1) (pkg a) (GetPath a))))"

lemma StageFnInstall_outcome:
  assumes run: "StageFnInstall E apexes fn arg name w = Some (st, w')" and inv: "db_inv (gMountedApexes w)"
    and ne: "apexes \<noteq> []"
  shows "hook_outcome E fn arg apexes w st w'"
proof (cases "find_hook fn name apexes 0 None")
  case (Inl e)
  then have "length (hooked fn apexes) \<noteq> 1 \<and> hooked fn apexes \<noteq> []"
    by (auto simp: find_hook_eq split: list.splits)
  with run Inl inv show ?thesis by (auto simp: StageFnInstall_def hook_outcome_def)
next
  case (Inr i)
  with run obtain k where i: "i = Some k" by (cases i) (simp_all add: StageFnInstall_def)
  with Inr have k: "hooked fn apexes = [k]" by (auto simp: find_hook_eq split: list.splits)
  from run Inr i obtain st1 ma ad w1 where m: "mount_for_hook E apexes [] [] w = Some (st1, ma, ad, w1)"
    by (auto simp: StageFnInstall_def split: option.splits)
  from mount_for_hook_tracked [of E apexes "[]" "[]" w st1 ma ad w1 "gMountedApexes w"] m tracked_Nil [OF inv]
  obtain ds where ds: "ma = map fst ds" "tracked (gMountedApexes w) ds (gMountedApexes w1)"
    "Ok st1 \<longrightarrow> (\<forall>a \<in> set apexes. IsMounted (gMountedApexes w1) (pkg a) (GetPath a))" by auto
  obtain rc em w2 where f: "ForkAndRun E (hook_args arg apexes k) w1 = (rc, em, w2)" by (rule prod_cases3)
  have guard: "db_inv (gMountedApexes (preinstall_guard E ma ad v)) \<and>
      mounted (gMountedApexes (preinstall_guard E ma ad v)) = mounted (gMountedApexes w)"
    if "gMountedApexes v = gMountedApexes w1" for v
    using tracked_done [OF unmount_packages_tracked [of "gMountedApexes w" ds v E]] ds(1,2) that
    by (simp add: preinstall_guard_def rmdir_each_db)
  from run Inr i m f have "\<not> Ok st \<and> w' = preinstall_guard E ma ad w1 \<or>
      Ok st1 \<and> w' = preinstall_guard E ma ad w2 \<and> (Ok st \<longrightarrow> rc = 0)"
    by (auto simp: StageFnInstall_def Let_def split: if_splits)
  with guard [of w1] guard [OF ForkAndRun_db [OF f]] ds(3) f k show ?thesis
    unfolding hook_outcome_def by auto
qed

lemma hooked_none: "hooked fn as = [] \<longleftrightarrow> \<not> list_ex (\<lambda>a. fn (GetManifest a) \<noteq> '''') as"
  by (auto simp: hooked_def filter_empty_conv list_ex_iff all_set_conv_all_nth)

lemma hooked_Nil: "hooked fn [] = []"
  by (simp add: hooked_def)

lemma PrePostinstall_outcome:
  assumes "PrePostinstallPackages apexes fn (\<lambda>as. StageFnInstall E as fn arg name) w = Some (st, w')"
    and "db_inv (gMountedApexes w)"
  shows "hook_outcome E fn arg apexes w st w'"
proof (cases "hooked fn apexes = [] \<or> apexes = []")
  case True
  then have h: "hooked fn apexes = []" by (auto simp: hooked_Nil)
  with assms(1) have "w' = w \<and> (Ok st \<longleftrightarrow> apexes \<noteq> [])"
    by (auto simp: PrePostinstallPackages_def hooked_none split: if_splits)
  with h assms(2) show ?thesis by (auto simp: hook_outcome_def)
next
  case False
  with assms(1) have "StageFnInstall E apexes fn arg name w = Some (st, w')"
    by (simp add: PrePostinstallPackages_def hooked_none)
  then show ?thesis using assms(2) False by (blast intro: StageFnInstall_outcome)
qed

section \<open>Properties\<close>

text \<open>C13. Before and after an installation hooks leave the database of mounted packages as it was,
  whatever fails. Without a hook nothing happens; several packages with hooks are refused
  before anything happens; and with a single hook success means that the child that runs it,
  with this package first and all packages mounted, exited with 0.
\<close>

theorem hooks_outcome:
  assumes "db_inv (gMountedApexes w)"
  shows "(PreinstallPackages E apexes w = Some (st, w') \<longrightarrow>
      hook_outcome E preinstallhook ''--pre-install'' apexes w st w') \<and>
    (PostinstallPackages E apexes w = Some (st, w') \<longrightarrow>
      hook_outcome E postinstallhook ''--post-install'' apexes w st w')"
  using PrePostinstall_outcome [OF _ assms]
  by (simp add: PreinstallPackages_def PostinstallPackages_def StagePreInstall_def [abs_def]
      StagePostInstall_def [abs_def])

theorem hooks_outcome_witness:
  "\<exists>st w'. PreinstallPackages sample_env [sample_flat\<lparr>GetManifest :=
        (GetManifest sample_flat)\<lparr>preinstallhook := ''h''\<rparr>\<rparr>] sample_flat_world = Some (st, w') \<and>
     Ok st \<and> gMountedApexes sample_flat_world = [] \<and> mounted (gMountedApexes w') = mounted []"
proof -
  let ?a = "sample_flat\<lparr>GetManifest := (GetManifest sample_flat)\<lparr>preinstallhook := ''h''\<rparr>\<rparr>"
  have "case PreinstallPackages sample_env [?a] sample_flat_world of Some (st, w') \<Rightarrow> Ok st | None \<Rightarrow> False"
    by code_simp
  then obtain st w' where run: "PreinstallPackages sample_env [?a] sample_flat_world = Some (st, w')" "Ok st"
    by (cases "PreinstallPackages sample_env [?a] sample_flat_world") auto
  have db: "gMountedApexes sample_flat_world = []" by (simp add: sample_flat_world_def sample_world_def)
  then have "db_inv (gMountedApexes sample_flat_world)" by simp
  from conjunct1 [OF hooks_outcome [OF this, of sample_env "[?a]" st w']] run
  have "hook_outcome sample_env preinstallhook ''--pre-install'' [?a] sample_flat_world st w'" by blast
  with run db show ?thesis by (auto simp: hook_outcome_def)
qed

end
