(* ===== verification/Service_Props.thy ===== *)
theory Service_Props
  imports Service
begin

text \<open>
  The service and the loop that watches the boot: which calls of the shell can change the
  device, how the state of a session and the number of a session cross the interface, and when
  the loop after boot returns.
\<close>

section \<open>Calls that only ask\<close>

lemma open_latest_asks: "open_latest E ds w = (r, w') \<Longrightarrow> asks w w'"
  by (induction E ds w arbitrary: r w' rule: open_latest.induct)
    (fastforce simp: Let_def dest: Open_asks intro: asks_trans split: prod.splits sum.splits if_splits)+

lemma getActivePackages_asks: "getActivePackages E w = (r, w') \<Longrightarrow> asks w w'"
  unfolding getActivePackages_def by (rule open_latest_asks)

lemma open_good_asks: "open_good E ps w = (r, w') \<Longrightarrow> asks w w'"
  by (induction E ps w arbitrary: r w' rule: open_good.induct)
    (fastforce simp: Let_def dest: Open_asks intro: asks_trans split: prod.splits sum.splits)+

lemma factory_packages_asks: "factory_packages E ds w = (r, w') \<Longrightarrow> asks w w'"
proof (induction ds arbitrary: r w w')
  case (Cons d ds)
  obtain r1 w1 where f: "FindApexFilesByName E d False w = (r1, w1)" by (cases "FindApexFilesByName E d False w")
  note a = FindApexFilesByName_asks [OF f]
  show ?case
  proof (cases r1)
    case (Inl e)
    with Cons.prems f have "factory_packages E ds w1 = (r, w')" by simp
    from asks_trans [OF a Cons.IH [OF this]] show ?thesis .
  next
    case (Inr ps)
    obtain as w2 where o: "open_good E ps w1 = (as, w2)" by (cases "open_good E ps w1")
    obtain rest w3 where g: "factory_packages E ds w2 = (rest, w3)" by (cases "factory_packages E ds w2")
    from Cons.prems f Inr o g have "w' = w3" by simp
    with asks_trans [OF asks_trans [OF a open_good_asks [OF o]] Cons.IH [OF g]] show ?thesis by simp
  qed
qed simp

lemma service_reads:
  "service_getActivePackages E fresh w = (r, w') \<Longrightarrow> asks w w'"
  "service_getAllPackages E fresh w = (r, w') \<Longrightarrow> asks w w'"
  "service_getActivePackage E name fresh w = (q, w') \<Longrightarrow> asks w w'"
  "service_getStagedSessionInfo E sid w = (i, w') \<Longrightarrow> asks w w'"
  by (auto simp: service_getActivePackages_def service_getAllPackages_def service_getActivePackage_def
      service_getStagedSessionInfo_def getActivePackage_def getFactoryPackages_def Let_def
      dest!: getActivePackages_asks factory_packages_asks GetSession_asks intro: asks_trans
      split: prod.splits)

definition user_build :: "env \<Rightarrow> bool" where
  "user_build E \<longleftrightarrow> (\<forall>h. property E h ''ro.debuggable'' \<notin> set [''1'', ''y'', ''yes'', ''on'', ''true''])"

lemma CheckDebuggable_user:
  "user_build E \<Longrightarrow> CheckDebuggable E name w =
     (EX_SECURITY (name @ '' unavailable''), w\<lparr>hist := GetProp ''ro.debuggable'' # hist w\<rparr>)"
  by (simp add: CheckDebuggable_def GetBoolProperty_def user_build_def)

lemma debug_only_user:
  "user_build E \<Longrightarrow> debug_only E name call w =
     Some (EX_SECURITY (name @ '' unavailable''), w\<lparr>hist := GetProp ''ro.debuggable'' # hist w\<rparr>)"
  by (simp add: debug_only_def CheckDebuggable_user)

lemma service_stagePackages_user:
  "user_build E \<Longrightarrow> service_stagePackages E paths b w =
     Some (EX_SECURITY ''stagePackages unavailable'', b, w\<lparr>hist := GetProp ''ro.debuggable'' # hist w\<rparr>)"
  by (simp add: service_stagePackages_def CheckDebuggable_user)

lemmas debug_calls = service_activatePackage_def service_deactivatePackage_def
  service_preinstallPackages_def service_postinstallPackages_def service_rollbackActiveSession_def
  service_resumeRollbackIfNeeded_def

lemma shell_reads:
  "asks w (snd (snd (shell_list args (service_getAllPackages E fresh) w)))"
  "asks w (snd (snd (shell_list args (service_getActivePackages E fresh) w)))"
  "asks w (snd (snd (shell_session_info E args w)))"
  by (auto simp: shell_list_def shell_session_info_def Let_def dest: service_reads
      split: prod.splits option.splits)

definition debug_command :: "string \<Rightarrow> bool" where
  "debug_command cmd \<longleftrightarrow> cmd \<in> set [''stagePackage'', ''stagePackages'', ''activatePackage'',
     ''deactivatePackage'', ''preinstallPackages'', ''postinstallPackages'']"

lemma debug_command_refused:
  assumes "user_build E" and "debug_command (hd args)"
  shows "\<exists>out. shellCommand E fresh b bad args w = Some (out, BAD_VALUE, w) \<or>
    shellCommand E fresh b bad args w = Some (out, BAD_VALUE, w\<lparr>hist := GetProp ''ro.debuggable'' # hist w\<rparr>)"
  using assms by (auto simp: debug_command_def shellCommand_def shell_help_def shell_stage_def shell_hooks_def
      service_stagePackages_user debug_calls debug_only_user binder_result_def)

definition only_asks :: "world \<Rightarrow> ('a \<times> 'b \<times> world) option \<Rightarrow> bool" where
  "only_asks w x \<longleftrightarrow> (\<exists>out st w'. x = Some (out, st, w') \<and> asks w w')"

lemma only_asks_Some [simp]: "only_asks w (Some x) \<longleftrightarrow> asks w (snd (snd x))"
  by (cases x) (simp add: only_asks_def)

lemma shell_other:
  assumes "\<not> debug_command (hd args)" and "hd args \<noteq> ''submitStagedSession''"
  shows "only_asks w (shellCommand E fresh b bad args w)"
proof -
  have g: "asks w (snd (service_getActivePackage E n fresh w))" for n
    by (metis service_reads(3) prod.collapse)
  from g [of "args ! 1"] assms show ?thesis
    by (cases "service_getActivePackage E (args ! 1) fresh w")
      (simp add: shellCommand_def shell_help_def debug_command_def shell_reads Let_def)
qed

section \<open>Numbers of sessions\<close>

lemma takeWhile_digits: "takeWhile is_digit (nat_to_string n) = nat_to_string n"
  by (auto simp: takeWhile_eq_all_conv is_digit_def dest: nat_to_string_digits)

lemma nat_to_string_nonempty: "nat_to_string n \<noteq> []"
  by (subst nat_to_string.simps) simp

lemma digit_not_special: "is_digit c \<Longrightarrow> \<not> is_space c \<and> c \<noteq> CHR ''-'' \<and> c \<noteq> CHR ''+''"
  by (auto simp: is_digit_def is_space_def)

lemma strtol_nat: "strtol (nat_to_string n) = min (2 ^ 63 - 1) (int n)"
proof -
  obtain c cs where c: "nat_to_string n = c # cs" using nat_to_string_nonempty [of n] by (cases "nat_to_string n") auto
  have "is_digit c" using nat_to_string_digits [of c n] c by (simp add: is_digit_def)
  note d = digit_not_special [OF this]
  show ?thesis using d c takeWhile_digits [of n] decimal_value_nat_to_string [of n]
    by (simp add: strtol_def Let_def)
qed

lemma strtol_to_string: "- (2 ^ 63) \<le> i \<Longrightarrow> i < 2 ^ 63 \<Longrightarrow> strtol (to_string i) = i"
proof (cases "i < 0")
  case True
  assume "- (2 ^ 63) \<le> i"
  then show ?thesis using True
    by (simp add: to_string_def strtol_def is_space_def takeWhile_digits)
qed (simp add: to_string_def strtol_nat)

lemma strtol_no_number:
  "s = c # cs \<Longrightarrow> \<not> is_digit c \<Longrightarrow> \<not> is_space c \<Longrightarrow> c \<noteq> CHR ''-'' \<Longrightarrow> c \<noteq> CHR ''+'' \<Longrightarrow> strtol s = 0"
  by (simp add: strtol_def decimal_value_def)

lemma parse_session_id_iff:
  "parse_session_id s = Some sid \<longleftrightarrow> sid = word_of_int (strtol s) \<and> 0 \<le> sint sid"
  by (auto simp: parse_session_id_def Let_def)

lemma sint_word_of_int_int32: "sint (word_of_int i :: int32) = signed_take_bit 31 i"
  by (simp add: sint_sbintrunc')

lemma signed_take_bit_range: "- (2 ^ 31) \<le> i \<Longrightarrow> i < 2 ^ 31 \<Longrightarrow> signed_take_bit 31 i = (i::int)"
  by (simp add: signed_take_bit_int_eq_self)

lemma nonneg_int32: "0 \<le> sint (x::int32) \<Longrightarrow> uint x < 2 ^ 31"
  using sint_lt [of x] by (simp add: uint_sint take_bit_int_eq_self)

section \<open>Waiting for the boot\<close>

definition boot_asks :: "event list" where
  "boot_asks = [GetProp ''sys.boot_completed'', WaitProp ''ro.init.updatable_crashing'' ''1'']"

text \<open>The history after \<open>n\<close> rounds of the loop, and whether the next round is the last.\<close>

definition boot_hist :: "nat \<Rightarrow> event list \<Rightarrow> event list" where
  "boot_hist n h = concat (replicate n boot_asks) @ h"

definition crashes :: "env \<Rightarrow> event list \<Rightarrow> bool" where
  "crashes E h \<longleftrightarrow> wait_property E h ''ro.init.updatable_crashing'' ''1''"

definition boot_ends :: "env \<Rightarrow> event list \<Rightarrow> bool" where
  "boot_ends E h \<longleftrightarrow> crashes E h \<or> property E (tl boot_asks @ h) ''sys.boot_completed'' = ''1''"

definition last_round :: "env \<Rightarrow> (world \<Rightarrow> (status \<times> world) option) \<Rightarrow> (world \<Rightarrow> world) \<Rightarrow> world \<Rightarrow> world option" where
  "last_round E rollback_fn complete_fn w =
     (if crashes E (hist w)
      then map_option (\<lambda>(status, w2). if Ok status then Reboot w2 else w2)
             (rollback_fn (w\<lparr>hist := tl boot_asks @ hist w\<rparr>))
      else Some (complete_fn (w\<lparr>hist := boot_asks @ hist w\<rparr>)))"

lemma boot_hist_0: "boot_hist 0 h = h"
  by (simp add: boot_hist_def)

lemma boot_hist_Suc: "boot_hist (Suc n) h = boot_hist n (boot_asks @ h)"
  by (induction n) (simp_all add: boot_hist_def)

lemma waitForBootStatus_round:
  "waitForBootStatus E rb cf w =
     (if boot_ends E (hist w) then last_round E rb cf w
      else waitForBootStatus E rb cf (w\<lparr>hist := boot_asks @ hist w\<rparr>))"
  by (subst waitForBootStatus.simps)
    (auto simp: boot_ends_def crashes_def last_round_def boot_asks_def Let_def split: option.splits)

lemma waitForBootStatus_after:
  "(\<forall>k<n. \<not> boot_ends E (boot_hist k (hist w))) \<Longrightarrow>
     waitForBootStatus E rb cf w = waitForBootStatus E rb cf (w\<lparr>hist := boot_hist n (hist w)\<rparr>)"
proof (induction n arbitrary: w)
  case (Suc n)
  have "\<not> boot_ends E (hist w)" using Suc.prems by (force simp: boot_hist_0 dest: spec [of _ 0])
  then have "waitForBootStatus E rb cf w = waitForBootStatus E rb cf (w\<lparr>hist := boot_asks @ hist w\<rparr>)"
    by (subst waitForBootStatus_round) simp
  also have "\<dots> = waitForBootStatus E rb cf (w\<lparr>hist := boot_hist n (boot_asks @ hist w)\<rparr>)"
    using Suc.IH [of "w\<lparr>hist := boot_asks @ hist w\<rparr>"] Suc.prems by (auto simp: boot_hist_Suc [symmetric])
  finally show ?case by (simp add: boot_hist_Suc)
qed (simp add: boot_hist_0)

lemma waitForBootStatus_ends:
  assumes "waitForBootStatus E rb cf w = Some w'"
  shows "\<exists>n. boot_ends E (boot_hist n (hist w))"
  using assms
proof (rule waitForBootStatus.raw_induct
    [where P = "\<lambda>E rb cf w w'. \<exists>n. boot_ends E (boot_hist n (hist w))", rotated])
  fix f E rb cf w w'
  assume IH: "\<And>E rb cf w w'. f E rb cf w = Some w' \<Longrightarrow> \<exists>n. boot_ends E (boot_hist n (hist w))"
    and run: "(let crashing = wait_property E (hist w) ''ro.init.updatable_crashing'' ''1'';
          w1 = w\<lparr>hist := WaitProp ''ro.init.updatable_crashing'' ''1'' # hist w\<rparr>
      in if crashing then
           (case rb w1 of None \<Rightarrow> None | Some (status, w2) \<Rightarrow> Some (if Ok status then Reboot w2 else w2))
         else
           (let completed = (property E (hist w1) ''sys.boot_completed'' = ''1'');
                w2 = w1\<lparr>hist := GetProp ''sys.boot_completed'' # hist w1\<rparr>
            in if completed then Some (cf w2) else f E rb cf w2)) = Some w'"
  show "\<exists>n. boot_ends E (boot_hist n (hist w))"
  proof (cases "boot_ends E (hist w)")
    case True
    then have "boot_ends E (boot_hist 0 (hist w))" by (simp add: boot_hist_0)
    then show ?thesis ..
  next
    case False
    with run have "f E rb cf (w\<lparr>hist := boot_asks @ hist w\<rparr>) = Some w'"
      by (simp add: boot_ends_def crashes_def boot_asks_def Let_def)
    from IH [OF this] obtain n where "boot_ends E (boot_hist (Suc n) (hist w))"
      by (auto simp: boot_hist_Suc)
    then show ?thesis ..
  qed
qed

section \<open>Properties\<close>

text \<open>C24. On a build that is not debuggable a shell command changes nothing: whatever its arguments,
  every command but \<open>submitStagedSession\<close> returns with the device as it was, and the commands
  that stage, activate, deactivate or run hooks are refused.
\<close>

theorem shell_harmless_on_user_builds:
  assumes "user_build E" and "hd args \<noteq> ''submitStagedSession''"
  shows "\<exists>out st w'. shellCommand E fresh b bad args w = Some (out, st, w') \<and> asks w w' \<and>
    (debug_command (hd args) \<longrightarrow> st = BAD_VALUE)"
proof (cases "debug_command (hd args)")
  case True
  then show ?thesis using debug_command_refused [OF assms(1) True, of fresh b bad w] by fastforce
next
  case False
  then show ?thesis using shell_other [OF False assms(2)] by (auto simp: only_asks_def)
qed

theorem shell_harmless_on_user_builds_witness:
  "\<exists>out st w'. shellCommand sample_env
       \<lparr>packageName = '''', packagePath = '''', versionCode = 0, versionName = '''', isFactory = False,
         isActive = False\<rparr> False False [''activatePackage'', ''/data/apex/active/a@1.apex'']
       sample_world = Some (out, st, w') \<and> asks sample_world w' \<and> st = BAD_VALUE"
proof -
  have "user_build sample_env" by (simp add: user_build_def sample_env_def)
  from shell_harmless_on_user_builds [OF this, of "[''activatePackage'', ''/data/apex/active/a@1.apex'']"]
  show ?thesis by (simp add: debug_command_def)
qed

text \<open>C38. What a client learns of a session, flag by flag: each of the eight states of a session sets
  its own flag and no other, a state the service does not know sets only \<open>isUnknown\<close>, the
  number is the session's, and two sessions look the same only if they have the same number
  and state, where states the service does not know all look unknown.
\<close>

definition unknown_state :: "State \<Rightarrow> bool" where
  "unknown_state s = (s \<notin> {VERIFIED, STAGED, ACTIVATED, ROLLBACK_IN_PROGRESS, ACTIVATION_FAILED,
     SUCCESS, ROLLED_BACK, ROLLBACK_FAILED})"

theorem session_info_flags:
  "sessionId (convertToApexSessionInfo s) = session_id s \<and>
   (isVerified (convertToApexSessionInfo s) \<longleftrightarrow> session_state s = VERIFIED) \<and>
   (isStaged (convertToApexSessionInfo s) \<longleftrightarrow> session_state s = STAGED) \<and>
   (isActivated (convertToApexSessionInfo s) \<longleftrightarrow> session_state s = ACTIVATED) \<and>
   (isRollbackInProgress (convertToApexSessionInfo s) \<longleftrightarrow> session_state s = ROLLBACK_IN_PROGRESS) \<and>
   (isActivationFailed (convertToApexSessionInfo s) \<longleftrightarrow> session_state s = ACTIVATION_FAILED) \<and>
   (isSuccess (convertToApexSessionInfo s) \<longleftrightarrow> session_state s = SUCCESS) \<and>
   (isRolledBack (convertToApexSessionInfo s) \<longleftrightarrow> session_state s = ROLLED_BACK) \<and>
   (isRollbackFailed (convertToApexSessionInfo s) \<longleftrightarrow> session_state s = ROLLBACK_FAILED) \<and>
   (isUnknown (convertToApexSessionInfo s) \<longleftrightarrow> unknown_state (session_state s)) \<and>
   (convertToApexSessionInfo s = convertToApexSessionInfo t \<longleftrightarrow> session_id s = session_id t \<and>
      (session_state s = session_state t \<or> unknown_state (session_state s) \<and> unknown_state (session_state t)))"
  by (cases "session_state s"; cases "session_state t")
    (auto simp: convertToApexSessionInfo_def ClearSessionInfo_def unknown_state_def Let_def)

text \<open>C40. The number of a session on the command line: every number a session can have is read back
  from its decimal form, negative ones are refused, and so is nothing else for being no
  number: a word that does not begin like one means session 0, and a number that does not
  fit is reduced modulo 2 to the 32.
\<close>

theorem parse_session_id_correct:
  assumes "- (2 ^ 63) \<le> i" and "i < 2 ^ 63"
    and "\<not> is_digit c" and "\<not> is_space c" and "c \<noteq> CHR ''-''" and "c \<noteq> CHR ''+''"
  shows "parse_session_id (c # cs) = Some 0 \<and>
    (0 \<le> i \<and> i < 2 ^ 31 \<longrightarrow> parse_session_id (to_string i) = Some (word_of_int i)) \<and>
    (- (2 ^ 31) \<le> i \<and> i < 0 \<longrightarrow> parse_session_id (to_string i) = None) \<and>
    (parse_session_id (to_string i) = Some sid \<longrightarrow> uint sid = i mod 2 ^ 32 \<and> uint sid < 2 ^ 31)"
proof (intro conjI impI)
  show "parse_session_id (c # cs) = Some 0"
    by (simp add: parse_session_id_iff strtol_no_number [OF refl assms(3-6)])
  note strtol = strtol_to_string [OF assms(1,2)]
  have range: "sint (word_of_int i :: int32) = i" if "- (2 ^ 31) \<le> i" "i < 2 ^ 31"
    using that by (simp add: sint_word_of_int_int32 signed_take_bit_range)
  show "parse_session_id (to_string i) = Some (word_of_int i)" if "0 \<le> i \<and> i < 2 ^ 31"
    using that range by (simp add: parse_session_id_iff strtol)
  show "parse_session_id (to_string i) = None" if "- (2 ^ 31) \<le> i \<and> i < 0"
    using that range by (simp add: parse_session_id_def strtol)
  assume "parse_session_id (to_string i) = Some sid"
  then have sid: "sid = word_of_int i" "0 \<le> sint sid" by (auto simp: parse_session_id_iff strtol)
  then show "uint sid = i mod 2 ^ 32" by (simp add: uint_word_of_int)
  from sid(2) show "uint sid < 2 ^ 31" by (rule nonneg_int32)
qed

theorem parse_session_id_correct_witness:
  "parse_session_id ''x7'' = Some 0 \<and> parse_session_id (to_string 1234) = Some 1234"
  using parse_session_id_correct [of 1234 "CHR ''x''" "''7''" 1234]
  by (simp add: is_digit_def is_space_def)

text \<open>C39. The loop after boot returns exactly if an updatable process crashes or the boot completes
  in some round (and the rollback returns); what it does then is decided by that round alone.
\<close>

theorem waitForBootStatus_terminates:
  assumes rb: "\<forall>w. rb w \<noteq> None"
  shows "(waitForBootStatus E rb cf w \<noteq> None \<longleftrightarrow> (\<exists>n. boot_ends E (boot_hist n (hist w)))) \<and>
    (\<forall>n. boot_ends E (boot_hist n (hist w)) \<and> (\<forall>k<n. \<not> boot_ends E (boot_hist k (hist w))) \<longrightarrow>
      waitForBootStatus E rb cf w = last_round E rb cf (w\<lparr>hist := boot_hist n (hist w)\<rparr>))"
proof -
  have eq: "waitForBootStatus E rb cf w = last_round E rb cf (w\<lparr>hist := boot_hist n (hist w)\<rparr>)"
    if "boot_ends E (boot_hist n (hist w))" "\<forall>k<n. \<not> boot_ends E (boot_hist k (hist w))" for n
    using waitForBootStatus_after [OF that(2)] that(1) by (subst (asm) (2) waitForBootStatus_round) simp
  moreover have "waitForBootStatus E rb cf w \<noteq> None" if "boot_ends E (boot_hist m (hist w))" for m
  proof -
    from that obtain n where "boot_ends E (boot_hist n (hist w))" "\<forall>k<n. \<not> boot_ends E (boot_hist k (hist w))"
      using exists_least_iff [of "\<lambda>n. boot_ends E (boot_hist n (hist w))"] by auto
    from eq [OF this] rb show ?thesis by (simp add: last_round_def)
  qed
  ultimately show ?thesis using waitForBootStatus_ends by fastforce
qed

theorem waitForBootStatus_terminates_witness:
  "waitForBootStatus (sample_env\<lparr>property := \<lambda>h p. if length h > 4 then ''1'' else ''''\<rparr>)
     (\<lambda>w. Some (Success, w)) id sample_world \<noteq> None"
proof -
  let ?E = "sample_env\<lparr>property := \<lambda>h p. if length h > 4 then ''1'' else ''''\<rparr>"
  have "boot_ends ?E (boot_hist 2 (hist sample_world))" by code_simp
  with waitForBootStatus_terminates [of "\<lambda>w. Some (Success, w)" ?E id sample_world]
  show ?thesis by blast
qed

end
