(* ===== verification/Spec2Isabelle.thy ===== *)
theory Spec2Isabelle
  imports Db_Populate Apexd_Loop Apex_Shim Mount Mount_Safety Mount_Frame Staging Staging_Props
    Rollback Rollback_Props Activate Checkpoint Prepostinstall Boot Service Apex_Database
    Apexd_Utils Apex_File Apex_Key Apex_Verity Apexd_Session Session_Frame Session_Store
    Requests Lifecycle Mount_Trust Activate_Props Db_Mounts Hook_Props Service_Props
begin

text \<open>
  A model of \<open>apexd\<close>, the Android daemon that verifies, stages, activates and rolls back
  APEX packages.

  The program. A package is an archive with a file system image, a manifest and a key.
  The daemon finds packages on the built-in partitions and in \<open>/data/apex/active\<close>, checks
  their signature against the keys of the built-in packages, attaches the image to a loop
  device, puts a verity device on top where it must, mounts it at \<open>/apex/<name>@<version>\<close>
  and shows the highest version at \<open>/apex/<name>\<close>. An update is a session: the installer
  submits it through the binder service (\<open>submitStagedSession\<close>), marks it ready, and the
  next boot stages its packages (\<open>onStart\<close>), which becomes a success or a rollback from the
  backup in \<open>/data/apex/backup\<close>.

  The state. The record \<open>world\<close> (theory \<open>World\<close>) has the tree of files \<open>fs\<close>, the mount table
  \<open>mnts\<close>, the history \<open>hist\<close> of all calls that leave the process, and the global variables of
  \<open>apexd.cpp\<close> and \<open>apex_key.cpp\<close> under their names (\<open>gMountedApexes\<close>, \<open>gScannedApexKeys\<close>,
  \<open>gInFsCheckpointMode\<close>, \<dots>). The record \<open>env\<close> holds what is not in the repository as parameters:
  libziparchive, the JSON and protobuf runtimes, libavb, libdm, the loop driver, vold, the
  property service, the content of images and hook programs. Answers are functions of the
  history, so that an environment may answer differently each time; \<open>fault\<close> says call by call
  whether a system call fails. A device that loses power is an environment in which every
  call fails from some event on. \<open>Status\<close> and \<open>StatusOr\<close> are sums with a tree of messages
  (\<open>error\<close>); a failed \<open>CHECK\<close> or a loop that does not end is \<open>None\<close>.

  The theories. Each names the files it is translated from in its first text.

    \<open>Prelude\<close>: ordered maps (the locale \<open>key_map\<close>), strings, the collections of hints.
    \<open>World\<close>, \<open>Sample_Env\<close>, \<open>Posix\<close>: state, parameters, a closed environment for witnesses, and
      the system calls the sources use.
    \<open>Apexd_Utils\<close>: \<open>apexd_utils.h\<close>, \<open>apex_constants.h\<close>. \<open>Apex_Database\<close>: \<open>apex_database.h\<close>.
    \<open>Db_Populate\<close>: \<open>apex_database.cpp\<close>. \<open>Apex_File\<close>, \<open>Apex_Verity\<close>: \<open>apex_manifest.cpp\<close>, \<open>apex_file.cpp\<close>.
    \<open>Apex_Key\<close>: \<open>apex_key.cpp\<close>. \<open>Apexd_Session\<close>: \<open>apexd_session.cpp\<close>. \<open>Apexd_Loop\<close>: \<open>apexd_loop.cpp\<close>.
    \<open>Apex_Shim\<close>: \<open>apex_shim.cpp\<close>. \<open>Checkpoint\<close>: \<open>apexd_checkpoint_vold.cpp\<close>.
    \<open>Mount\<close>, \<open>Staging\<close>, \<open>Activate\<close>, \<open>Rollback\<close>, \<open>Boot\<close>: \<open>apexd.cpp\<close> by what it does, with
      \<open>apexd_private.cpp\<close> in \<open>Mount\<close>, \<open>apexd_prop.cpp\<close> and \<open>apexd_main.cpp\<close> in \<open>Boot\<close>.
    \<open>Prepostinstall\<close>: \<open>apexd_prepostinstall.cpp\<close> and its callers. \<open>Service\<close>: \<open>apexservice.cpp\<close>.

  A definition has the name of the function it models; a loop body or a part of a function that
  is a definition of its own stands before it. References and out-parameters are returned.

  What is shown. The component theories end with their own properties: the database keeps its
  invariant under every sequence of operations (an interpretation of the locale
  \<open>mounted_images\<close>), sessions written are read back (\<open>session_store\<close>), what opens is what the
  archive holds, what verifies is signed by the recorded key, keys are never replaced, the
  database is rebuilt from exactly the mounts that name a version, mount points of names
  without \<open>@\<close> parse back, loops end. The other theories put components together.

    \<open>Mount_Safety\<close>: live loop and verity devices are read off the history; a mounted package
      is backed by the devices its signature asks for, a failed mount leaves none.
    \<open>Mount_Frame\<close>, \<open>Verify_Frame\<close>, \<open>Daemon_Frame\<close>: the parts of the state that mounting, verifying
      and then every operation of the daemon can touch. The locales \<open>verify_frame\<close> and
      \<open>daemon_frame\<close> follow the operations once for any relation that the primitive steps
      respect; \<open>Staging_Props\<close> and \<open>Session_Frame\<close> interpret them.
    \<open>Staging_Props\<close>: staging adds exactly the staged packages and takes out what they replace.
    \<open>Rollback_Props\<close>: a rollback restores the backup whole or keeps it; what a rollback that was
      cut short leaves of its session, and that one left in progress is completed when resumed
      after a reboot.
    \<open>Requests\<close>: the daemon as a whole (\<open>perform\<close> serves one request, start or restart), and what
      follows for all requests from what holds of the operations on sessions (the locales
      \<open>simulation\<close>, \<open>request_frame\<close> and \<open>session_writes\<close>).
    \<open>Session_Store\<close>, \<open>Lifecycle\<close>: the sessions on disk as a map, an abstract machine on this map
      (\<open>moves\<close>, \<open>session_step\<close>), and a simulation: every request, boot, crash and restart of the
      daemon is a sequence of its steps.
    \<open>Mount_Trust\<close>: from the keys of the built-in packages to the mount table, over whole runs:
      nothing is ever mounted that is not signed with such a key or part of a built-in partition.
    \<open>Db_Mounts\<close>: the database and the mount table agree over whole runs of activations,
      deactivations and clean-ups: what is recorded is mounted, at a mount point of its own.
    \<open>Activate_Props\<close>, \<open>Hook_Props\<close>, \<open>Service_Props\<close>: each way an activation can end and what the
      clean-up after the boot leaves, installation hooks, the shell commands and the loop after
      boot.

  Bounds. Machine integers are words: versions, sizes and session ids have the widths of the
  sources, and narrowing casts are written out. \<open>WaitForFile\<close>, \<open>CalculateSha512\<close> and
  \<open>waitForBootStatus\<close> may run forever and are \<open>partial_function (option)\<close>, so that a value is a
  run that ends; that they end is proved where they do. The retries of \<open>waitForDevice\<close> and the
  attempts to set up a loop device count down from the constants of the sources. There is no other fuel.

  Not modelled. Logging; how binder unpacks a parcel (a parameter of \<open>onTransact\<close>), its threads,
  and the wording of the statuses it carries; calls served at the same time by two binder
  threads (requests are served one after the other here); \<open>..\<close> and
  symbolic links in paths; that hard links share their bytes (they are copies, and no
  operation writes through one); the content of sysfs beyond names; division by a block size
  of zero, where the sources trap and a word is zero; the order of unordered sets, taken as the
  order of insertion. Test helpers, the package builder and the shim packages are not part of
  the daemon.
\<close>

end
